(* ===== verification/Prelude.thy ===== *)
theory Prelude
  imports Main "HOL-Library.Word" "HOL-Library.Sublist" "HOL-Library.AList"
    "HOL-Library.Monad_Syntax"
begin

text \<open>
  Shared vocabulary of the development: Rust's \<open>Result\<close> as a sum, the \<open>?\<close> operator as a bind,
  a state-and-result combinator for code with effects, the byte-string operations of
  \<open>str\<close> that the sources call, the checked and saturating integer operations, and the lemma
  collections that the component theories use. A Rust \<open>&str\<close> is the list of its UTF-8 bytes,
  so \<open>length\<close> is \<open>str::len\<close>. \<open>usize\<close> and \<open>u64\<close> are natural numbers with their bound
  written out (the target is 64-bit), \<open>i64\<close> is an integer with its range written out.
\<close>

named_theorems result_simps \<open>case distinctions on results\<close>
named_theorems str_simps \<open>facts on byte strings\<close>

section \<open>Results\<close>

type_synonym ('a, 'e) result = "'e + 'a"

abbreviation Ok :: "'a \<Rightarrow> 'e + 'a" where "Ok \<equiv> Inr"
abbreviation Err :: "'e \<Rightarrow> 'e + 'a" where "Err \<equiv> Inl"

text \<open>The \<open>?\<close> operator on a result: an error returns at once.\<close>

definition bind_res :: "'e + 'a \<Rightarrow> ('a \<Rightarrow> 'e + 'b) \<Rightarrow> 'e + 'b" where
  "bind_res r f = (case r of Inl e \<Rightarrow> Inl e | Inr x \<Rightarrow> f x)"

definition ok_or :: "'e \<Rightarrow> 'a option \<Rightarrow> 'e + 'a" where
  "ok_or e v = (case v of None \<Rightarrow> Inl e | Some x \<Rightarrow> Inr x)"

definition map_err :: "('e \<Rightarrow> 'f) \<Rightarrow> 'e + 'a \<Rightarrow> 'f + 'a" where
  "map_err g r = (case r of Inl e \<Rightarrow> Inl (g e) | Inr x \<Rightarrow> Inr x)"

definition res_ok :: "'e + 'a \<Rightarrow> 'a option" where
  "res_ok r = (case r of Inl _ \<Rightarrow> None | Inr x \<Rightarrow> Some x)"

text \<open>\<open>iter().map(f).collect::<Result<Vec<_>, _>>()\<close>: the first error wins.\<close>

fun collect_res :: "('a \<Rightarrow> 'e + 'b) \<Rightarrow> 'a list \<Rightarrow> 'e + 'b list" where
  "collect_res f [] = Inr []"
| "collect_res f (x # xs) =
     bind_res (f x) (\<lambda>y. bind_res (collect_res f xs) (\<lambda>ys. Inr (y # ys)))"

fun collect_opt :: "('a \<Rightarrow> 'b option) \<Rightarrow> 'a list \<Rightarrow> 'b list option" where
  "collect_opt f [] = Some []"
| "collect_opt f (x # xs) =
     (case f x of None \<Rightarrow> None
      | Some y \<Rightarrow> (case collect_opt f xs of None \<Rightarrow> None | Some ys \<Rightarrow> Some (y # ys)))"

section \<open>Code with effects\<close>

text \<open>
  A fallible operation with effects takes the state and returns the result with the new
  state; \<open>bind_sm\<close> is \<open>.await?\<close>.
\<close>

type_synonym ('s, 'e, 'a) sm = "'s \<Rightarrow> 's \<times> ('e + 'a)"

definition return_sm :: "'a \<Rightarrow> ('s, 'e, 'a) sm" where
  "return_sm x s = (s, Inr x)"

definition fail_sm :: "'e \<Rightarrow> ('s, 'e, 'a) sm" where
  "fail_sm e s = (s, Inl e)"

definition lift_sm :: "'e + 'a \<Rightarrow> ('s, 'e, 'a) sm" where
  "lift_sm r s = (s, r)"

definition bind_sm :: "('s, 'e, 'a) sm \<Rightarrow> ('a \<Rightarrow> ('s, 'e, 'b) sm) \<Rightarrow> ('s, 'e, 'b) sm" where
  "bind_sm m f s = (case m s of (s', Inl e) \<Rightarrow> (s', Inl e) | (s', Inr x) \<Rightarrow> f x s')"

section \<open>Byte strings\<close>

definition byte :: "char \<Rightarrow> nat" where
  "byte c = of_char c"

definition is_digit :: "char \<Rightarrow> bool" where
  "is_digit c \<longleftrightarrow> 48 \<le> byte c \<and> byte c \<le> 57"

definition is_ascii_alphanumeric :: "char \<Rightarrow> bool" where
  "is_ascii_alphanumeric c \<longleftrightarrow>
     is_digit c \<or> (65 \<le> byte c \<and> byte c \<le> 90) \<or> (97 \<le> byte c \<and> byte c \<le> 122)"

definition ascii_lower :: "char \<Rightarrow> char" where
  "ascii_lower c = (if 65 \<le> byte c \<and> byte c \<le> 90 then char_of (byte c + 32) else c)"

definition to_ascii_lowercase :: "string \<Rightarrow> string" where
  "to_ascii_lowercase s = map ascii_lower s"

definition eq_ignore_ascii_case :: "string \<Rightarrow> string \<Rightarrow> bool" where
  "eq_ignore_ascii_case a b \<longleftrightarrow> to_ascii_lowercase a = to_ascii_lowercase b"

definition strip_prefix :: "'a list \<Rightarrow> 'a list \<Rightarrow> 'a list option" where
  "strip_prefix p s = (if take (length p) s = p then Some (drop (length p) s) else None)"

definition strip_suffix :: "'a list \<Rightarrow> 'a list \<Rightarrow> 'a list option" where
  "strip_suffix p s = map_option rev (strip_prefix (rev p) (rev s))"

text \<open>\<open>str::split_once\<close> at the first character that satisfies the pattern.\<close>

fun split_once :: "('a \<Rightarrow> bool) \<Rightarrow> 'a list \<Rightarrow> ('a list \<times> 'a list) option" where
  "split_once p [] = None"
| "split_once p (x # xs) =
     (if p x then Some ([], xs)
      else (case split_once p xs of None \<Rightarrow> None | Some (a, b) \<Rightarrow> Some (x # a, b)))"

text \<open>\<open>str::split\<close> on one character; the result is never empty.\<close>

fun split_on :: "'a \<Rightarrow> 'a list \<Rightarrow> 'a list list" where
  "split_on c [] = [[]]"
| "split_on c (x # xs) =
     (if x = c then [] # split_on c xs
      else (case split_on c xs of [] \<Rightarrow> [[x]] | y # ys \<Rightarrow> (x # y) # ys))"

fun join_with :: "'a list \<Rightarrow> 'a list list \<Rightarrow> 'a list" where
  "join_with sep [] = []"
| "join_with sep [x] = x"
| "join_with sep (x # y # ys) = x @ sep @ join_with sep (y # ys)"

text \<open>
  The UTF-8 encodings of the characters with the Unicode property \<open>White_Space\<close>, which
  \<open>str::trim\<close> removes at both ends.
\<close>

definition white_space :: "string list" where
  "white_space = map (map (\<lambda>n. char_of (n :: nat)))
     [[9], [10], [11], [12], [13], [32], [194, 133], [194, 160], [225, 154, 128],
      [226, 128, 128], [226, 128, 129], [226, 128, 130], [226, 128, 131], [226, 128, 132],
      [226, 128, 133], [226, 128, 134], [226, 128, 135], [226, 128, 136], [226, 128, 137],
      [226, 128, 138], [226, 128, 168], [226, 128, 169], [226, 128, 175], [226, 129, 159],
      [227, 128, 128]]"

lemma white_space_nonempty: "w \<in> set white_space \<Longrightarrow> w \<noteq> []"
  by (auto simp: white_space_def)

lemma find_Some_sat: "find P xs = Some x \<Longrightarrow> P x"
  by (induction xs) (auto split: if_splits)

function strip_all :: "string list \<Rightarrow> string \<Rightarrow> string" where
  "strip_all ws s =
     (case find (\<lambda>w. w \<noteq> [] \<and> take (length w) s = w) ws of
        None \<Rightarrow> s
      | Some w \<Rightarrow> strip_all ws (drop (length w) s))"
  by pat_completeness auto
termination
proof (relation "measure (\<lambda>(ws, s). length s)")
  fix ws s w assume "find (\<lambda>w. w \<noteq> [] \<and> take (length w) s = w) ws = Some w"
  from find_Some_sat [OF this] have "w \<noteq> []" "s \<noteq> []" by auto
  then show "((ws, drop (length w) s), ws, s) \<in> measure (\<lambda>(ws, s). length s)"
    by simp
qed simp

declare strip_all.simps [simp del]

definition trim :: "string \<Rightarrow> string" where
  "trim s = rev (strip_all (map rev white_space) (rev (strip_all white_space s)))"

text \<open>
  \<open>str::from_utf8\<close>: the well-formed byte sequences (no overlong forms, no surrogates,
  nothing beyond U+10FFFF).
\<close>

definition in_range :: "nat \<Rightarrow> nat \<Rightarrow> char \<Rightarrow> bool" where
  "in_range lo hi c \<longleftrightarrow> lo \<le> byte c \<and> byte c \<le> hi"

fun utf8_valid :: "string \<Rightarrow> bool" where
  "utf8_valid [] = True"
| "utf8_valid (a # r) =
     (if in_range 0 127 a then utf8_valid r
      else if in_range 194 223 a then
        (case r of b # t \<Rightarrow> in_range 128 191 b \<and> utf8_valid t | _ \<Rightarrow> False)
      else if in_range 224 239 a then
        (case r of b # c # t \<Rightarrow>
           in_range (if byte a = 224 then 160 else 128) (if byte a = 237 then 159 else 191) b
           \<and> in_range 128 191 c \<and> utf8_valid t
         | _ \<Rightarrow> False)
      else if in_range 240 244 a then
        (case r of b # c # d # t \<Rightarrow>
           in_range (if byte a = 240 then 144 else 128) (if byte a = 244 then 143 else 191) b
           \<and> in_range 128 191 c \<and> in_range 128 191 d \<and> utf8_valid t
         | _ \<Rightarrow> False)
      else False)"

text \<open>The characters of a UTF-8 string start at the bytes that are not continuation bytes.\<close>

definition is_char_start :: "char \<Rightarrow> bool" where
  "is_char_start c \<longleftrightarrow> \<not> (128 \<le> byte c \<and> byte c < 192)"

definition chars_count :: "string \<Rightarrow> nat" where
  "chars_count s = length (filter is_char_start s)"

fun chars_take :: "nat \<Rightarrow> string \<Rightarrow> string" where
  "chars_take n [] = []"
| "chars_take n (c # cs) =
     (if is_char_start c
      then (case n of 0 \<Rightarrow> [] | Suc m \<Rightarrow> c # chars_take m cs)
      else c # chars_take n cs)"

section \<open>Integers\<close>

definition usize_max :: int where "usize_max = 2 ^ 64 - 1"
definition i64_max :: int where "i64_max = 2 ^ 63 - 1"
definition i64_min :: int where "i64_min = - (2 ^ 63)"
definition u64_max :: int where "u64_max = 2 ^ 64 - 1"

definition saturating_add :: "int \<Rightarrow> int \<Rightarrow> int" where
  "saturating_add a b = min usize_max (a + b)"

definition saturating_sub :: "int \<Rightarrow> int \<Rightarrow> int" where
  "saturating_sub a b = max 0 (a - b)"

definition checked_usize :: "nat \<Rightarrow> nat option" where
  "checked_usize n = (if int n \<le> usize_max then Some n else None)"

definition checked_i64 :: "int \<Rightarrow> int option" where
  "checked_i64 n = (if i64_min \<le> n \<and> n \<le> i64_max then Some n else None)"

definition checked_u64 :: "int \<Rightarrow> int option" where
  "checked_u64 n = (if 0 \<le> n \<and> n \<le> u64_max then Some n else None)"

text \<open>Decimal digits: their value, and the digits of a number (\<open>to_string\<close>).\<close>

definition digit_val :: "char \<Rightarrow> int" where
  "digit_val c = int (byte c) - 48"

definition digits_val :: "string \<Rightarrow> int" where
  "digits_val s = foldl (\<lambda>a c. 10 * a + digit_val c) 0 s"

definition digit_char :: "int \<Rightarrow> char" where
  "digit_char d = char_of (48 + nat d)"

function show_digits :: "int \<Rightarrow> string" where
  "show_digits n =
     (if n < 10 then [digit_char n] else show_digits (n div 10) @ [digit_char (n mod 10)])"
  by pat_completeness auto
termination
  by (relation "measure nat") auto

declare show_digits.simps [simp del]

definition show_int :: "int \<Rightarrow> string" where
  "show_int n = (if n < 0 then ''-'' @ show_digits (- n) else show_digits n)"

text \<open>\<open>str::parse::<i64>\<close>: an optional sign, then at least one digit, within range.\<close>

definition parse_i64 :: "string \<Rightarrow> int option" where
  "parse_i64 s =
     (let (neg, ds) = (case s of [] \<Rightarrow> (False, [])
                       | c # cs \<Rightarrow> if c = CHR ''-'' then (True, cs)
                                  else if c = CHR ''+'' then (False, cs) else (False, c # cs))
      in if ds = [] \<or> \<not> list_all is_digit ds then None
         else checked_i64 (if neg then - digits_val ds else digits_val ds))"

section \<open>Lemmas on results and effects\<close>

lemma bind_res_simps [simp]: "bind_res (Inl e) f = Inl e" "bind_res (Inr x) f = f x"
  by (simp_all add: bind_res_def)

lemma bind_res_eq_Ok [result_simps]: "bind_res r f = Inr y \<longleftrightarrow> (\<exists>x. r = Inr x \<and> f x = Inr y)"
  by (cases r) auto

lemma bind_res_eq_Err [result_simps]:
  "bind_res r f = Inl e \<longleftrightarrow> r = Inl e \<or> (\<exists>x. r = Inr x \<and> f x = Inl e)"
  by (cases r) auto

lemma ok_or_simps [simp]: "ok_or e None = Inl e" "ok_or e (Some x) = Inr x"
  by (simp_all add: ok_or_def)

lemma ok_or_eq_Ok [result_simps]: "ok_or e v = Inr x \<longleftrightarrow> v = Some x"
  by (cases v) auto

lemma ok_or_eq_Err [result_simps]: "ok_or e v = Inl e' \<longleftrightarrow> v = None \<and> e' = e"
  by (cases v) auto

lemma map_err_simps [simp]: "map_err g (Inl e) = Inl (g e)" "map_err g (Inr x) = Inr x"
  by (simp_all add: map_err_def)

lemma map_err_eq_Ok [result_simps]: "map_err g r = Inr x \<longleftrightarrow> r = Inr x"
  by (cases r) auto

lemma map_err_eq_Err [result_simps]: "map_err g r = Inl e \<longleftrightarrow> (\<exists>d. r = Inl d \<and> e = g d)"
  by (cases r) auto

lemma res_ok_simps [simp]: "res_ok (Inl e) = None" "res_ok (Inr x) = Some x"
  by (simp_all add: res_ok_def)

lemma collect_res_Ok_iff:
  "collect_res f xs = Inr ys \<longleftrightarrow> list_all2 (\<lambda>x y. f x = Inr y) xs ys"
proof (induction xs arbitrary: ys)
  case Nil
  then show ?case by auto
next
  case (Cons x xs)
  show ?case
    by (cases ys) (auto simp: Cons.IH bind_res_eq_Ok)
qed

lemma collect_opt_Some_iff:
  "collect_opt f xs = Some ys \<longleftrightarrow> list_all2 (\<lambda>x y. f x = Some y) xs ys"
proof (induction xs arbitrary: ys)
  case Nil
  then show ?case by auto
next
  case (Cons x xs)
  show ?case
    by (cases ys; cases "f x"; cases "collect_opt f xs") (auto simp: Cons.IH [symmetric])
qed

lemma bind_sm_apply [simp]:
  "m s = (s', Inl e) \<Longrightarrow> bind_sm m f s = (s', Inl e)"
  "m s = (s', Inr x) \<Longrightarrow> bind_sm m f s = f x s'"
  by (simp_all add: bind_sm_def)

lemma return_sm_apply [simp]: "return_sm x s = (s, Inr x)"
  by (simp add: return_sm_def)

lemma fail_sm_apply [simp]: "fail_sm e s = (s, Inl e)"
  by (simp add: fail_sm_def)

lemma lift_sm_apply [simp]: "lift_sm r s = (s, r)"
  by (simp add: lift_sm_def)

lemma bind_sm_eq_Ok:
  "bind_sm m f s = (s'', Inr y) \<longleftrightarrow> (\<exists>x s'. m s = (s', Inr x) \<and> f x s' = (s'', Inr y))"
  by (auto simp: bind_sm_def split: prod.splits sum.splits)

section \<open>Lemmas on byte strings\<close>

lemma strip_prefix_Some [str_simps]: "strip_prefix p s = Some r \<longleftrightarrow> s = p @ r"
  by (auto simp: strip_prefix_def) (metis append_take_drop_id)

lemma strip_prefix_append [simp]: "strip_prefix p (p @ r) = Some r"
  by (simp add: strip_prefix_Some)

lemma strip_suffix_Some [str_simps]: "strip_suffix p s = Some r \<longleftrightarrow> s = r @ p"
  by (auto simp: strip_suffix_def strip_prefix_Some) (metis rev_append rev_rev_ident)

lemma split_once_Some:
  "split_once p s = Some (a, b) \<longleftrightarrow> (\<exists>x. s = a @ x # b \<and> p x \<and> (\<forall>y \<in> set a. \<not> p y))"
proof (induction s arbitrary: a)
  case Nil
  then show ?case by simp
next
  case (Cons x xs)
  show ?case
  proof (cases a)
    case Nil
    then show ?thesis by (auto split: option.splits)
  next
    case (Cons y ys)
    with Cons.IH[of ys] show ?thesis by (auto split: option.splits)
  qed
qed

lemma split_once_None [str_simps]: "split_once p s = None \<longleftrightarrow> (\<forall>y \<in> set s. \<not> p y)"
  by (induction s) (auto split: option.splits)

lemma split_once_append:
  "p x \<Longrightarrow> (\<forall>y \<in> set a. \<not> p y) \<Longrightarrow> split_once p (a @ x # b) = Some (a, b)"
  by (auto simp: split_once_Some)

lemma split_on_nonempty [simp]: "split_on c s \<noteq> []"
  by (induction s) (auto split: list.splits)

lemma split_on_no_sep: "x \<in> set (split_on c s) \<Longrightarrow> c \<notin> set x"
proof (induction s arbitrary: x)
  case Nil
  then show ?case by simp
next
  case (Cons y ys)
  then show ?case by (fastforce split: list.splits if_splits)
qed

lemma join_split_on: "join_with [c] (split_on c s) = s"
proof (induction s)
  case Nil
  then show ?case by simp
next
  case (Cons x xs)
  obtain y ys where "split_on c xs = y # ys"
    using split_on_nonempty[of c xs] by (cases "split_on c xs") auto
  with Cons show ?case by (cases ys) auto
qed

lemma byte_less: "byte c < 256"
  by (simp add: byte_def)

lemma byte_char_of: "byte (char_of n) = n mod 256"
  by (simp add: byte_def)

lemma byte_inject: "byte c = byte d \<longleftrightarrow> c = d"
  by (simp add: byte_def)

lemma ascii_lower_idem [simp]: "ascii_lower (ascii_lower c) = ascii_lower c"
  by (auto simp: ascii_lower_def byte_char_of)

lemma to_ascii_lowercase_idem [simp]:
  "to_ascii_lowercase (to_ascii_lowercase s) = to_ascii_lowercase s"
  by (simp add: to_ascii_lowercase_def)

lemma length_to_ascii_lowercase [simp]: "length (to_ascii_lowercase s) = length s"
  by (simp add: to_ascii_lowercase_def)

lemma to_ascii_lowercase_append:
  "to_ascii_lowercase (a @ b) = to_ascii_lowercase a @ to_ascii_lowercase b"
  by (simp add: to_ascii_lowercase_def)

lemma to_ascii_lowercase_take:
  "to_ascii_lowercase (take n s) = take n (to_ascii_lowercase s)"
  by (simp add: to_ascii_lowercase_def take_map)

section \<open>Lemmas on numbers\<close>

lemma digits_val_Nil [simp]: "digits_val [] = 0"
  by (simp add: digits_val_def)

lemma digits_val_snoc [simp]: "digits_val (s @ [c]) = 10 * digits_val s + digit_val c"
  by (simp add: digits_val_def)

lemma digits_val_append: "digits_val (a @ b) = digits_val a * 10 ^ length b + digits_val b"
proof (induction b rule: rev_induct)
  case Nil
  then show ?case by simp
next
  case (snoc x xs)
  have "digits_val (a @ xs @ [x]) = 10 * digits_val (a @ xs) + digit_val x"
    using digits_val_snoc[of "a @ xs" x] by simp
  with snoc show ?case by (simp add: algebra_simps)
qed

lemma digit_val_bounds: "is_digit c \<Longrightarrow> 0 \<le> digit_val c \<and> digit_val c < 10"
  by (auto simp: is_digit_def digit_val_def)

lemma digits_val_bounds:
  "list_all is_digit s \<Longrightarrow> 0 \<le> digits_val s \<and> digits_val s < 10 ^ length s"
proof (induction s rule: rev_induct)
  case Nil
  then show ?case by simp
next
  case (snoc x xs)
  then show ?case using digit_val_bounds[of x] by auto
qed

lemma digit_char_digit:
  "0 \<le> d \<Longrightarrow> d < 10 \<Longrightarrow> is_digit (digit_char d) \<and> digit_val (digit_char d) = d"
  by (auto simp: digit_char_def is_digit_def digit_val_def byte_char_of)

lemma show_digits_digits: "0 \<le> n \<Longrightarrow> list_all is_digit (show_digits n) \<and> show_digits n \<noteq> []"
proof (induction n rule: show_digits.induct)
  case (1 n)
  then show ?case
    by (subst (1 2) show_digits.simps) (auto simp: digit_char_digit)
qed

lemma digits_val_show_digits: "0 \<le> n \<Longrightarrow> digits_val (show_digits n) = n"
proof (induction n rule: show_digits.induct)
  case (1 n)
  show ?case
  proof (cases "n < 10")
    case True
    with 1 show ?thesis
      using digits_val_snoc[of "[]"] by (subst show_digits.simps) (simp add: digit_char_digit)
  next
    case False
    with 1 show ?thesis by (subst show_digits.simps) (simp add: digit_char_digit)
  qed
qed

lemma length_show_digits: "0 \<le> n \<Longrightarrow> n < 10 ^ k \<Longrightarrow> 0 < k \<Longrightarrow> length (show_digits n) \<le> k"
proof (induction n arbitrary: k rule: show_digits.induct)
  case (1 n)
  show ?case
  proof (cases "n < 10")
    case True
    with 1 show ?thesis by (subst show_digits.simps) simp
  next
    case False
    then have "1 < k" using "1.prems" by (cases k; cases "k - 1") auto
    then obtain j where k: "k = Suc j" "0 < j" by (cases k) auto
    with False 1 have "length (show_digits (n div 10)) \<le> j" by auto
    with False k show ?thesis by (subst show_digits.simps) simp
  qed
qed

lemma checked_i64_Some [simp]: "checked_i64 n = Some m \<longleftrightarrow> m = n \<and> i64_min \<le> n \<and> n \<le> i64_max"
  by (auto simp: checked_i64_def)

lemma checked_usize_Some [simp]: "checked_usize n = Some m \<longleftrightarrow> m = n \<and> int n \<le> usize_max"
  by (auto simp: checked_usize_def)

lemma checked_u64_Some [simp]: "checked_u64 n = Some m \<longleftrightarrow> m = n \<and> 0 \<le> n \<and> n \<le> u64_max"
  by (auto simp: checked_u64_def)

section \<open>Trimming and splitting\<close>

lemma strip_all_chars: "set s \<subseteq> \<Union> (set ` set ws) \<union> set (strip_all ws s)"
proof (induction ws s rule: strip_all.induct)
  case (1 ws s)
  show ?case
  proof (cases "find (\<lambda>w. w \<noteq> [] \<and> take (length w) s = w) ws")
    case None
    then show ?thesis by (subst strip_all.simps) simp
  next
    case (Some w)
    then have w: "w \<in> set ws" "take (length w) s = w" by (auto simp: find_Some_iff)
    then have "set s = set w \<union> set (drop (length w) s)" by (metis append_take_drop_id set_append)
    moreover have "strip_all ws s = strip_all ws (drop (length w) s)" using Some by (subst strip_all.simps) simp
    ultimately show ?thesis using 1 [OF Some] w(1) by auto
  qed
qed

lemma split_on_append: "c \<notin> set a \<Longrightarrow> split_on c (a @ c # b) = a # split_on c b"
  by (induction a) auto

lemma split_on_single: "c \<notin> set a \<Longrightarrow> split_on c a = [a]"
  by (induction a) auto

lemma split_join: "segs \<noteq> [] \<Longrightarrow> list_all (\<lambda>s. c \<notin> set s) segs \<Longrightarrow> split_on c (join_with [c] segs) = segs"
  by (induction segs rule: induct_list012) (simp_all add: split_on_append split_on_single)

text \<open>A text that starts with none of the given white space is left alone by \<open>strip_all\<close>.\<close>

definition bare :: "string list \<Rightarrow> string \<Rightarrow> bool" where
  "bare ws s \<longleftrightarrow> (\<forall>w \<in> set ws. w \<noteq> [] \<longrightarrow> take (length w) s \<noteq> w)"

lemma strip_all_bare: "bare ws s \<Longrightarrow> strip_all ws s = s"
  by (subst strip_all.simps) (auto simp: bare_def find_None_iff split: option.splits dest!: find_Some_iff [THEN iffD1])

lemma strip_all_suffix: "\<exists>p. s = p @ strip_all ws s \<and> (p = [] \<longrightarrow> bare ws s)"
proof (induction ws s rule: strip_all.induct)
  case (1 ws s)
  show ?case
  proof (cases "find (\<lambda>w. w \<noteq> [] \<and> take (length w) s = w) ws")
    case None
    then have "bare ws s" by (auto simp: bare_def find_None_iff)
    then show ?thesis by (intro exI [of _ "[]"]) (simp add: strip_all_bare)
  next
    case (Some w)
    from find_Some_sat [OF Some] have w: "w \<noteq> []" "take (length w) s = w" by auto
    from 1 [OF Some] obtain p where "drop (length w) s = p @ strip_all ws (drop (length w) s)" by blast
    moreover have "strip_all ws s = strip_all ws (drop (length w) s)" using Some by (subst strip_all.simps) simp
    ultimately have "s = (w @ p) @ strip_all ws s" using w(2) by (metis append.assoc append_take_drop_id)
    with w(1) show ?thesis by blast
  qed
qed

lemma trimmed_bare:
  assumes "trim s = s"
  shows "bare white_space s" "bare (map rev white_space) (rev s)"
proof -
  from strip_all_suffix obtain p where p: "s = p @ strip_all white_space s" "p = [] \<longrightarrow> bare white_space s" by blast
  let ?t = "rev (strip_all white_space s)"
  from strip_all_suffix obtain q where q: "?t = q @ strip_all (map rev white_space) ?t"
    "q = [] \<longrightarrow> bare (map rev white_space) ?t" by blast
  have "length s = length (strip_all (map rev white_space) ?t)" using assms by (metis length_rev trim_def)
  moreover have "length s = length p + length ?t" using arg_cong [OF p(1), of length] by simp
  moreover have "length ?t = length q + length (strip_all (map rev white_space) ?t)"
    using arg_cong [OF q(1), of length] by simp
  ultimately have e: "p = []" "q = []" by auto
  with p show "bare white_space s" by simp
  then have "strip_all white_space s = s" by (rule strip_all_bare)
  with e q show "bare (map rev white_space) (rev s)" by simp
qed

lemma trim_bare: "bare white_space s \<Longrightarrow> bare (map rev white_space) (rev s) \<Longrightarrow> trim s = s"
  by (simp add: trim_def strip_all_bare)

lemma bare_append:
  assumes "bare ws a" "\<forall>w \<in> set ws. c \<notin> set w"
  shows "bare ws (a @ c # b)"
  unfolding bare_def
proof (intro ballI impI notI)
  fix w assume w: "w \<in> set ws" "w \<noteq> []" "take (length w) (a @ c # b) = w"
  show False
  proof (cases "length w \<le> length a")
    case True
    with w assms(1) show ?thesis by (auto simp: bare_def)
  next
    case False
    then have "c \<in> set (take (length w) (a @ c # b))" by (cases "length w - length a") auto
    with w assms(2) show ?thesis by simp
  qed
qed

text \<open>A text put together of two trimmed ones around a character that is no white space is trimmed.\<close>

lemma trim_join:
  assumes "trim a = a" "trim b = b" "list_all (\<lambda>w. c \<notin> set w) white_space"
  shows "trim (a @ c # b) = a @ c # b"
proof (rule trim_bare)
  show "bare white_space (a @ c # b)"
    using trimmed_bare(1) [OF assms(1)] assms(3) by (intro bare_append) (auto simp: list_all_iff)
  have "bare (map rev white_space) (rev b @ c # rev a)"
    using trimmed_bare(2) [OF assms(2)] assms(3) by (intro bare_append) (auto simp: list_all_iff)
  then show "bare (map rev white_space) (rev (a @ c # b))" by simp
qed

text \<open>White space has no printable ASCII byte, so a text of such bytes is trimmed.\<close>

definition is_graphic :: "char \<Rightarrow> bool" where
  "is_graphic c \<longleftrightarrow> 33 \<le> byte c \<and> byte c < 127"

lemma white_space_not_graphic: "w \<in> set white_space \<Longrightarrow> c \<in> set w \<Longrightarrow> \<not> is_graphic c"
proof -
  have "list_all (list_all (\<lambda>c. \<not> is_graphic c)) white_space"
    by (simp add: white_space_def is_graphic_def byte_char_of)
  then show "w \<in> set white_space \<Longrightarrow> c \<in> set w \<Longrightarrow> \<not> is_graphic c" by (simp add: list_all_iff)
qed

lemma trim_graphic:
  assumes "list_all is_graphic s"
  shows "trim s = s"
proof -
  have "take (length w) r \<noteq> w" if "w \<noteq> []" "\<forall>c \<in> set w. \<not> is_graphic c" "list_all is_graphic r" for w r
    using that by (cases w; cases r) auto
  then have "bare ws r" if "list_all is_graphic r" "\<forall>w \<in> set ws. \<forall>c \<in> set w. \<not> is_graphic c" for ws r
    using that unfolding bare_def by metis
  with assms white_space_not_graphic show ?thesis by (intro trim_bare) (auto simp: list_all_rev)
qed

lemma trim_Nil [simp]: "trim [] = []"
  by (rule trim_graphic) simp

end
