(* ===== verification/Json.thy ===== *)
theory Json
  imports Prelude
begin

text \<open>
  The JSON values of \<open>serde_json\<close> as the sources use them: the workspace builds
  \<open>serde_json\<close> with \<open>preserve_order\<close> (Cargo.lock: it depends on \<open>indexmap\<close>), so an object
  is an association list in insertion order with distinct keys, and equality of objects
  ignores the order. A float is kept by its \<open>Display\<close> text, the only thing the sources read
  of it.
\<close>

datatype json_num = PosInt nat | NegInt int | Float string

datatype json =
    JNull
  | JBool bool
  | JNumber json_num
  | JString string
  | JArray "json list"
  | JObject "(string \<times> json) list"

type_synonym json_object = "(string \<times> json) list"

fun num_as_i64 :: "json_num \<Rightarrow> int option" where
  "num_as_i64 (PosInt n) = checked_i64 (int n)"
| "num_as_i64 (NegInt i) = Some i"
| "num_as_i64 (Float _) = None"

fun num_as_u64 :: "json_num \<Rightarrow> nat option" where
  "num_as_u64 (PosInt n) = Some n"
| "num_as_u64 (NegInt i) = None"
| "num_as_u64 (Float _) = None"

fun num_to_string :: "json_num \<Rightarrow> string" where
  "num_to_string (PosInt n) = show_int (int n)"
| "num_to_string (NegInt i) = show_int i"
| "num_to_string (Float t) = t"

fun as_object :: "json \<Rightarrow> json_object option" where
  "as_object (JObject kvs) = Some kvs"
| "as_object _ = None"

fun as_array :: "json \<Rightarrow> json list option" where
  "as_array (JArray xs) = Some xs"
| "as_array _ = None"

fun as_str :: "json \<Rightarrow> string option" where
  "as_str (JString s) = Some s"
| "as_str _ = None"

definition is_null :: "json \<Rightarrow> bool" where
  "is_null v \<longleftrightarrow> v = JNull"

text \<open>\<open>Value::get(key)\<close>: only objects have members.\<close>

definition json_get :: "json \<Rightarrow> string \<Rightarrow> json option" where
  "json_get v k = (case as_object v of None \<Rightarrow> None | Some kvs \<Rightarrow> map_of kvs k)"

definition num_eq :: "json_num \<Rightarrow> json_num \<Rightarrow> bool" where
  "num_eq a b \<longleftrightarrow> a = b \<or>
     (case (a, b) of (Float s, Float t) \<Rightarrow> {s, t} \<subseteq> {''0.0'', ''-0.0''} | _ \<Rightarrow> False)"

text \<open>\<open>PartialEq\<close> of values: objects compare as maps.\<close>

function json_eq :: "json \<Rightarrow> json \<Rightarrow> bool" where
  "json_eq JNull w = (w = JNull)"
| "json_eq (JBool b) w = (w = JBool b)"
| "json_eq (JNumber n) w = (case w of JNumber m \<Rightarrow> num_eq n m | _ \<Rightarrow> False)"
| "json_eq (JString s) w = (w = JString s)"
| "json_eq (JArray xs) w =
     (case w of JArray ys \<Rightarrow>
        length xs = length ys \<and> list_all (\<lambda>(x, y). json_eq x y) (zip xs ys)
      | _ \<Rightarrow> False)"
| "json_eq (JObject kvs) w =
     (case w of JObject kws \<Rightarrow>
        length kvs = length kws \<and>
        list_all (\<lambda>(k, v). case map_of kws k of None \<Rightarrow> False | Some u \<Rightarrow> json_eq v u) kvs
      | _ \<Rightarrow> False)"
  by pat_completeness auto
termination
proof (relation "measure (\<lambda>(v, w). size v)", goal_cases)
  case 1
  then show ?case by simp
next
  case (2 xs w ys z x y)
  then have "x \<in> set xs" by (auto dest: set_zip_leftD)
  then show ?case by (auto dest: size_list_estimation' [of _ _ "size x" size])
next
  case (3 kvs w kws z k v u)
  then have "size v < size_list (size_prod (\<lambda>_. 0) size) kvs + 1"
    by (auto dest!: size_list_estimation' [of _ kvs "size v" "size_prod (\<lambda>_. 0) size"])
  then show ?case by simp
qed

definition object_eq :: "json_object \<Rightarrow> json_object \<Rightarrow> bool" where
  "object_eq a b \<longleftrightarrow> json_eq (JObject a) (JObject b)"

text \<open>Objects carry distinct keys at every level.\<close>

fun json_wf :: "json \<Rightarrow> bool" where
  "json_wf (JArray xs) = list_all json_wf xs"
| "json_wf (JObject kvs) = (distinct (map fst kvs) \<and> list_all (\<lambda>(k, v). json_wf v) kvs)"
| "json_wf _ = True"

lemma json_get_object [simp]: "json_get (JObject kvs) k = map_of kvs k"
  by (simp add: json_get_def)

lemma as_object_Some [simp]: "as_object v = Some kvs \<longleftrightarrow> v = JObject kvs"
  by (cases v) auto

lemma as_str_Some [simp]: "as_str v = Some s \<longleftrightarrow> v = JString s"
  by (cases v) auto

lemma as_array_Some [simp]: "as_array v = Some xs \<longleftrightarrow> v = JArray xs"
  by (cases v) auto

text \<open>A well-formed value equals itself.\<close>

lemma json_eq_refl: "json_wf v \<Longrightarrow> json_eq v v"
proof (induction v)
  case (JArray xs)
  then have "\<forall>x \<in> set xs. json_eq x x" by (auto simp: list_all_iff)
  then show ?case by (auto simp: list_all_iff set_zip)
next
  case (JObject kvs)
  have "\<forall>(k, v) \<in> set kvs. map_of kvs k = Some v \<and> json_eq v v"
    using JObject by (fastforce simp: list_all_iff)
  then show ?case by (auto simp: list_all_iff)
qed (auto simp: num_eq_def)

end
