(* ===== verification/HeaderInteger.thy ===== *)
theory HeaderInteger
  imports Prelude
begin

text \<open>
  Integer values of \<open>Mcp-Param-*\<close> headers: \<open>parse_integer_header_value\<close> of
  \<open>mcp_standard_headers.rs\<close>, which accepts a decimal text with optional fraction and exponent
  when it denotes an integer in the IEEE 754 safe range. The lemmas show that it computes
  exactly that integer.
\<close>

section \<open>Definitions\<close>

definition MAX_SAFE_INTEGER :: int where "MAX_SAFE_INTEGER = 9007199254740991"
definition MIN_SAFE_INTEGER :: int where "MIN_SAFE_INTEGER = - MAX_SAFE_INTEGER"

text \<open>The end of \<open>parse_integer_header_value\<close>, once the integer digits are known.\<close>

definition parse_magnitude :: "bool \<Rightarrow> string \<Rightarrow> nat \<Rightarrow> int option" where
  "parse_magnitude negative integer_digits trailing_zeroes =
     (let integer_digits = dropWhile (\<lambda>c. c = CHR ''0'') integer_digits
      in if integer_digits = [] then Some 0
         else do {
           n \<leftarrow> checked_usize (length integer_digits + trailing_zeroes);
           if n > length (show_int MAX_SAFE_INTEGER) then None
           else do {
             m \<leftarrow> checked_u64 (digits_val integer_digits);
             p \<leftarrow> checked_u64 (10 ^ trailing_zeroes);
             magnitude \<leftarrow> checked_u64 (m * p);
             if magnitude > MAX_SAFE_INTEGER then None
             else do {
               magnitude \<leftarrow> checked_i64 magnitude;
               if negative then checked_i64 (- magnitude) else Some magnitude
             }
           }
         })"

text \<open>Its middle part, from the checks on the digits to the split of the integer digits.\<close>

definition parse_scaled :: "bool \<Rightarrow> string \<Rightarrow> string \<Rightarrow> int \<Rightarrow> int option" where
  "parse_scaled negative whole fraction exponent =
     (if whole = [] \<or> \<not> list_all is_digit whole \<or> \<not> list_all is_digit fraction then None
      else do {
        _ \<leftarrow> checked_usize (length whole + length fraction);
        fraction_len \<leftarrow> checked_i64 (int (length fraction));
        scale \<leftarrow> checked_i64 (fraction_len - exponent);
        (let digits = whole @ fraction
         in if scale > 0 then
              (if nat scale > length digits then
                 (if list_all (\<lambda>c. c = CHR ''0'') digits then Some 0 else None)
               else
                 (let integer_end = length digits - nat scale
                  in if \<not> list_all (\<lambda>c. c = CHR ''0'') (drop integer_end digits) then None
                     else parse_magnitude negative (take integer_end digits) 0))
            else do {
              trailing_zeroes \<leftarrow> checked_i64 (- scale);
              parse_magnitude negative digits (nat trailing_zeroes)
            })
      })"

definition parse_integer_header_value :: "string \<Rightarrow> int option" where
  "parse_integer_header_value value =
     (let (negative, value) =
        (case value of
           [] \<Rightarrow> (False, value)
         | c # cs \<Rightarrow> if c = CHR ''-'' then (True, cs)
                    else if c = CHR ''+'' then (False, cs) else (False, value))
      in do {
        (mantissa, exponent) \<leftarrow>
          (case split_once (\<lambda>c. c = CHR ''e'' \<or> c = CHR ''E'') value of
             Some (mantissa, exponent) \<Rightarrow> map_option (Pair mantissa) (parse_i64 exponent)
           | None \<Rightarrow> Some (value, 0));
        (whole, fraction) \<leftarrow>
          (case split_once (\<lambda>c. c = CHR ''.'') mantissa of
             Some (whole, fraction) \<Rightarrow> if fraction \<noteq> [] then Some (whole, fraction) else None
           | None \<Rightarrow> Some (mantissa, []));
        parse_scaled negative whole fraction exponent
      })"

section \<open>Integer header values\<close>

text \<open>
  What a decimal text means, stated without the parser: an optional sign, digits, an optional
  fraction and an optional exponent; \<open>decimal_is\<close> says that the number written is the integer
  \<open>n\<close>.
\<close>

definition decimal_text :: "string \<Rightarrow> bool \<Rightarrow> string \<Rightarrow> string \<Rightarrow> int \<Rightarrow> bool" where
  "decimal_text s neg whole fraction e \<longleftrightarrow>
     whole \<noteq> [] \<and> list_all is_digit whole \<and> list_all is_digit fraction \<and>
     (\<exists>sign expo.
        s = sign @ whole @ (if fraction = [] then [] else ''.'' @ fraction) @ expo \<and>
        (sign = ''-'' \<and> neg \<or> sign \<in> {[], ''+''} \<and> \<not> neg) \<and>
        (expo = [] \<and> e = 0 \<or>
         (\<exists>c t. expo = c # t \<and> c \<in> {CHR ''e'', CHR ''E''} \<and> parse_i64 t = Some e)))"

definition decimal_is :: "bool \<Rightarrow> string \<Rightarrow> string \<Rightarrow> int \<Rightarrow> int \<Rightarrow> bool" where
  "decimal_is neg whole fraction e n \<longleftrightarrow>
     (let d = (if neg then -1 else 1) * digits_val (whole @ fraction);
          k = int (length fraction) - e
      in if k \<le> 0 then n = d * 10 ^ nat (- k) else n * 10 ^ nat k = d)"

lemma digits_val_Cons: "digits_val (c # s) = digit_val c * 10 ^ length s + digits_val s"
  using digits_val_append[of "[c]" s] digits_val_snoc[of "[]" c] by simp

lemma digit_val_zero [simp]: "digit_val CHR ''0'' = 0"
  by (simp add: digit_val_def byte_def)

lemma digit_val_pos: "is_digit c \<Longrightarrow> c \<noteq> CHR ''0'' \<Longrightarrow> 0 < digit_val c"
proof -
  assume "is_digit c" "c \<noteq> CHR ''0''"
  then have "byte c \<noteq> byte CHR ''0''" unfolding byte_inject by simp
  with \<open>is_digit c\<close> show ?thesis by (simp add: digit_val_def is_digit_def byte_def)
qed

lemma digits_val_trim: "digits_val (dropWhile (\<lambda>c. c = CHR ''0'') s) = digits_val s"
  by (induction s) (auto simp: digits_val_Cons)

lemma digits_val_zero_iff:
  "list_all is_digit s \<Longrightarrow> digits_val s = 0 \<longleftrightarrow> list_all (\<lambda>c. c = CHR ''0'') s"
proof (induction s)
  case (Cons c s)
  then have b: "0 \<le> digits_val s" "0 \<le> digit_val c"
    using digits_val_bounds[of s] digit_val_bounds[of c] by auto
  show ?case
  proof (cases "c = CHR ''0''")
    case False
    with Cons digit_val_pos[of c] have "0 < digit_val c * 10 ^ length s" by simp
    with b False show ?thesis by (auto simp: digits_val_Cons)
  qed (use Cons in \<open>simp add: digits_val_Cons\<close>)
qed simp

lemma digits_val_leading:
  assumes "list_all is_digit (c # s)" "c \<noteq> CHR ''0''"
  shows "10 ^ length s \<le> digits_val (c # s)"
proof -
  have "1 \<le> digit_val c" "0 \<le> digits_val s"
    using assms digit_val_pos[of c] digits_val_bounds[of s] by auto
  then have "1 * 10 ^ length s \<le> digit_val c * 10 ^ length s" by (intro mult_right_mono) auto
  then have "10 ^ length s \<le> digit_val c * 10 ^ length s" by (simp only: mult_1)
  with \<open>0 \<le> digits_val s\<close> show ?thesis unfolding digits_val_Cons by linarith
qed

lemma decimal_range:
  assumes "0 \<le> d" "d < p" "n * p = d \<or> n * p = - d"
  shows "d = 0 \<and> n = (0::int)"
proof -
  have "\<bar>n * p\<bar> = d" using assms by auto
  then have "\<bar>n\<bar> * p = d" using assms(1,2) by (simp add: abs_mult)
  moreover have "1 \<le> \<bar>n\<bar> \<Longrightarrow> p \<le> \<bar>n\<bar> * p" using assms(1,2) by (simp add: mult_le_cancel_right1)
  ultimately have "\<not> 1 \<le> \<bar>n\<bar>" using assms(2) by auto
  then have "n = 0" by simp
  with assms(3) show ?thesis by auto
qed

lemma length_max_safe: "length (show_int MAX_SAFE_INTEGER) = 16"
  by (simp add: show_int_def MAX_SAFE_INTEGER_def show_digits.simps)

text \<open>The significant digits are what is left without the leading zeroes.\<close>

abbreviation significant :: "string \<Rightarrow> string" where
  "significant \<equiv> dropWhile (\<lambda>c. c = CHR ''0'')"

lemma significant_bounds:
  assumes "list_all is_digit ds" "significant ds = c # s"
  shows "10 ^ length s \<le> digits_val ds" "digits_val ds < 10 ^ Suc (length s)"
proof -
  have dig: "list_all is_digit (c # s)"
    unfolding assms(2) [symmetric] using assms(1) by (auto simp: list_all_iff dest: set_dropWhileD)
  have "c \<noteq> CHR ''0''" using assms(2) hd_dropWhile [of "\<lambda>c. c = CHR ''0''" ds] by auto
  moreover have "digits_val (c # s) = digits_val ds" by (simp flip: assms(2) add: digits_val_trim)
  ultimately show "10 ^ length s \<le> digits_val ds" "digits_val ds < 10 ^ Suc (length s)"
    using digits_val_leading [of c s] digits_val_bounds [OF dig] dig by simp_all
qed

lemma parse_magnitude_long:
  assumes "list_all is_digit ds" "significant ds = c # s" "16 \<le> length s + tz" "int (Suc (length s) + tz) \<le> usize_max"
  shows "parse_magnitude neg ds tz = None" "MAX_SAFE_INTEGER < digits_val ds * 10 ^ tz"
proof -
  have "(10::int) ^ 16 \<le> 10 ^ (length s + tz)" by (rule power_increasing) (use assms(3) in simp_all)
  also have "\<dots> \<le> digits_val ds * 10 ^ tz"
    using significant_bounds(1) [OF assms(1,2)] by (simp add: power_add mult_right_mono)
  finally show "MAX_SAFE_INTEGER < digits_val ds * 10 ^ tz" by (simp add: MAX_SAFE_INTEGER_def)
  show "parse_magnitude neg ds tz = None"
    using assms(2-4) by (auto simp: parse_magnitude_def Let_def length_max_safe checked_usize_def)
qed

lemma parse_magnitude_short:
  assumes "list_all is_digit ds" "significant ds = c # s" "length s + tz < 16"
  shows "parse_magnitude neg ds tz =
    (let m = digits_val ds * 10 ^ tz in if m > MAX_SAFE_INTEGER then None else Some (if neg then - m else m))"
proof -
  note bounds = significant_bounds [OF assms(1,2)]
  have "digits_val ds * 10 ^ tz < 10 ^ Suc (length s) * 10 ^ tz" using bounds(2) by simp
  also have "\<dots> \<le> 10 ^ 16" unfolding power_add [symmetric] by (rule power_increasing) (use assms(3) in simp_all)
  finally have prod: "digits_val ds * 10 ^ tz < 10 ^ 16" .
  have "(10::int) ^ Suc (length s) \<le> 10 ^ 16" "(10::int) ^ tz \<le> 10 ^ 16"
    by (rule power_increasing; use assms(3) in simp)+
  moreover have v0: "0 \<le> digits_val ds" using bounds(1) by (meson order_trans zero_le_power zero_le_numeral)
  moreover have val: "digits_val (c # s) = digits_val ds" by (simp flip: assms(2) add: digits_val_trim)
  moreover define m where "m = digits_val ds * 10 ^ tz"
  moreover from v0 have "0 \<le> m" by (simp add: m_def)
  ultimately show ?thesis
    using assms(2,3) prod bounds(2)
    by (simp add: parse_magnitude_def Let_def length_max_safe m_def [symmetric] val checked_usize_def usize_max_def
        checked_u64_def checked_i64_def u64_max_def i64_max_def i64_min_def MAX_SAFE_INTEGER_def
        length_max_safe [unfolded MAX_SAFE_INTEGER_def])
qed

lemma parse_magnitude_iff:
  assumes "list_all is_digit ds" "int (length ds) + int tz \<le> usize_max"
  shows "parse_magnitude neg ds tz = Some n \<longleftrightarrow>
    n = (if neg then -1 else 1) * (digits_val ds * 10 ^ tz) \<and> \<bar>n\<bar> \<le> MAX_SAFE_INTEGER"
proof (cases "significant ds")
  case Nil
  have "digits_val (significant ds) = 0" unfolding Nil by simp
  then have "digits_val ds = 0" unfolding digits_val_trim .
  then show ?thesis by (auto simp: parse_magnitude_def Let_def Nil MAX_SAFE_INTEGER_def)
next
  case (Cons c s)
  have small: "int (Suc (length s) + tz) \<le> usize_max"
    using assms(2) length_dropWhile_le [of "\<lambda>c. c = CHR ''0''" ds] Cons by simp
  show ?thesis
  proof (cases "length s + tz < 16")
    case True
    have "0 \<le> digits_val ds * 10 ^ tz" using digits_val_bounds [OF assms(1)] by simp
    then show ?thesis using parse_magnitude_short [OF assms(1) Cons True] by (auto simp: Let_def)
  next
    case False
    then show ?thesis using parse_magnitude_long [OF assms(1) Cons _ small] by auto
  qed
qed

text \<open>The middle part computes the integer that the parts denote, if there is one.\<close>

lemma parse_scaled_fraction:
  assumes ds: "list_all is_digit ds" and k: "0 < k" "k \<le> length ds"
  shows "(\<exists>m. digits_val ds = m * 10 ^ k) \<longleftrightarrow>
      list_all (\<lambda>c. c = CHR ''0'') (drop (length ds - k) ds)"
    and "list_all (\<lambda>c. c = CHR ''0'') (drop (length ds - k) ds) \<Longrightarrow>
      digits_val ds = digits_val (take (length ds - k) ds) * 10 ^ k"
proof -
  let ?a = "take (length ds - k) ds" and ?b = "drop (length ds - k) ds"
  have split: "digits_val ds = digits_val ?a * 10 ^ k + digits_val ?b"
    using digits_val_append[of ?a ?b] k by simp
  have b: "0 \<le> digits_val ?b" "digits_val ?b < 10 ^ k"
    using digits_val_bounds[of ?b] ds k by (auto simp: list_all_iff dest: in_set_dropD)
  have z: "digits_val ?b = 0 \<longleftrightarrow> list_all (\<lambda>c. c = CHR ''0'') ?b"
    by (rule digits_val_zero_iff) (use ds in \<open>auto simp: list_all_iff dest: in_set_dropD\<close>)
  have "(\<exists>m. digits_val ds = m * 10 ^ k) \<longleftrightarrow> digits_val ?b = 0"
  proof
    assume "\<exists>m. digits_val ds = m * 10 ^ k"
    then obtain m where "digits_val ds = m * 10 ^ k" ..
    with split have "digits_val ?b = (m - digits_val ?a) * 10 ^ k" by (simp add: algebra_simps)
    then have "digits_val ?b mod 10 ^ k = 0" by simp
    with b show "digits_val ?b = 0" by simp
  qed (use split in auto)
  with z show "(\<exists>m. digits_val ds = m * 10 ^ k) \<longleftrightarrow> list_all (\<lambda>c. c = CHR ''0'') ?b" by simp
  show "list_all (\<lambda>c. c = CHR ''0'') ?b \<Longrightarrow> digits_val ds = digits_val ?a * 10 ^ k"
    using z split by simp
qed

lemma decimal_is_fraction:
  assumes ds: "list_all is_digit (whole @ fraction)" and k: "0 < int (length fraction) - e"
    and d: "digits_val (whole @ fraction) = m * 10 ^ nat (int (length fraction) - e)"
  shows "decimal_is neg whole fraction e n \<longleftrightarrow> n = (if neg then -1 else 1) * m"
  using k d by (auto simp: decimal_is_def Let_def algebra_simps)

text \<open>
  Well-formed digits with \<open>k\<close> more fractional digits than the exponent shifts: zeroes have to be dropped or added.
\<close>

lemma parse_scaled_shift:
  assumes "int (length whole + length fraction) \<le> i64_max" "i64_min \<le> e" "e \<le> i64_max"
    and "whole \<noteq> []" "list_all is_digit whole" "list_all is_digit fraction" "int (length fraction) - e \<le> i64_max"
    and "k = int (length fraction) - e" "ds = whole @ fraction"
  shows "parse_scaled neg whole fraction e =
    (if k > 0 then
       (if nat k > length ds then (if list_all (\<lambda>c. c = CHR ''0'') ds then Some 0 else None)
        else if \<not> list_all (\<lambda>c. c = CHR ''0'') (drop (length ds - nat k) ds) then None
        else parse_magnitude neg (take (length ds - nat k) ds) 0)
     else parse_magnitude neg ds (nat (- k)))"
  using assms
  by (auto simp: parse_scaled_def checked_i64_def checked_usize_def usize_max_def i64_max_def i64_min_def Let_def)

lemma decimal_is_vanishing:
  assumes "list_all is_digit ds" "k = int (length fraction) - e" "ds = whole @ fraction" "0 < k" "nat k > length ds"
  shows "decimal_is neg whole fraction e n \<longleftrightarrow> list_all (\<lambda>c. c = CHR ''0'') ds \<and> n = 0"
proof -
  have ds0: "0 \<le> digits_val ds" "digits_val ds < 10 ^ length ds" using digits_val_bounds [OF assms(1)] by auto
  have "(10::int) ^ length ds < 10 ^ nat k" using assms(5) by (intro power_strict_increasing) auto
  with ds0(2) have "digits_val ds < 10 ^ nat k" by linarith
  then have "decimal_is neg whole fraction e n \<longleftrightarrow> digits_val ds = 0 \<and> n = 0"
    using assms(4) ds0(1) decimal_range [of "digits_val ds" "10 ^ nat k" n]
    by (auto simp: decimal_is_def Let_def assms(2) [symmetric] assms(3) [symmetric])
  then show ?thesis using digits_val_zero_iff [OF assms(1)] by simp
qed

lemma decimal_is_remainder:
  assumes "list_all is_digit ds" "k = int (length fraction) - e" "ds = whole @ fraction" "0 < nat k" "nat k \<le> length ds"
    and "\<not> list_all (\<lambda>c. c = CHR ''0'') (drop (length ds - nat k) ds)"
  shows "\<not> decimal_is neg whole fraction e n"
proof
  assume "decimal_is neg whole fraction e n"
  then have "digits_val ds = (if neg then - n else n) * 10 ^ nat k"
    using assms(4) by (auto simp: decimal_is_def Let_def assms(2) [symmetric] assms(3) [symmetric])
  then show False using parse_scaled_fraction(1) [OF assms(1,4,5)] assms(6) by blast
qed

lemma parse_scaled_iff:
  assumes len: "int (length whole + length fraction) \<le> i64_max"
    and e: "i64_min \<le> e" "e \<le> i64_max"
  shows "parse_scaled neg whole fraction e = Some n \<longleftrightarrow>
    whole \<noteq> [] \<and> list_all is_digit whole \<and> list_all is_digit fraction \<and>
    int (length fraction) - e \<le> i64_max \<and>
    decimal_is neg whole fraction e n \<and> \<bar>n\<bar> \<le> MAX_SAFE_INTEGER"
proof (cases "whole \<noteq> [] \<and> list_all is_digit whole \<and> list_all is_digit fraction
    \<and> int (length fraction) - e \<le> i64_max")
  case False
  then show ?thesis using e by (auto simp: parse_scaled_def split: bind_splits)
next
  case True
  define k where "k = int (length fraction) - e"
  define ds where "ds = whole @ fraction"
  let ?t = "take (length ds - nat k) ds"
  have ds: "list_all is_digit ds" using True by (simp add: ds_def)
  have t: "list_all is_digit ?t" using ds by (auto simp: list_all_iff dest: in_set_takeD)
  have lim: "int (length ds) \<le> i64_max" using len by (simp add: ds_def)
  have room: "int (length ?t) + int 0 \<le> usize_max" "k \<le> 0 \<Longrightarrow> int (length ds) + int (nat (- k)) \<le> usize_max"
    using lim e by (simp_all add: usize_max_def i64_max_def k_def)
  note run = parse_scaled_shift [OF len e _ _ _ _ k_def ds_def, of neg]
  consider "k \<le> 0" | "0 < k" "nat k > length ds" | "0 < nat k" "nat k \<le> length ds" by linarith
  then show ?thesis
  proof cases
    case 1
    with parse_magnitude_iff [OF ds room(2)] True show ?thesis
      by (auto simp: run decimal_is_def Let_def k_def [symmetric] ds_def [symmetric])
  next
    case 2
    with decimal_is_vanishing [OF ds k_def ds_def] True show ?thesis
      by (auto simp: run MAX_SAFE_INTEGER_def)
  next
    case 3
    with decimal_is_remainder [OF ds k_def ds_def] parse_magnitude_iff [OF t room(1)]
      decimal_is_fraction [of whole fraction e "digits_val ?t"] parse_scaled_fraction(2) [OF ds 3] True ds
    show ?thesis by (auto simp: run k_def [symmetric] ds_def [symmetric])
  qed
qed

text \<open>The split at the exponent and at the point, against the shape of a decimal text.\<close>

definition is_e :: "char \<Rightarrow> bool" where
  "is_e = (\<lambda>c. c = CHR ''e'' \<or> c = CHR ''E'')"

definition is_point :: "char \<Rightarrow> bool" where
  "is_point = (\<lambda>c. c = CHR ''.'')"

definition fraction_text :: "string \<Rightarrow> string" where
  "fraction_text f = (if f = [] then [] else ''.'' @ f)"

definition exponent_text :: "string \<Rightarrow> int \<Rightarrow> bool" where
  "exponent_text x e \<longleftrightarrow>
     x = [] \<and> e = 0 \<or> (\<exists>c t. x = c # t \<and> is_e c \<and> parse_i64 t = Some e)"

definition split_exponent :: "string \<Rightarrow> (string \<times> int) option" where
  "split_exponent v = (case split_once is_e v of
      Some (m, x) \<Rightarrow> map_option (Pair m) (parse_i64 x) | None \<Rightarrow> Some (v, 0))"

definition split_point :: "string \<Rightarrow> (string \<times> string) option" where
  "split_point m = (case split_once is_point m of
      Some (w, f) \<Rightarrow> if f \<noteq> [] then Some (w, f) else None | None \<Rightarrow> Some (m, []))"

lemma digits_plain: "list_all is_digit w \<Longrightarrow> c \<in> set w \<Longrightarrow>
    \<not> is_e c \<and> \<not> is_point c \<and> c \<noteq> CHR ''-'' \<and> c \<noteq> CHR ''+''"
  by (auto simp: list_all_iff is_digit_def byte_def is_e_def is_point_def)

lemma is_point_char [simp]: "is_point CHR ''.''" and is_e_point [simp]: "\<not> is_e CHR ''.''"
  by (simp_all add: is_point_def is_e_def)

lemma split_exponent_Some:
  "split_exponent v = Some (m, e) \<longleftrightarrow>
     (\<forall>c \<in> set m. \<not> is_e c) \<and> (\<exists>x. v = m @ x \<and> exponent_text x e)" (is "?l \<longleftrightarrow> ?r")
proof
  show "?l \<Longrightarrow> ?r"
  proof (cases "split_once is_e v")
    case None
    moreover from None have "\<forall>c \<in> set v. \<not> is_e c" by (simp add: split_once_None)
    moreover assume ?l
    ultimately show ?r by (simp add: split_exponent_def exponent_text_def)
  next
    case (Some p)
    moreover assume ?l
    ultimately obtain t where "split_once is_e v = Some (m, t)" "parse_i64 t = Some e"
      by (cases p) (auto simp: split_exponent_def)
    then show ?r unfolding split_once_Some exponent_text_def by blast
  qed
next
  assume ?r
  then obtain x where x: "\<forall>c \<in> set m. \<not> is_e c" "v = m @ x" "exponent_text x e" by blast
  from x(3) show ?l unfolding exponent_text_def
  proof (elim disjE exE conjE)
    assume "x = []" "e = 0"
    moreover from this x have "split_once is_e v = None" by (simp add: split_once_None)
    ultimately show ?l using x by (simp add: split_exponent_def)
  next
    fix c t assume "x = c # t" "is_e c" "parse_i64 t = Some e"
    with x split_once_append[of is_e c m t] show ?l by (simp add: split_exponent_def)
  qed
qed

lemma split_point_plain:
  "\<forall>c \<in> set w. \<not> is_point c \<Longrightarrow> split_point (w @ fraction_text f) = Some (w, f)"
  using split_once_append[of is_point "CHR ''.''" w f]
  by (auto simp: split_point_def fraction_text_def split_once_None [THEN iffD2])

lemma split_point_digits:
  "split_point m = Some (w, f) \<Longrightarrow> m = w @ fraction_text f"
proof (cases "split_once is_point m")
  case (Some p)
  moreover assume "split_point m = Some (w, f)"
  ultimately have "split_once is_point m = Some (w, f)" "f \<noteq> []"
    by (cases p; auto simp: split_point_def split: if_splits)+
  then show ?thesis by (auto simp: split_once_Some fraction_text_def is_point_def)
qed (auto simp: split_point_def fraction_text_def)

definition parse_unsigned :: "bool \<Rightarrow> string \<Rightarrow> int option" where
  "parse_unsigned neg v = do {
     (m, e) \<leftarrow> split_exponent v;
     (w, f) \<leftarrow> split_point m;
     parse_scaled neg w f e
   }"

lemma parse_scaled_digits:
  "parse_scaled neg w f e = Some n \<Longrightarrow> w \<noteq> [] \<and> list_all is_digit w \<and> list_all is_digit f"
  by (auto simp: parse_scaled_def split: if_splits)

lemma parse_unsigned_Some:
  "parse_unsigned neg v = Some n \<longleftrightarrow>
     (\<exists>w f e x. v = w @ fraction_text f @ x \<and> exponent_text x e \<and> parse_scaled neg w f e = Some n)"
proof
  assume "parse_unsigned neg v = Some n"
  then obtain m e w f where sp: "split_exponent v = Some (m, e)" "split_point m = Some (w, f)"
      and ps: "parse_scaled neg w f e = Some n"
    by (auto simp: parse_unsigned_def split: bind_splits)
  from sp(2) have "m = w @ fraction_text f" by (rule split_point_digits)
  with sp(1) ps show "\<exists>w f e x. v = w @ fraction_text f @ x \<and> exponent_text x e \<and>
      parse_scaled neg w f e = Some n"
    by (fastforce simp: split_exponent_Some)
next
  assume "\<exists>w f e x. v = w @ fraction_text f @ x \<and> exponent_text x e \<and>
      parse_scaled neg w f e = Some n"
  then obtain w f e x where v: "v = w @ fraction_text f @ x" "exponent_text x e"
      and ps: "parse_scaled neg w f e = Some n" by blast
  note d = parse_scaled_digits[OF ps]
  have "\<forall>c \<in> set (w @ fraction_text f). \<not> is_e c"
    using d by (auto simp: fraction_text_def dest: digits_plain)
  with v have "split_exponent v = Some (w @ fraction_text f, e)"
    by (auto simp: split_exponent_Some)
  moreover have "split_point (w @ fraction_text f) = Some (w, f)"
    by (rule split_point_plain) (use d in \<open>auto dest: digits_plain\<close>)
  ultimately show "parse_unsigned neg v = Some n" by (simp add: parse_unsigned_def ps)
qed

lemma parse_integer_unsigned:
  "parse_integer_header_value s =
     (case s of [] \<Rightarrow> parse_unsigned False []
      | c # cs \<Rightarrow> if c = CHR ''-'' then parse_unsigned True cs
                 else if c = CHR ''+'' then parse_unsigned False cs
                 else parse_unsigned False s)"
  by (cases s)
    (simp_all add: parse_integer_header_value_def parse_unsigned_def split_exponent_def
      split_point_def is_e_def is_point_def)

definition sign_text :: "string \<Rightarrow> bool \<Rightarrow> bool" where
  "sign_text sign neg \<longleftrightarrow> sign = ''-'' \<and> neg \<or> sign \<in> {[], ''+''} \<and> \<not> neg"

lemma parse_unsigned_no_sign:
  "parse_unsigned neg (c # cs) = Some n \<Longrightarrow> c \<noteq> CHR ''-'' \<and> c \<noteq> CHR ''+''"
proof -
  assume "parse_unsigned neg (c # cs) = Some n"
  then obtain w f e x where "c # cs = w @ fraction_text f @ x" "parse_scaled neg w f e = Some n"
    unfolding parse_unsigned_Some by blast
  with parse_scaled_digits[of neg w f e n] obtain w' where "w = c # w'" "list_all is_digit w"
    by (cases w) auto
  then show ?thesis using digits_plain[of w c] by simp
qed

lemma sign_text_cases:
  "(\<exists>sign v neg. s = sign @ v \<and> sign_text sign neg \<and> Q neg v) \<longleftrightarrow>
     (\<exists>v. s = ''-'' @ v \<and> Q True v) \<or> Q False s \<or> (\<exists>v. s = ''+'' @ v \<and> Q False v)"
  (is "?l \<longleftrightarrow> ?r")
proof
  assume ?r
  then consider v where "s = ''-'' @ v" "Q True v" | "Q False s"
    | v where "s = ''+'' @ v" "Q False v" by blast
  then show ?l
  proof cases
    case 1
    then show ?thesis by (intro exI[of _ "''-''"] exI[of _ v] exI[of _ True]) (simp add: sign_text_def)
  next
    case 2
    then show ?thesis by (intro exI[of _ "[]"] exI[of _ s] exI[of _ False]) (simp add: sign_text_def)
  next
    case 3
    then show ?thesis by (intro exI[of _ "''+''"] exI[of _ v] exI[of _ False]) (simp add: sign_text_def)
  qed
qed (auto simp: sign_text_def)

lemma parse_integer_signed:
  "parse_integer_header_value s = Some n \<longleftrightarrow>
     (\<exists>sign v neg. s = sign @ v \<and> sign_text sign neg \<and> parse_unsigned neg v = Some n)"
  unfolding sign_text_cases
  by (cases s) (auto simp: parse_integer_unsigned dest: parse_unsigned_no_sign)

lemma decimal_text_alt:
  "decimal_text s neg w f e \<longleftrightarrow> w \<noteq> [] \<and> list_all is_digit w \<and> list_all is_digit f \<and>
     (\<exists>sign x. s = sign @ w @ fraction_text f @ x \<and> sign_text sign neg \<and> exponent_text x e)"
  by (simp add: decimal_text_def fraction_text_def exponent_text_def sign_text_def is_e_def)

lemma parse_integer_split:
  "parse_integer_header_value s = Some n \<longleftrightarrow>
     (\<exists>neg w f e. decimal_text s neg w f e \<and> parse_scaled neg w f e = Some n)"
  unfolding parse_integer_signed parse_unsigned_Some decimal_text_alt
  using parse_scaled_digits by blast

lemma parse_i64_range: "parse_i64 t = Some e \<Longrightarrow> i64_min \<le> e \<and> e \<le> i64_max"
  unfolding parse_i64_def Let_def by (simp split: prod.splits if_splits)

lemma decimal_text_parts:
  assumes "decimal_text s neg w f e"
  shows "w \<noteq> [] \<and> list_all is_digit w \<and> list_all is_digit f"
    and "length w + length f \<le> length s" and "i64_min \<le> e \<and> e \<le> i64_max"
proof -
  from assms obtain sign x where s: "s = sign @ w @ fraction_text f @ x" and x: "exponent_text x e"
    unfolding decimal_text_alt by blast
  show "w \<noteq> [] \<and> list_all is_digit w \<and> list_all is_digit f"
    using assms by (simp add: decimal_text_alt)
  show "length w + length f \<le> length s" by (simp add: s fraction_text_def)
  from x show "i64_min \<le> e \<and> e \<le> i64_max"
    unfolding exponent_text_def by (auto dest: parse_i64_range simp: i64_min_def i64_max_def)
qed

text \<open>
  Property C26 (what an integer header denotes): \<open>parse_integer_header_value\<close> returns \<open>n\<close> exactly when the text is a decimal numeral
  (optional sign, digits, optional fraction, optional exponent) that denotes the integer \<open>n\<close>
  and \<open>n\<close> is in the IEEE 754 safe range; the one numeral it refuses beside is one whose
  exponent is so negative that the scale leaves \<open>i64\<close>. No text in a Rust string is longer than
  \<open>i64::MAX\<close> bytes, which is the hypothesis.
\<close>

theorem parse_integer_header_value_iff:
  assumes "int (length s) \<le> i64_max"
  shows "parse_integer_header_value s = Some n \<longleftrightarrow>
    (\<exists>neg whole fraction e. decimal_text s neg whole fraction e \<and>
       int (length fraction) - e \<le> i64_max \<and>
       decimal_is neg whole fraction e n \<and> \<bar>n\<bar> \<le> MAX_SAFE_INTEGER)"
proof -
  have "decimal_text s neg w f e \<and> parse_scaled neg w f e = Some n \<longleftrightarrow>
      decimal_text s neg w f e \<and> int (length f) - e \<le> i64_max \<and>
      decimal_is neg w f e n \<and> \<bar>n\<bar> \<le> MAX_SAFE_INTEGER" for neg w f e
  proof (cases "decimal_text s neg w f e")
    case True
    from decimal_text_parts[OF this] assms show ?thesis
      using parse_scaled_iff[of w f e neg n] True by simp
  qed simp
  then show ?thesis unfolding parse_integer_split by blast
qed

theorem parse_integer_header_value_iff_witness:
  "int (length ''-1.50e3'') \<le> i64_max \<and>
   parse_integer_header_value ''-1.50e3'' = Some (- 1500) \<and>
   (\<exists>neg whole fraction e. decimal_text ''-1.50e3'' neg whole fraction e \<and>
      int (length fraction) - e \<le> i64_max \<and>
      decimal_is neg whole fraction e (- 1500) \<and> \<bar>- 1500\<bar> \<le> MAX_SAFE_INTEGER)"
proof -
  have len: "int (length ''-1.50e3'') \<le> i64_max" by (simp add: i64_max_def)
  moreover have run: "parse_integer_header_value ''-1.50e3'' = Some (- 1500)" by code_simp
  moreover note parse_integer_header_value_iff[OF len, of "- 1500", THEN iffD1, OF run]
  ultimately show ?thesis by blast
qed

text \<open>
  Round trip of integers: the text of an integer in the safe range is read back as that integer, so a client that
  prints the argument with \<open>to_string\<close> always matches the body value.
\<close>

theorem parse_show_int:
  assumes "\<bar>n\<bar> \<le> MAX_SAFE_INTEGER"
  shows "parse_integer_header_value (show_int n) = Some n"
proof -
  have pos: "0 \<le> \<bar>n\<bar>" "\<bar>n\<bar> < 10 ^ 16" using assms by (simp_all add: MAX_SAFE_INTEGER_def)
  let ?w = "show_digits \<bar>n\<bar>"
  have w: "list_all is_digit ?w" "?w \<noteq> []" "digits_val ?w = \<bar>n\<bar>"
    using show_digits_digits[OF pos(1)] digits_val_show_digits[OF pos(1)] by auto
  have "length ?w \<le> 16" using length_show_digits[of "\<bar>n\<bar>" 16] pos by simp
  then have len: "int (length (show_int n)) \<le> i64_max"
    by (auto simp: show_int_def i64_max_def abs_if split: if_splits)
  have "decimal_text (show_int n) (n < 0) ?w [] 0"
    unfolding decimal_text_alt
    using w by (intro conjI exI[of _ "if n < 0 then ''-'' else []"] exI[of _ "[]"])
      (auto simp: show_int_def fraction_text_def exponent_text_def sign_text_def)
  moreover have "decimal_is (n < 0) ?w [] 0 n"
    using w by (auto simp: decimal_is_def)
  ultimately show ?thesis
    unfolding parse_integer_header_value_iff[OF len]
    using assms by (intro exI[of _ "n < 0"] exI[of _ ?w] exI[of _ "[]"] exI[of _ 0])
      (simp add: i64_max_def)
qed

theorem parse_show_int_witness:
  "\<bar>- 42\<bar> \<le> MAX_SAFE_INTEGER \<and> parse_integer_header_value (show_int (- 42)) = Some (- 42)"
  using parse_show_int[of "- 42"] by (simp add: MAX_SAFE_INTEGER_def)

end
