(* ===== verification/StandardHeaders.thy ===== *)
theory StandardHeaders
  imports Json HeaderInteger
begin

text \<open>
  The MCP standard headers (\<open>mcp_standard_headers.rs\<close>): which header names are counted by the
  limits and protected from backend configuration, the \<open>x-mcp-header\<close> annotations of a tool's
  input schema, and the validation of \<open>Mcp-Param-*\<close> headers against the arguments of a routed
  tool call. A \<open>HeaderMap\<close> is the list of its entries in iteration order; its names are the
  normalised (lower-case) names. Parameters: \<open>hn\<close> stands for \<open>HeaderName::from_bytes\<close> of the
  \<open>http\<close> crate, \<open>b64\<close> for \<open>BASE64_STANDARD.decode\<close>, \<open>sentinel\<close> for the pair of \<open>rmcp\<close>'s Base64
  prefix and suffix.
\<close>

section \<open>Definitions\<close>

type_synonym header_map = "(string \<times> string) list"

text \<open>The names \<open>rmcp\<close> reserves, with the values the repository documents.\<close>

definition HEADER_MCP_METHOD :: string where "HEADER_MCP_METHOD = ''Mcp-Method''"
definition HEADER_MCP_NAME :: string where "HEADER_MCP_NAME = ''Mcp-Name''"
definition HEADER_MCP_PROTOCOL_VERSION :: string where
  "HEADER_MCP_PROTOCOL_VERSION = ''Mcp-Protocol-Version''"
definition HEADER_SESSION_ID :: string where "HEADER_SESSION_ID = ''Mcp-Session-Id''"
definition HEADER_MCP_PARAM_PREFIX :: string where "HEADER_MCP_PARAM_PREFIX = ''Mcp-Param-''"

datatype param_type = TBoolean | TInteger | TString

record param_header_annotation =
  header_name :: string
  header_name_display :: string
  parameter_type :: param_type
  property_path :: "string list"

text \<open>One constructor per \<open>format!\<close> of the source, with what the message prints.\<close>

datatype header_error =
    UnexpectedHeader string "string list"
  | MissingHeader string "string list"
  | MalformedHeader string string
  | HeaderMismatch string string string
  | UnreachableAnnotation string
  | AnnotationNotString "string list"
  | AnnotationEmpty "string list"
  | AnnotationNotToken "string list" string
  | AnnotationDuplicate "string list" string
  | AnnotationType "string list" "string option"
  | AnnotationInvalidName "string list" string
  | BodyNotBoolean "string list"
  | BodyNotInteger "string list"
  | BodyNotString "string list"

definition is_exact :: "string \<Rightarrow> string \<Rightarrow> bool" where
  "is_exact name expected \<longleftrightarrow> eq_ignore_ascii_case name expected"

definition is_param :: "string \<Rightarrow> bool" where
  "is_param name \<longleftrightarrow>
     length HEADER_MCP_PARAM_PREFIX \<le> length name \<and>
     eq_ignore_ascii_case (take (length HEADER_MCP_PARAM_PREFIX) name) HEADER_MCP_PARAM_PREFIX"

definition is_limited :: "string \<Rightarrow> bool" where
  "is_limited name \<longleftrightarrow>
     is_exact name HEADER_MCP_METHOD \<or> is_exact name HEADER_MCP_NAME \<or>
     is_exact name HEADER_MCP_PROTOCOL_VERSION \<or> is_exact name HEADER_SESSION_ID \<or>
     is_param name"

definition is_computed :: "string \<Rightarrow> bool" where
  "is_computed name \<longleftrightarrow>
     is_exact name HEADER_MCP_METHOD \<or> is_exact name HEADER_MCP_NAME \<or>
     is_exact name HEADER_MCP_PROTOCOL_VERSION \<or> is_param name"

definition is_tchar :: "char \<Rightarrow> bool" where
  "is_tchar c \<longleftrightarrow> is_ascii_alphanumeric c \<or> c \<in> set ''!#$%&*+-.^_`|~'' \<or> byte c = 39"

text \<open>\<open>reject_unreachable_annotations\<close>, with its two loops.\<close>

fun reject_unreachable_annotations :: "json \<Rightarrow> string \<Rightarrow> (unit, header_error) result"
  and reject_entries :: "json_object \<Rightarrow> string \<Rightarrow> (unit, header_error) result"
  and reject_items :: "json list \<Rightarrow> nat \<Rightarrow> string \<Rightarrow> (unit, header_error) result" where
  "reject_unreachable_annotations (JObject object) schema_path =
     (if map_of object ''x-mcp-header'' \<noteq> None then Err (UnreachableAnnotation schema_path)
      else reject_entries object schema_path)"
| "reject_unreachable_annotations (JArray array) schema_path = reject_items array 0 schema_path"
| "reject_unreachable_annotations _ schema_path = Ok ()"
| "reject_entries [] schema_path = Ok ()"
| "reject_entries ((key, nested) # rest) schema_path =
     bind_res (reject_unreachable_annotations nested (schema_path @ ''.'' @ key))
       (\<lambda>_. reject_entries rest schema_path)"
| "reject_items [] index schema_path = Ok ()"
| "reject_items (nested # rest) index schema_path =
     bind_res (reject_unreachable_annotations nested
         (schema_path @ ''['' @ show_int (int index) @ '']''))
       (\<lambda>_. reject_items rest (Suc index) schema_path)"

text \<open>The schema visitor threads the set of seen headers and the annotations found so far.\<close>

type_synonym visit_state = "string list \<times> param_header_annotation list"

definition parse_parameter_type :: "json_object \<Rightarrow> string option" where
  "parse_parameter_type schema = Option.bind (map_of schema ''type'') as_str"

definition annotate ::
  "(string \<Rightarrow> string option) \<Rightarrow> json_object \<Rightarrow> string \<Rightarrow> string list option \<Rightarrow> visit_state
    \<Rightarrow> (visit_state, header_error) result" where
  "annotate hn schema schema_path path st =
     (case map_of schema ''x-mcp-header'' of
        None \<Rightarrow> Ok st
      | Some raw_header \<Rightarrow>
        (case path of
           None \<Rightarrow> Err (UnreachableAnnotation schema_path)
         | Some path \<Rightarrow>
           (case raw_header of
              JString header \<Rightarrow>
                if header = [] then Err (AnnotationEmpty path)
                else if \<not> list_all is_tchar header then Err (AnnotationNotToken path header)
                else if to_ascii_lowercase header \<in> set (fst st)
                     then Err (AnnotationDuplicate path header)
                else bind_res
                  (case parse_parameter_type schema of
                     Some t \<Rightarrow> if t = ''boolean'' then Ok TBoolean
                              else if t = ''integer'' then Ok TInteger
                              else if t = ''string'' then Ok TString
                              else Err (AnnotationType path (Some t))
                   | None \<Rightarrow> Err (AnnotationType path None))
                  (\<lambda>ty. bind_res
                     (ok_or (AnnotationInvalidName path (HEADER_MCP_PARAM_PREFIX @ header))
                       (hn (HEADER_MCP_PARAM_PREFIX @ header)))
                     (\<lambda>name. Ok (to_ascii_lowercase header # fst st,
                        snd st @ [\<lparr>header_name = name,
                                   header_name_display = HEADER_MCP_PARAM_PREFIX @ header,
                                   parameter_type = ty, property_path = path\<rparr>])))
            | _ \<Rightarrow> Err (AnnotationNotString path))))"

function visit_schema ::
  "(string \<Rightarrow> string option) \<Rightarrow> json_object \<Rightarrow> string \<Rightarrow> string list option \<Rightarrow> visit_state
    \<Rightarrow> (visit_state, header_error) result"
  and visit_keywords ::
  "(string \<Rightarrow> string option) \<Rightarrow> json_object \<Rightarrow> string \<Rightarrow> string list option \<Rightarrow> visit_state
    \<Rightarrow> (visit_state, header_error) result"
  and visit_properties ::
  "(string \<Rightarrow> string option) \<Rightarrow> json_object \<Rightarrow> string \<Rightarrow> string list option \<Rightarrow> visit_state
    \<Rightarrow> (visit_state, header_error) result" where
  "visit_schema hn schema schema_path path st =
     bind_res (annotate hn schema schema_path path st)
       (\<lambda>st. visit_keywords hn schema schema_path path st)"
| "visit_keywords hn [] schema_path path st = Ok st"
| "visit_keywords hn ((keyword, value) # rest) schema_path path st =
     (if keyword = ''properties'' then
        (case value of
           JObject properties \<Rightarrow>
             bind_res (visit_properties hn properties schema_path path st)
               (\<lambda>st. visit_keywords hn rest schema_path path st)
         | _ \<Rightarrow>
             bind_res (reject_unreachable_annotations value (schema_path @ ''.properties''))
               (\<lambda>_. visit_keywords hn rest schema_path path st))
      else if keyword \<noteq> ''x-mcp-header'' then
        bind_res (reject_unreachable_annotations value (schema_path @ ''.'' @ keyword))
          (\<lambda>_. visit_keywords hn rest schema_path path st)
      else visit_keywords hn rest schema_path path st)"
| "visit_properties hn [] schema_path path st = Ok st"
| "visit_properties hn ((property, property_schema) # rest) schema_path path st =
     (let nested_property_path = (case path of None \<Rightarrow> [] | Some p \<Rightarrow> p) @ [property];
          nested_schema_path = schema_path @ ''.properties.'' @ property
      in case property_schema of
           JObject object \<Rightarrow>
             bind_res (visit_schema hn object nested_schema_path (Some nested_property_path) st)
               (\<lambda>st. visit_properties hn rest schema_path path st)
         | _ \<Rightarrow>
             bind_res (reject_unreachable_annotations property_schema nested_schema_path)
               (\<lambda>_. visit_properties hn rest schema_path path st))"
  by pat_completeness auto
termination
  by (relation "measure (\<lambda>x. case x of
        Inl (hn, s, _) \<Rightarrow> 2 * size_list (size_prod (\<lambda>_. 0) size) s + 1
      | Inr (Inl (hn, s, _)) \<Rightarrow> 2 * size_list (size_prod (\<lambda>_. 0) size) s
      | Inr (Inr (hn, s, _)) \<Rightarrow> 2 * size_list (size_prod (\<lambda>_. 0) size) s)")
    auto

definition param_header_annotations ::
  "(string \<Rightarrow> string option) \<Rightarrow> json_object
    \<Rightarrow> (param_header_annotation list, header_error) result" where
  "param_header_annotations hn input_schema =
     bind_res (visit_schema hn input_schema ''$'' None ([], [])) (\<lambda>st. Ok (snd st))"

fun walk_path :: "json \<Rightarrow> string list \<Rightarrow> json option" where
  "walk_path v [] = Some v"
| "walk_path v (p # ps) =
     Option.bind (Option.bind (as_object v) (\<lambda>kvs. map_of kvs p)) (\<lambda>w. walk_path w ps)"

definition value_at_property_path :: "json_object option \<Rightarrow> string list \<Rightarrow> json option" where
  "value_at_property_path arguments path =
     (case path of
        [] \<Rightarrow> None
      | first # rest \<Rightarrow>
          Option.bind (Option.bind arguments (\<lambda>a. map_of a first)) (\<lambda>v. walk_path v rest))"

datatype param_value = PBoolean bool | PInteger int | PString string

definition show_bool :: "bool \<Rightarrow> string" where
  "show_bool b = (if b then ''true'' else ''false'')"

fun parameter_display :: "param_value \<Rightarrow> string" where
  "parameter_display (PBoolean b) = show_bool b"
| "parameter_display (PInteger n) = show_int n"
| "parameter_display (PString s) = s"

definition option_or :: "'a option \<Rightarrow> 'a option \<Rightarrow> 'a option" where
  "option_or a b = (case a of Some x \<Rightarrow> Some x | None \<Rightarrow> b)"

definition option_filter :: "('a \<Rightarrow> bool) \<Rightarrow> 'a option \<Rightarrow> 'a option" where
  "option_filter p v = (case v of Some x \<Rightarrow> if p x then Some x else None | None \<Rightarrow> None)"

definition parameter_value ::
  "json \<Rightarrow> param_type \<Rightarrow> string list \<Rightarrow> (param_value, header_error) result" where
  "parameter_value value ty path =
     (case ty of
        TBoolean \<Rightarrow> (case value of JBool b \<Rightarrow> Ok (PBoolean b) | _ \<Rightarrow> Err (BodyNotBoolean path))
      | TInteger \<Rightarrow>
          (case value of
             JNumber n \<Rightarrow>
               (case option_filter (\<lambda>i. MIN_SAFE_INTEGER \<le> i \<and> i \<le> MAX_SAFE_INTEGER)
                       (option_or (num_as_i64 n)
                         (option_or (Option.bind (num_as_u64 n) (\<lambda>u. checked_i64 (int u)))
                           (parse_integer_header_value (num_to_string n)))) of
                  Some i \<Rightarrow> Ok (PInteger i)
                | None \<Rightarrow> Err (BodyNotInteger path))
           | _ \<Rightarrow> Err (BodyNotInteger path))
      | TString \<Rightarrow> (case value of JString s \<Rightarrow> Ok (PString s) | _ \<Rightarrow> Err (BodyNotString path)))"

fun parameter_values_match :: "string \<Rightarrow> param_value \<Rightarrow> bool" where
  "parameter_values_match header_value (PBoolean b) = (header_value = show_bool b)"
| "parameter_values_match header_value (PInteger n) =
     (case parse_integer_header_value header_value of Some h \<Rightarrow> h = n | None \<Rightarrow> False)"
| "parameter_values_match header_value (PString s) = (header_value = s)"

definition decode_header_value ::
  "(string \<Rightarrow> string option) \<Rightarrow> string \<times> string \<Rightarrow> string \<Rightarrow> (string, string) result" where
  "decode_header_value b64 sentinel raw =
     (if \<not> utf8_valid raw then Err ''value is not ASCII or UTF-8''
      else case Option.bind (strip_prefix (fst sentinel) raw) (strip_suffix (snd sentinel)) of
        Some inner \<Rightarrow>
          (case b64 inner of
             None \<Rightarrow> Err ''sentinel contains invalid Base64''
           | Some decoded \<Rightarrow>
               if utf8_valid decoded then Ok decoded
               else Err ''sentinel does not contain UTF-8'')
      | None \<Rightarrow>
          if raw \<noteq> [] \<and> (byte (hd raw) \<in> {32, 9} \<or> byte (last raw) \<in> {32, 9})
          then Err ''plain value has leading or trailing whitespace''
          else if list_ex (\<lambda>c. \<not> (byte c = 9 \<or> (32 \<le> byte c \<and> byte c \<le> 126))) raw
          then Err ''plain value contains characters that require Base64 encoding''
          else Ok raw)"

fun check_header_values ::
  "(string \<Rightarrow> string option) \<Rightarrow> string \<times> string \<Rightarrow> param_header_annotation \<Rightarrow> param_value
    \<Rightarrow> string list \<Rightarrow> (unit, header_error) result" where
  "check_header_values b64 sentinel ann expected [] = Ok ()"
| "check_header_values b64 sentinel ann expected (raw # raws) =
     bind_res (map_err (MalformedHeader (header_name_display ann))
                 (decode_header_value b64 sentinel raw))
       (\<lambda>decoded.
          if \<not> parameter_values_match decoded expected
          then Err (HeaderMismatch (header_name_display ann) decoded (parameter_display expected))
          else check_header_values b64 sentinel ann expected raws)"

definition get_all :: "header_map \<Rightarrow> string \<Rightarrow> string list" where
  "get_all headers name = map snd (filter (\<lambda>(n, v). n = name) headers)"

definition check_annotation ::
  "(string \<Rightarrow> string option) \<Rightarrow> string \<times> string \<Rightarrow> header_map \<Rightarrow> json_object option
    \<Rightarrow> param_header_annotation \<Rightarrow> (unit, header_error) result" where
  "check_annotation b64 sentinel headers arguments ann =
     (let header_values = get_all headers (header_name ann);
          body_value = option_filter (\<lambda>v. \<not> is_null v)
                         (value_at_property_path arguments (property_path ann))
      in case (header_values, body_value) of
           ([], None) \<Rightarrow> Ok ()
         | (_ # _, None) \<Rightarrow>
             Err (UnexpectedHeader (header_name_display ann) (property_path ann))
         | ([], Some _) \<Rightarrow> Err (MissingHeader (header_name_display ann) (property_path ann))
         | (_ # _, Some body) \<Rightarrow>
             bind_res (parameter_value body (parameter_type ann) (property_path ann))
               (\<lambda>expected. check_header_values b64 sentinel ann expected header_values))"

fun check_annotations ::
  "(string \<Rightarrow> string option) \<Rightarrow> string \<times> string \<Rightarrow> header_map \<Rightarrow> json_object option
    \<Rightarrow> param_header_annotation list \<Rightarrow> (unit, header_error) result" where
  "check_annotations b64 sentinel headers arguments [] = Ok ()"
| "check_annotations b64 sentinel headers arguments (ann # anns) =
     bind_res (check_annotation b64 sentinel headers arguments ann)
       (\<lambda>_. check_annotations b64 sentinel headers arguments anns)"

definition validate_tool_params ::
  "(string \<Rightarrow> string option) \<Rightarrow> (string \<Rightarrow> string option) \<Rightarrow> string \<times> string \<Rightarrow> header_map
    \<Rightarrow> json_object option \<Rightarrow> json_object \<Rightarrow> (unit, header_error) result" where
  "validate_tool_params hn b64 sentinel headers arguments input_schema =
     bind_res (param_header_annotations hn input_schema)
       (check_annotations b64 sentinel headers arguments)"

section \<open>Annotations of a schema\<close>

text \<open>
  What the visitor should find, stated without it. \<open>schema_at\<close> follows a property path
  through \<open>properties\<close> keys only, \<open>annotated\<close> says that a schema object carries
  \<open>x-mcp-header\<close>, \<open>has_annotation\<close> that a value carries one at any depth.
\<close>

fun schema_at :: "json_object \<Rightarrow> string list \<Rightarrow> json_object option" where
  "schema_at schema [] = Some schema"
| "schema_at schema (p # ps) =
     (case map_of schema ''properties'' of
        Some (JObject props) \<Rightarrow>
          (case map_of props p of Some (JObject kvs) \<Rightarrow> schema_at kvs ps | _ \<Rightarrow> None)
      | _ \<Rightarrow> None)"

definition annotated :: "json_object \<Rightarrow> bool" where
  "annotated schema \<longleftrightarrow> map_of schema ''x-mcp-header'' \<noteq> None"

fun has_annotation :: "json \<Rightarrow> bool" where
  "has_annotation (JObject kvs) = (annotated kvs \<or> list_ex (\<lambda>(k, v). has_annotation v) kvs)"
| "has_annotation (JArray xs) = list_ex has_annotation xs"
| "has_annotation _ = False"

definition type_name :: "param_type \<Rightarrow> string" where
  "type_name t = (case t of TBoolean \<Rightarrow> ''boolean'' | TInteger \<Rightarrow> ''integer'' | TString \<Rightarrow> ''string'')"

definition annotation_of ::
  "(string \<Rightarrow> string option) \<Rightarrow> json_object \<Rightarrow> param_header_annotation \<Rightarrow> bool" where
  "annotation_of hn schema ann \<longleftrightarrow>
     (\<exists>h. map_of schema ''x-mcp-header'' = Some (JString h) \<and> h \<noteq> [] \<and> list_all is_tchar h \<and>
        header_name_display ann = HEADER_MCP_PARAM_PREFIX @ h \<and>
        hn (HEADER_MCP_PARAM_PREFIX @ h) = Some (header_name ann) \<and>
        map_of schema ''type'' = Some (JString (type_name (parameter_type ann))))"

text \<open>The annotations \<open>new\<close> are exactly those of the schema objects that \<open>R\<close> relates to a path.\<close>

definition covers ::
  "(string \<Rightarrow> string option) \<Rightarrow> (string list \<Rightarrow> json_object \<Rightarrow> bool) \<Rightarrow> string list
    \<Rightarrow> param_header_annotation list \<Rightarrow> bool" where
  "covers hn R base new \<longleftrightarrow>
     (\<forall>ann \<in> set new. \<exists>path schema.
        R path schema \<and> property_path ann = base @ path \<and> annotation_of hn schema ann) \<and>
     (\<forall>path schema. R path schema \<and> annotated schema \<longrightarrow>
        (\<exists>ann \<in> set new. property_path ann = base @ path))"

definition at_schema :: "json_object \<Rightarrow> string list \<Rightarrow> json_object \<Rightarrow> bool" where
  "at_schema schema path sub \<longleftrightarrow> schema_at schema path = Some sub"

definition at_keywords :: "json_object \<Rightarrow> string list \<Rightarrow> json_object \<Rightarrow> bool" where
  "at_keywords schema path sub \<longleftrightarrow> path \<noteq> [] \<and> schema_at schema path = Some sub"

definition at_properties :: "json_object \<Rightarrow> string list \<Rightarrow> json_object \<Rightarrow> bool" where
  "at_properties props path sub \<longleftrightarrow>
     (\<exists>p ps kvs. path = p # ps \<and> map_of props p = Some (JObject kvs) \<and> schema_at kvs ps = Some sub)"

definition base_path :: "string list option \<Rightarrow> string list" where
  "base_path path = (case path of None \<Rightarrow> [] | Some p \<Rightarrow> p)"

lemma covers_append:
  assumes "covers hn R base a" "covers hn S base b" "\<And>p s. T p s \<longleftrightarrow> R p s \<or> S p s"
  shows "covers hn T base (a @ b)"
  using assms(1,2) unfolding covers_def assms(3) by (simp add: ball_Un bex_Un) blast

lemma covers_empty: "(\<And>p s. R p s \<Longrightarrow> \<not> annotated s) \<Longrightarrow> covers hn R base []"
  by (auto simp: covers_def)

lemma covers_shift:
  "covers hn (at_schema kvs) (base @ [p]) new \<Longrightarrow>
   covers hn (\<lambda>path sub. \<exists>ps. path = p # ps \<and> schema_at kvs ps = Some sub) base new"
  unfolding covers_def at_schema_def by fastforce

lemma reject_iff:
  shows "reject_unreachable_annotations v sp = Ok () \<longleftrightarrow> \<not> has_annotation v"
    and "reject_entries kvs sp = Ok () \<longleftrightarrow> \<not> list_ex (\<lambda>(k, v). has_annotation v) kvs"
    and "reject_items xs i sp = Ok () \<longleftrightarrow> \<not> list_ex has_annotation xs"
  by (induction v sp and kvs sp and xs i sp
      rule: reject_unreachable_annotations_reject_entries_reject_items.induct)
    (auto simp: annotated_def bind_res_eq_Ok)

lemma annotate_Ok:
  assumes "annotate hn schema sp path st = Ok st'"
  shows "\<exists>new. snd st' = snd st @ new \<and>
     covers hn (\<lambda>p s. p = [] \<and> s = schema) (base_path path) new \<and> (path = None \<longrightarrow> \<not> annotated schema)"
proof (cases "map_of schema ''x-mcp-header''")
  case None
  then show ?thesis using assms by (auto simp: annotate_def covers_def annotated_def)
next
  case (Some raw)
  with assms obtain pp h where path: "path = Some pp" and h: "raw = JString h"
    by (auto simp: annotate_def split: option.splits json.splits)
  with Some assms obtain ty name where "h \<noteq> []" "list_all is_tchar h"
      "map_of schema ''type'' = Some (JString (type_name ty))"
      "hn (HEADER_MCP_PARAM_PREFIX @ h) = Some name"
      "snd st' = snd st @ [\<lparr>header_name = name, header_name_display = HEADER_MCP_PARAM_PREFIX @ h,
          parameter_type = ty, property_path = pp\<rparr>]"
    by (auto simp: annotate_def bind_res_eq_Ok ok_or_eq_Ok parse_parameter_type_def type_name_def
        bind_eq_Some_conv split: if_splits option.splits)
  with Some h path show ?thesis
    by (auto simp: covers_def annotation_of_def base_path_def annotated_def)
qed

lemma schema_at_Cons_other:
  "k \<noteq> ''properties'' \<Longrightarrow> at_keywords ((k, v) # rest) path sub \<longleftrightarrow> at_keywords rest path sub"
  by (cases path) (simp_all add: at_keywords_def)

lemma schema_at_no_properties:
  "''properties'' \<notin> fst ` set rest \<Longrightarrow> \<not> at_keywords rest path sub"
  by (cases path) (auto simp: at_keywords_def map_of_eq_None_iff [THEN iffD2])

lemma schema_at_Cons_properties:
  "at_keywords ((''properties'', JObject props) # rest) path sub \<longleftrightarrow> at_properties props path sub"
  by (cases path) (auto simp: at_keywords_def at_properties_def split: option.splits json.splits)

lemma at_properties_Cons:
  "p \<notin> fst ` set rest \<Longrightarrow>
   at_properties ((p, JObject kvs) # rest) path sub \<longleftrightarrow>
     (\<exists>ps. path = p # ps \<and> schema_at kvs ps = Some sub) \<or> at_properties rest path sub"
  by (cases path) (auto simp: at_properties_def map_of_eq_None_iff [THEN iffD2]
      dest: map_of_SomeD split: if_splits)

lemma at_properties_Cons_other:
  assumes "p \<notin> fst ` set rest" and "as_object v = None"
  shows "at_properties ((p, v) # rest) path sub \<longleftrightarrow> at_properties rest path sub"
proof -
  have "map_of rest p = None" using assms(1) by (simp add: map_of_eq_None_iff)
  moreover have "v \<noteq> JObject kvs" for kvs using assms(2) by auto
  ultimately have "map_of ((p, v) # rest) q = Some (JObject kvs) \<longleftrightarrow> map_of rest q = Some (JObject kvs)"
    for q kvs by auto
  then show ?thesis unfolding at_properties_def by (simp only:)
qed

lemma at_keywords_Cons_other:
  assumes "k \<notin> fst ` set rest" and "k \<noteq> ''properties'' \<or> as_object v = None"
  shows "at_keywords ((k, v) # rest) path sub \<longleftrightarrow> at_keywords rest path sub"
proof (cases "k = ''properties''")
  case True
  with assms have "as_object v = None" "\<not> at_keywords rest path sub"
    by (simp_all add: schema_at_no_properties)
  with True show ?thesis by (cases path; cases v) (simp_all add: at_keywords_def)
qed (simp add: schema_at_Cons_other)

lemma covers_cong: "covers hn R base new \<Longrightarrow> (\<And>p s. S p s \<longleftrightarrow> R p s) \<Longrightarrow> covers hn S base new"
  by (simp add: covers_def)

lemma schema_at_split:
  "at_schema schema path sub \<longleftrightarrow> (path = [] \<and> sub = schema) \<or> at_keywords schema path sub"
  by (auto simp: at_schema_def at_keywords_def)

text \<open>Successful visits as a relation, for rule induction.\<close>

inductive schema_visit :: "(string \<Rightarrow> string option) \<Rightarrow> json_object \<Rightarrow> string list option \<Rightarrow> visit_state
    \<Rightarrow> visit_state \<Rightarrow> bool"
  and keyword_visit :: "(string \<Rightarrow> string option) \<Rightarrow> json_object \<Rightarrow> string list option \<Rightarrow> visit_state
    \<Rightarrow> visit_state \<Rightarrow> bool"
  and property_visit :: "(string \<Rightarrow> string option) \<Rightarrow> json_object \<Rightarrow> string list option \<Rightarrow> visit_state
    \<Rightarrow> visit_state \<Rightarrow> bool"
  for hn :: "string \<Rightarrow> string option" where
  schema: "annotate hn schema sp path st = Ok st1 \<Longrightarrow> keyword_visit hn schema path st1 st' \<Longrightarrow>
      schema_visit hn schema path st st'"
| keyword_Nil: "keyword_visit hn [] path st st"
| keyword_properties: "property_visit hn props path st st1 \<Longrightarrow> keyword_visit hn rest path st1 st' \<Longrightarrow>
      keyword_visit hn ((''properties'', JObject props) # rest) path st st'"
| keyword_other: "k \<noteq> ''properties'' \<or> as_object v = None \<Longrightarrow>
      k \<noteq> ''x-mcp-header'' \<longrightarrow> \<not> has_annotation v \<Longrightarrow> keyword_visit hn rest path st st' \<Longrightarrow>
      keyword_visit hn ((k, v) # rest) path st st'"
| property_Nil: "property_visit hn [] path st st"
| property_object: "schema_visit hn kvs (Some (base_path path @ [p])) st st1 \<Longrightarrow>
      property_visit hn rest path st1 st' \<Longrightarrow> property_visit hn ((p, JObject kvs) # rest) path st st'"
| property_other: "as_object v = None \<Longrightarrow> \<not> has_annotation v \<Longrightarrow>
      property_visit hn rest path st st' \<Longrightarrow> property_visit hn ((p, v) # rest) path st st'"

lemma visit_Ok:
  shows "visit_schema hn schema sp path st = Ok st' \<Longrightarrow> schema_visit hn schema path st st'"
    and "visit_keywords hn kws sp path st = Ok st' \<Longrightarrow> keyword_visit hn kws path st st'"
    and "visit_properties hn props sp path st = Ok st' \<Longrightarrow> property_visit hn props path st st'"
proof (induction hn schema sp path st and hn kws sp path st and hn props sp path st
    arbitrary: st' and st' and st'
    rule: visit_schema_visit_keywords_visit_properties.induct)
  case (1 hn schema sp path st)
  from 1(2) obtain st1 where "annotate hn schema sp path st = Ok st1"
      "visit_keywords hn schema sp path st1 = Ok st'"
    by (auto simp: bind_res_eq_Ok simp del: split_paired_Ex)
  with 1(1) show ?case by (blast intro: schema_visit_keyword_visit_property_visit.schema)
next
  case (3 hn k v rest sp path st)
  show ?case
  proof (cases "k = ''properties'' \<and> as_object v \<noteq> None")
    case True
    then obtain props where v: "k = ''properties''" "v = JObject props" by auto
    with 3(10) obtain st1 where "visit_properties hn props sp path st = Ok st1"
        "visit_keywords hn rest sp path st1 = Ok st'" by (auto simp: bind_res_eq_Ok simp del: split_paired_Ex)
    with 3(6) [OF v] 3(7) [OF v] show ?thesis unfolding v by (blast intro: keyword_properties)
  next
    case False
    with 3(10) have ok: "visit_keywords hn rest sp path st = Ok st' \<and>
        (k \<noteq> ''x-mcp-header'' \<longrightarrow> \<not> has_annotation v)"
      by (cases v; cases "k = ''properties''"; cases "k = ''x-mcp-header''")
        (simp_all add: bind_res_eq_Ok reject_iff del: reject_unreachable_annotations.simps has_annotation.simps)
    moreover have "keyword_visit hn rest path st st'"
    proof (cases "k = ''properties''")
      case True
      with False have "as_object v = None" by blast
      with ok [THEN conjunct1] 3(1-5) [OF True] show ?thesis by (cases v) simp_all
    next
      case no: False
      from 3(8,9) [OF no] ok [THEN conjunct1] show ?thesis by blast
    qed
    ultimately show ?thesis using False by (auto intro: keyword_other)
  qed
next
  case (5 hn p v rest sp path st)
  show ?case
  proof (cases "as_object v")
    case (Some kvs)
    with 5(8) obtain st1 where
        "visit_schema hn kvs (sp @ ''.properties.'' @ p) (Some (base_path path @ [p])) st = Ok st1"
        "visit_properties hn rest sp path st1 = Ok st'"
      by (auto simp: bind_res_eq_Ok base_path_def Let_def simp del: split_paired_Ex visit_schema.simps)
    moreover from Some have v: "v = JObject kvs" by simp
    ultimately show ?thesis
      using 5(6) [OF refl refl v] 5(7) [OF refl refl v] unfolding v base_path_def
      by (blast intro: property_object [unfolded base_path_def])
  next
    case None
    with 5(8) have "visit_properties hn rest sp path st = Ok st'" "\<not> has_annotation v"
      by (cases v; auto simp: bind_res_eq_Ok reject_iff Let_def)+
    moreover from this 5(1-5) None have "property_visit hn rest path st st'"
      by (cases v) auto
    ultimately show ?thesis using None by (auto intro: property_other)
  qed
qed (auto intro: keyword_Nil property_Nil)

text \<open>A successful visit finds exactly the annotations of the schemas it can reach.\<close>

lemma visit_covers:
  shows "schema_visit hn schema path st st' \<Longrightarrow> json_wf (JObject schema) \<longrightarrow>
      (\<exists>new. snd st' = snd st @ new \<and> covers hn (at_schema schema) (base_path path) new)"
    and "keyword_visit hn kws path st st' \<Longrightarrow> json_wf (JObject kws) \<longrightarrow>
      (\<exists>new. snd st' = snd st @ new \<and> covers hn (at_keywords kws) (base_path path) new)"
    and "property_visit hn props path st st' \<Longrightarrow> json_wf (JObject props) \<longrightarrow>
      (\<exists>new. snd st' = snd st @ new \<and> covers hn (at_properties props) (base_path path) new)"
proof (induction rule: schema_visit_keyword_visit_property_visit.inducts)
  case (schema schema sp path st st1 st')
  show ?case
  proof
    assume "json_wf (JObject schema)"
    with schema.IH obtain n2 where n2: "snd st' = snd st1 @ n2"
        "covers hn (at_keywords schema) (base_path path) n2" by blast
    from annotate_Ok [OF schema(1)] obtain n1 where n1: "snd st1 = snd st @ n1"
        "covers hn (\<lambda>p s. p = [] \<and> s = schema) (base_path path) n1" by blast
    show "\<exists>new. snd st' = snd st @ new \<and> covers hn (at_schema schema) (base_path path) new"
      using n1(1) n2(1) covers_append [OF n1(2) n2(2) schema_at_split] by auto
  qed
next
  case (keyword_Nil path st)
  then show ?case by (auto intro!: covers_empty simp: schema_at_no_properties)
next
  case (keyword_properties props path st st1 rest st')
  show ?case
  proof
    assume wf: "json_wf (JObject ((''properties'', JObject props) # rest))"
    then have none: "\<not> at_keywords rest p s" for p s
      by (intro schema_at_no_properties) simp
    from keyword_properties.IH wf obtain n1 n2 where n: "snd st1 = snd st @ n1" "snd st' = snd st1 @ n2"
        "covers hn (at_properties props) (base_path path) n1"
        "covers hn (at_keywords rest) (base_path path) n2" by auto
    have "covers hn (at_keywords ((''properties'', JObject props) # rest)) (base_path path) (n1 @ n2)"
      using none by (intro covers_append [OF n(3,4)]) (simp add: schema_at_Cons_properties)
    with n(1,2) show "\<exists>new. snd st' = snd st @ new \<and>
        covers hn (at_keywords ((''properties'', JObject props) # rest)) (base_path path) new"
      by auto
  qed
next
  case (keyword_other k v rest path st st')
  then show ?case
    by (auto elim!: covers_cong simp: at_keywords_Cons_other)
next
  case (property_Nil path st)
  then show ?case by (auto intro!: covers_empty simp: at_properties_def)
next
  case (property_object kvs path p st st1 rest st')
  show ?case
  proof
    assume wf: "json_wf (JObject ((p, JObject kvs) # rest))"
    from property_object.IH wf obtain n1 n2 where n: "snd st1 = snd st @ n1" "snd st' = snd st1 @ n2"
        "covers hn (at_schema kvs) (base_path path @ [p]) n1"
        "covers hn (at_properties rest) (base_path path) n2" by (auto simp: base_path_def)
    have "covers hn (at_properties ((p, JObject kvs) # rest)) (base_path path) (n1 @ n2)"
      using wf by (intro covers_append [OF covers_shift [OF n(3)] n(4)] at_properties_Cons) simp
    with n(1,2) show "\<exists>new. snd st' = snd st @ new \<and>
        covers hn (at_properties ((p, JObject kvs) # rest)) (base_path path) new"
      by auto
  qed
next
  case (property_other v rest path st st' p)
  then show ?case by (auto elim!: covers_cong simp: at_properties_Cons_other)
qed

text \<open>The seen set holds the lower-cased annotation names, each once.\<close>

definition annotation_key :: "param_header_annotation \<Rightarrow> string" where
  "annotation_key ann = to_ascii_lowercase (drop (length HEADER_MCP_PARAM_PREFIX) (header_name_display ann))"

definition seen_inv :: "visit_state \<Rightarrow> bool" where
  "seen_inv st \<longleftrightarrow> fst st = rev (map annotation_key (snd st)) \<and> distinct (fst st)"

lemma annotate_seen: "annotate hn schema sp path st = Ok st' \<Longrightarrow> seen_inv st \<Longrightarrow> seen_inv st'"
  by (auto simp: annotate_def seen_inv_def annotation_key_def bind_res_eq_Ok ok_or_eq_Ok
      split: option.splits json.splits if_splits)

lemma visit_seen:
  shows "schema_visit hn schema path st st' \<Longrightarrow> seen_inv st \<longrightarrow> seen_inv st'"
    and "keyword_visit hn kws path st st' \<Longrightarrow> seen_inv st \<longrightarrow> seen_inv st'"
    and "property_visit hn props path st st' \<Longrightarrow> seen_inv st \<longrightarrow> seen_inv st'"
  by (induction rule: schema_visit_keyword_visit_property_visit.inducts)
    (blast intro: annotate_seen)+

lemma annotate_root: "annotate hn schema sp None st = Ok st' \<Longrightarrow> \<not> annotated schema"
  by (auto simp: annotate_def annotated_def split: option.splits)

text \<open>
  Property C19 (annotations of an accepted schema): whenever \<open>param_header_annotations\<close>
  accepts a schema, its result holds exactly one entry per annotated schema object reachable
  through \<open>properties\<close>: each entry carries the path, the validated \<open>Mcp-Param-\<close> name and the
  declared type of such an object, every reachable annotated object has an entry, the root is not
  annotated, and the annotation names are pairwise distinct ignoring ASCII case.
\<close>

theorem param_header_annotations_sound_complete:
  assumes "param_header_annotations hn schema = Ok anns" and "json_wf (JObject schema)"
  shows "(\<forall>ann \<in> set anns. \<exists>sub. schema_at schema (property_path ann) = Some sub \<and>
            annotation_of hn sub ann) \<and>
         (\<forall>path sub. schema_at schema path = Some sub \<and> annotated sub \<longrightarrow>
            (\<exists>ann \<in> set anns. property_path ann = path)) \<and>
         \<not> annotated schema \<and> distinct (map annotation_key anns)"
proof -
  from assms(1) obtain st where v: "visit_schema hn schema ''$'' None ([], []) = Ok st"
    and anns: "anns = snd st"
    by (auto simp: param_header_annotations_def bind_res_eq_Ok)
  from visit_Ok(1) [OF v] have rel: "schema_visit hn schema None ([], []) st" .
  from visit_covers(1) [OF rel] assms(2) anns have "covers hn (at_schema schema) [] anns"
    by (auto simp: base_path_def)
  moreover from visit_seen(1) [OF rel] anns have "distinct (map annotation_key anns)"
    by (auto simp: seen_inv_def)
  moreover from v have "\<not> annotated schema" by (auto simp: bind_res_eq_Ok dest: annotate_root)
  ultimately show ?thesis by (auto simp: covers_def at_schema_def)
qed

text \<open>A schema with an annotated nested property, and a header name function.\<close>

definition sample_schema :: json_object where
  "sample_schema = [(''type'', JString ''object''), (''properties'', JObject
     [(''filter'', JObject [(''properties'', JObject
        [(''id'', JObject [(''type'', JString ''integer''), (''x-mcp-header'', JString ''Id'')])])]),
      (''q'', JObject [(''type'', JString ''string'')])])]"

definition lower_name :: "string \<Rightarrow> string option" where
  "lower_name s = Some (to_ascii_lowercase s)"

definition sample_annotation :: param_header_annotation where
  "sample_annotation = \<lparr>header_name = ''mcp-param-id'', header_name_display = ''Mcp-Param-Id'',
     parameter_type = TInteger, property_path = [''filter'', ''id'']\<rparr>"

lemma sample_accepted: "param_header_annotations lower_name sample_schema = Ok [sample_annotation]"
  by code_simp

theorem param_header_annotations_sound_complete_witness:
  "param_header_annotations lower_name sample_schema = Ok [sample_annotation] \<and>
   json_wf (JObject sample_schema) \<and>
   (\<exists>sub. schema_at sample_schema (property_path sample_annotation) = Some sub \<and>
      annotation_of lower_name sub sample_annotation) \<and> \<not> annotated sample_schema"
proof -
  have wf: "json_wf (JObject sample_schema)" by code_simp
  show ?thesis
    using param_header_annotations_sound_complete [OF sample_accepted wf] sample_accepted wf by simp
qed

section \<open>Validation against the headers\<close>

lemma check_header_values_Ok:
  "check_header_values b64 sentinel ann expected raws = Ok () \<longleftrightarrow>
     (\<forall>raw \<in> set raws. \<exists>decoded. decode_header_value b64 sentinel raw = Ok decoded \<and>
        parameter_values_match decoded expected)"
  by (induction raws) (auto simp: bind_res_eq_Ok map_err_eq_Ok)

lemma check_annotations_Ok:
  "check_annotations b64 sentinel headers args anns = Ok () \<longleftrightarrow>
     (\<forall>ann \<in> set anns. check_annotation b64 sentinel headers args ann = Ok ())"
  by (induction anns) (auto simp: bind_res_eq_Ok)

text \<open>
  What one annotation asks of a request: the argument at its path is absent or null and no header
  of its name is present, or the argument has the declared type, at least one header is present and
  every occurrence decodes to a text that denotes the argument.
\<close>

definition annotation_satisfied ::
  "(string \<Rightarrow> string option) \<Rightarrow> string \<times> string \<Rightarrow> header_map \<Rightarrow> json_object option
    \<Rightarrow> param_header_annotation \<Rightarrow> bool" where
  "annotation_satisfied b64 sentinel headers args ann \<longleftrightarrow>
     (let vs = get_all headers (header_name ann) in
      case value_at_property_path args (property_path ann) of
        Some v \<Rightarrow> if is_null v then vs = []
                 else vs \<noteq> [] \<and> (\<exists>expected.
                   parameter_value v (parameter_type ann) (property_path ann) = Ok expected \<and>
                   (\<forall>raw \<in> set vs. \<exists>decoded. decode_header_value b64 sentinel raw = Ok decoded \<and>
                      parameter_values_match decoded expected))
      | None \<Rightarrow> vs = [])"

lemma check_annotation_Ok:
  "check_annotation b64 sentinel headers args ann = Ok () \<longleftrightarrow>
     annotation_satisfied b64 sentinel headers args ann"
proof (cases "get_all headers (header_name ann)")
  case Nil
  then show ?thesis
    by (auto simp: check_annotation_def annotation_satisfied_def option_filter_def split: option.splits)
next
  case (Cons v vs)
  then show ?thesis
    by (auto simp: check_annotation_def annotation_satisfied_def option_filter_def bind_res_eq_Ok
        check_header_values_Ok simp del: check_header_values.simps split: option.splits)
qed

text \<open>
  Property C18 (decision of the header validation): a routed tool call passes
  \<open>validate_tool_params\<close> exactly when the schema's annotations are accepted and every one of them
  is satisfied by the request's headers and arguments.
\<close>

theorem validate_tool_params_iff:
  "validate_tool_params hn b64 sentinel headers args schema = Ok () \<longleftrightarrow>
     (\<exists>anns. param_header_annotations hn schema = Ok anns \<and>
        list_all (annotation_satisfied b64 sentinel headers args) anns)"
  by (simp add: validate_tool_params_def bind_res_eq_Ok check_annotations_Ok check_annotation_Ok list_all_iff)

end
