(* ===== verification/HeaderLimits.thy ===== *)
theory HeaderLimits
  imports StandardHeaders
begin

text \<open>
  The MCP header budget (\<open>layers/mcp_header_limits.rs\<close>): limits taken from the configuration, the
  saturating usage count over the request's headers and the decision to reject. A \<open>usize\<close> is an
  integer in \<open>0..usize_max\<close>. The layer itself is in \<open>Middleware\<close>.
\<close>

section \<open>Definitions\<close>

definition DEFAULT_MCP_STANDARD_HEADER_MAX_COUNT :: int where
  "DEFAULT_MCP_STANDARD_HEADER_MAX_COUNT = 32"
definition DEFAULT_MCP_STANDARD_HEADER_MAX_VALUE_BYTES :: int where
  "DEFAULT_MCP_STANDARD_HEADER_MAX_VALUE_BYTES = 8 * 1024"
definition DEFAULT_MCP_STANDARD_HEADER_MAX_TOTAL_BYTES :: int where
  "DEFAULT_MCP_STANDARD_HEADER_MAX_TOTAL_BYTES = 64 * 1024"

record standard_header_limits =
  limit_count :: int
  limit_value_bytes :: int
  limit_total_bytes :: int

definition configured_or_default :: "int \<Rightarrow> int \<Rightarrow> int" where
  "configured_or_default configured default_value =
     (if configured = 0 then default_value else configured)"

text \<open>\<open>From<&Config>\<close>, over the three configuration fields it reads.\<close>

definition limits_from_config :: "int \<Rightarrow> int \<Rightarrow> int \<Rightarrow> standard_header_limits" where
  "limits_from_config max_count max_value_bytes max_total_bytes =
     \<lparr>limit_count = configured_or_default max_count DEFAULT_MCP_STANDARD_HEADER_MAX_COUNT,
      limit_value_bytes =
        configured_or_default max_value_bytes DEFAULT_MCP_STANDARD_HEADER_MAX_VALUE_BYTES,
      limit_total_bytes =
        configured_or_default max_total_bytes DEFAULT_MCP_STANDARD_HEADER_MAX_TOTAL_BYTES\<rparr>"

record standard_header_usage =
  used_count :: int
  used_value_bytes :: int
  used_total_bytes :: int

definition count_header :: "standard_header_usage \<Rightarrow> string \<times> string \<Rightarrow> standard_header_usage" where
  "count_header usage nv =
     (let value_bytes = int (length (snd nv)) in
      \<lparr>used_count = saturating_add (used_count usage) 1,
       used_value_bytes = max (used_value_bytes usage) value_bytes,
       used_total_bytes =
         saturating_add (saturating_add (used_total_bytes usage) (int (length (fst nv)))) value_bytes\<rparr>)"

definition mcp_standard_header_usage :: "header_map \<Rightarrow> standard_header_usage" where
  "mcp_standard_header_usage headers =
     foldl count_header \<lparr>used_count = 0, used_value_bytes = 0, used_total_bytes = 0\<rparr>
       (filter (\<lambda>nv. is_limited (fst nv)) headers)"

definition exceeds :: "standard_header_usage \<Rightarrow> standard_header_limits \<Rightarrow> bool" where
  "exceeds usage limits \<longleftrightarrow>
     used_count usage > limit_count limits \<or> used_value_bytes usage > limit_value_bytes limits \<or>
     used_total_bytes usage > limit_total_bytes limits"

definition exceeded_limits ::
  "header_map \<Rightarrow> standard_header_limits \<Rightarrow> standard_header_usage option" where
  "exceeded_limits headers limits =
     (let usage = mcp_standard_header_usage headers in
      if exceeds usage limits then Some usage else None)"

section \<open>The saturating count decides like the exact one\<close>

definition limited :: "header_map \<Rightarrow> header_map" where
  "limited headers = filter (\<lambda>nv. is_limited (fst nv)) headers"

definition header_bytes :: "header_map \<Rightarrow> int" where
  "header_bytes headers = (\<Sum>nv \<leftarrow> headers. int (length (fst nv)) + int (length (snd nv)))"

lemma min_add_min: "0 \<le> b \<Longrightarrow> min (m::int) (min m a + b) = min m (a + b)"
  by (auto simp: min_def)

lemma usage_foldl:
  assumes "u = \<lparr>used_count = min usize_max c, used_value_bytes = v, used_total_bytes = min usize_max t\<rparr>"
  shows "foldl count_header u hs =
    \<lparr>used_count = min usize_max (c + int (length hs)),
     used_value_bytes = foldl max v (map (int \<circ> length \<circ> snd) hs),
     used_total_bytes = min usize_max (t + header_bytes hs)\<rparr>"
  using assms
proof (induction hs arbitrary: u c v t)
  case Nil
  then show ?case by (simp add: header_bytes_def)
next
  case (Cons h hs)
  have "count_header u h = \<lparr>used_count = min usize_max (c + 1),
      used_value_bytes = max v (int (length (snd h))),
      used_total_bytes = min usize_max (t + (int (length (fst h)) + int (length (snd h))))\<rparr>"
    using Cons.prems by (simp add: count_header_def saturating_add_def Let_def min_add_min add.assoc)
  from Cons.IH [OF this] show ?case by (simp add: header_bytes_def add.assoc)
qed

lemma usage_closed:
  "mcp_standard_header_usage headers =
    \<lparr>used_count = min usize_max (int (length (limited headers))),
     used_value_bytes = foldl max 0 (map (int \<circ> length \<circ> snd) (limited headers)),
     used_total_bytes = min usize_max (header_bytes (limited headers))\<rparr>"
  unfolding mcp_standard_header_usage_def limited_def [symmetric]
  by (subst usage_foldl [where c = 0 and v = 0 and t = 0]) (simp_all add: usize_max_def)

lemma foldl_max_le: "foldl max (a::int) xs \<le> b \<longleftrightarrow> a \<le> b \<and> (\<forall>x \<in> set xs. x \<le> b)"
  by (induction xs arbitrary: a) auto

text \<open>
  Property C34 (header budget): with limits that are \<open>usize\<close> values below \<open>usize::MAX\<close>, a request
  passes the MCP header budget exactly when the number of its limited headers, the length of each
  of their values and the sum of all their name and value lengths, counted without bound, are
  within the three limits: the saturation of the counters never changes the decision.
\<close>

theorem exceeded_limits_exact:
  assumes "limit_count limits < usize_max" "limit_total_bytes limits < usize_max"
    and "0 \<le> limit_value_bytes limits"
  shows "exceeded_limits headers limits = None \<longleftrightarrow>
     int (length (limited headers)) \<le> limit_count limits \<and>
     list_all (\<lambda>nv. int (length (snd nv)) \<le> limit_value_bytes limits) (limited headers) \<and>
     header_bytes (limited headers) \<le> limit_total_bytes limits"
proof -
  let ?lens = "map (int \<circ> length \<circ> snd) (limited headers)"
  have "exceeded_limits headers limits = None \<longleftrightarrow>
      min usize_max (int (length (limited headers))) \<le> limit_count limits \<and>
      foldl max 0 ?lens \<le> limit_value_bytes limits \<and>
      min usize_max (header_bytes (limited headers)) \<le> limit_total_bytes limits"
    by (auto simp: exceeded_limits_def exceeds_def usage_closed Let_def)
  then show ?thesis
    using assms by (simp add: foldl_max_le list_all_iff min_le_iff_disj)
qed

theorem exceeded_limits_exact_witness:
  "exceeded_limits [(''mcp-method'', ''tools/call''), (''x-one'', ''1''), (''mcp-param-user'', ''alice'')]
     (limits_from_config 2 0 39) = None \<and>
   header_bytes (limited [(''mcp-method'', ''tools/call''), (''x-one'', ''1''), (''mcp-param-user'', ''alice'')])
     \<le> 39"
proof -
  have l: "limit_count (limits_from_config 2 0 39) < usize_max"
    "limit_total_bytes (limits_from_config 2 0 39) < usize_max"
    "0 \<le> limit_value_bytes (limits_from_config 2 0 39)"
    "limit_total_bytes (limits_from_config 2 0 39) = 39" by code_simp+
  have "exceeded_limits [(''mcp-method'', ''tools/call''), (''x-one'', ''1''), (''mcp-param-user'', ''alice'')]
     (limits_from_config 2 0 39) = None" by code_simp
  with exceeded_limits_exact [OF l(1-3)] l(4) show ?thesis by simp
qed

end
