(* ===== verification/Apis.thy ===== *)
theory Apis
  imports StandardHeaders
begin

text \<open>
  The control-plane documents (\<open>contextforge-data-plane-apis\<close>): users, user configurations with
  their virtual hosts, backends and routes, and the global configuration. A \<open>HashMap\<close> is an
  association list, in the order in which it would be iterated; a \<open>Url\<close> is its serialisation.
\<close>

section \<open>Definitions\<close>

type_synonym url = string

datatype key_type = UserConfigKey

record user =
  user_name :: key_type
  user_key :: string

definition new_user :: "string \<Rightarrow> user" where
  "new_user key = \<lparr>user_name = UserConfigKey, user_key = key\<rparr>"

record backend_mcp_gateway =
  backend_display_name :: string
  backend_url :: url
  mcp_protocol_version :: string
  passthrough_headers :: "string list"
  add_headers :: "(string \<times> string) list"
  remove_headers :: "string list"
  completion_routes :: "(string \<times> string) list"
  tool_schemas :: "(string \<times> json_object) list"

record service_route =
  backend_name :: string
  upstream_name :: string

record virtual_host =
  backends :: "(string \<times> backend_mcp_gateway) list"
  vh_tools :: "(string \<times> service_route) list"
  vh_resources :: "(string \<times> service_route) list"
  vh_resource_templates :: "(string \<times> service_route) list"
  vh_prompts :: "(string \<times> service_route) list"

record user_config =
  virtual_hosts :: "(string \<times> virtual_host) list"

record api_authority =
  hostname :: string
  port :: nat

record global_config =
  gc_max_count :: "int option"
  gc_max_value_bytes :: "int option"
  gc_max_total_bytes :: "int option"
  gc_allowed_origins :: "url list option"
  gc_allowed_hosts :: "api_authority list option"

text \<open>\<open>TryFrom<Authority>\<close>: the host and the port, printed, are parsed by the \<open>http\<close> crate.\<close>

definition authority_text :: "api_authority \<Rightarrow> string" where
  "authority_text a = hostname a @ '':'' @ show_int (int (port a))"

definition authority_try_from ::
  "(string \<Rightarrow> 'a option) \<Rightarrow> api_authority \<Rightarrow> 'a option" where
  "authority_try_from parse a = parse (authority_text a)"


end
