(* ===== verification/AppConfig.thy ===== *)
theory AppConfig
  imports HeaderLimits Apis
begin

text \<open>
  The configuration (\<open>common/mod.rs\<close>, \<open>common/config.rs\<close>, \<open>common/cli_config.rs\<close>, and the observability
  crate's \<open>config.rs\<close>): command line values to a \<open>Config\<close>, merged with the published global
  configuration, and the clients built from it. The file system, PEM
  decoding, URI parsing and the client builders are parameters, collected in \<open>config_env\<close>. A socket
  address, a path and a URI are their texts; an authority has type \<open>'a\<close>.
\<close>

section \<open>Definitions\<close>

datatype redis_connection_mode = RedisPlainText | RedisTls | RedisMtls

datatype upstream_connection_mode = PlainTextOrTls | PlainTextOrMTls | TlsOnly | MtlsOnly

datatype otlp_protocol = Grpc | HttpProtobuf

record cli_config =
  cli_address :: "string option"
  cli_jwks_url :: url
  cli_jwks_ca_cert_path :: "string option"
  cli_enable_open_telemetry :: "bool option"
  cli_otlp_endpoint :: "string option"
  cli_otlp_protocol :: "otlp_protocol option"
  cli_otlp_headers :: "string option"
  cli_otlp_service_name :: "string option"
  cli_enable_otel_metrics :: "bool option"
  cli_otlp_metrics_endpoint :: "string option"
  cli_runtime_plugins_enabled :: "bool option"
  cli_tls_address :: "string option"
  cli_server_private_key :: "string option"
  cli_server_certificate :: "string option"
  cli_upstream_connection_mode :: "upstream_connection_mode option"
  cli_upstream_private_key :: "string option"
  cli_upstream_certificate :: "string option"
  cli_upstream_trust_bundle :: "string option"
  cli_redis_address :: string
  cli_redis_port :: nat
  cli_redis_mode :: redis_connection_mode
  cli_redis_tls_trust_bundle :: "string option"
  cli_redis_tls_client_private_key :: "string option"
  cli_redis_tls_client_certificate :: "string option"
  cli_cel_principal_extractor_path :: "string option"

datatype redis_config =
    PlainText string nat
  | Tls string nat string
  | MTls string nat string string string

record observability_config =
  traces_enabled :: bool
  traces_endpoint :: "string option"
  metrics_enabled :: bool
  metrics_endpoint :: "string option"
  obs_protocol :: otlp_protocol
  obs_headers :: "string option"
  service_name :: string

record downstream_transport_config =
  tls_address :: "string option"
  server_private_key :: "string option"
  server_certificate :: "string option"

record upstream_transport_config =
  upstream_mode :: "upstream_connection_mode option"
  upstream_private_key :: "string option"
  upstream_certificate :: "string option"
  upstream_trust_bundle :: "string option"

record jwks_config =
  jwks_config_url :: url
  ca_cert_path :: "string option"

record 'a config =
  address :: "string option"
  observability :: observability_config
  jwks_cfg :: jwks_config
  user_config_cache_expiry_seconds :: int
  redis_cfg :: redis_config
  downstream_transport :: downstream_transport_config
  upstream_transport :: upstream_transport_config
  cel_principal_extractor_path :: "string option"
  mcp_allowed_origins :: "url list option"
  mcp_allowed_hosts :: "'a list option"
  mcp_standard_header_max_count :: int
  mcp_standard_header_max_value_bytes :: int
  mcp_standard_header_max_total_bytes :: int
  runtime_plugins_enabled :: "bool option"

text \<open>The errors of start-up: \<open>ConfigValidationError\<close> with its text, and texts of libraries.\<close>

datatype startup_error = RedisConfigurationError string | StartupError string

record ('a, 'k) config_env =
  read_file :: "string \<Rightarrow> (string, string) result"
  pem_certificates :: "string \<Rightarrow> (string list, string) result"
  is_pkcs8_key :: "string \<Rightarrow> bool"
  parse_authority :: "string \<Rightarrow> ('a, string) result"
  identity_from_pem :: "string \<Rightarrow> ('k, string) result"
  bundle_from_pem :: "string \<Rightarrow> (string list, string) result"

definition DEFAULT_SERVICE_NAME :: string where
  "DEFAULT_SERVICE_NAME = ''CONTEXTFORGE-DATA-PLANE''"

definition default_observability :: observability_config where
  "default_observability = \<lparr>traces_enabled = False, traces_endpoint = None, metrics_enabled = False,
     metrics_endpoint = None, obs_protocol = Grpc, obs_headers = None, service_name = DEFAULT_SERVICE_NAME\<rparr>"

definition observability_from_cli :: "cli_config \<Rightarrow> observability_config" where
  "observability_from_cli c =
     \<lparr>traces_enabled = (cli_enable_open_telemetry c = Some True),
      traces_endpoint = cli_otlp_endpoint c,
      metrics_enabled = (cli_enable_otel_metrics c = Some True),
      metrics_endpoint = cli_otlp_metrics_endpoint c,
      obs_protocol = (case cli_otlp_protocol c of
         None \<Rightarrow> obs_protocol default_observability | Some Grpc \<Rightarrow> Grpc | Some HttpProtobuf \<Rightarrow> HttpProtobuf),
      obs_headers = cli_otlp_headers c,
      service_name = (case cli_otlp_service_name c of
         Some n \<Rightarrow> n | None \<Rightarrow> service_name default_observability)\<rparr>"

definition downstream_from_cli :: "cli_config \<Rightarrow> downstream_transport_config" where
  "downstream_from_cli c = \<lparr>tls_address = cli_tls_address c, server_private_key = cli_server_private_key c,
     server_certificate = cli_server_certificate c\<rparr>"

definition upstream_from_cli :: "cli_config \<Rightarrow> upstream_transport_config" where
  "upstream_from_cli c = \<lparr>upstream_mode = cli_upstream_connection_mode c,
     upstream_private_key = cli_upstream_private_key c, upstream_certificate = cli_upstream_certificate c,
     upstream_trust_bundle = cli_upstream_trust_bundle c\<rparr>"

definition jwks_from_cli :: "cli_config \<Rightarrow> jwks_config" where
  "jwks_from_cli c = \<lparr>jwks_config_url = cli_jwks_url c, ca_cert_path = cli_jwks_ca_cert_path c\<rparr>"

definition mode_text :: "redis_connection_mode \<Rightarrow> string" where
  "mode_text m = (case m of RedisPlainText \<Rightarrow> ''PlainText'' | RedisTls \<Rightarrow> ''Tls'' | RedisMtls \<Rightarrow> ''Mtls'')"

definition validate_certs :: "('a, 'k) config_env \<Rightarrow> string \<Rightarrow> (string, startup_error) result" where
  "validate_certs env path =
     bind_res (map_err RedisConfigurationError (read_file env path)) (\<lambda>buf.
     bind_res (map_err RedisConfigurationError (pem_certificates env buf)) (\<lambda>certs.
     if certs = [] then Err (RedisConfigurationError ''No certificates provided'') else Ok buf))"

definition validate_key :: "('a, 'k) config_env \<Rightarrow> string \<Rightarrow> (string, startup_error) result" where
  "validate_key env path =
     bind_res (map_err RedisConfigurationError (read_file env path)) (\<lambda>buf.
     if is_pkcs8_key env buf then Ok buf else Err (RedisConfigurationError ''Private key is invalid''))"

definition required :: "string \<Rightarrow> redis_connection_mode \<Rightarrow> string option \<Rightarrow> (string, startup_error) result" where
  "required what mode path =
     ok_or (RedisConfigurationError (what @ '' is required for Redis '' @ mode_text mode)) path"

definition redis_config_try_from :: "('a, 'k) config_env \<Rightarrow> cli_config \<Rightarrow> (redis_config, startup_error) result" where
  "redis_config_try_from env c =
     bind_res (map_err RedisConfigurationError
       (parse_authority env (cli_redis_address c @ '':'' @ show_int (int (cli_redis_port c))))) (\<lambda>_.
     case cli_redis_mode c of
       RedisPlainText \<Rightarrow> Ok (PlainText (cli_redis_address c) (cli_redis_port c))
     | RedisTls \<Rightarrow>
         bind_res (required ''Trust bundle'' RedisTls (cli_redis_tls_trust_bundle c)) (\<lambda>bundle_path.
         bind_res (validate_certs env bundle_path) (\<lambda>bundle.
         Ok (Tls (cli_redis_address c) (cli_redis_port c) bundle)))
     | RedisMtls \<Rightarrow>
         bind_res (required ''Trust bundle'' RedisMtls (cli_redis_tls_trust_bundle c)) (\<lambda>bundle_path.
         bind_res (validate_certs env bundle_path) (\<lambda>bundle.
         bind_res (required ''Client certificate'' RedisMtls (cli_redis_tls_client_certificate c)) (\<lambda>cert_path.
         bind_res (validate_certs env cert_path) (\<lambda>cert.
         bind_res (required ''Client key'' RedisMtls (cli_redis_tls_client_private_key c)) (\<lambda>key_path.
         bind_res (validate_key env key_path) (\<lambda>key.
         Ok (MTls (cli_redis_address c) (cli_redis_port c) bundle cert key))))))))"

definition config_try_from :: "('a, 'k) config_env \<Rightarrow> cli_config \<Rightarrow> ('a config, startup_error) result" where
  "config_try_from env c =
     bind_res (redis_config_try_from env c) (\<lambda>redis.
     Ok \<lparr>address = cli_address c, observability = observability_from_cli c, jwks_cfg = jwks_from_cli c,
       user_config_cache_expiry_seconds = 5 * 60, redis_cfg = redis,
       downstream_transport = downstream_from_cli c, upstream_transport = upstream_from_cli c,
       cel_principal_extractor_path = cli_cel_principal_extractor_path c,
       mcp_allowed_origins = None, mcp_allowed_hosts = None,
       mcp_standard_header_max_count = DEFAULT_MCP_STANDARD_HEADER_MAX_COUNT,
       mcp_standard_header_max_value_bytes = DEFAULT_MCP_STANDARD_HEADER_MAX_VALUE_BYTES,
       mcp_standard_header_max_total_bytes = DEFAULT_MCP_STANDARD_HEADER_MAX_TOTAL_BYTES,
       runtime_plugins_enabled = cli_runtime_plugins_enabled c\<rparr>)"

definition or_default :: "'x option \<Rightarrow> 'x \<Rightarrow> 'x" where
  "or_default v d = (case v of Some x \<Rightarrow> x | None \<Rightarrow> d)"

definition config_merge ::
  "('a, 'k) config_env \<Rightarrow> 'a config \<Rightarrow> global_config \<Rightarrow> ('a config, startup_error) result" where
  "config_merge env config rhs =
     (let config = config
        \<lparr>mcp_standard_header_max_count := or_default (gc_max_count rhs) DEFAULT_MCP_STANDARD_HEADER_MAX_COUNT,
         mcp_standard_header_max_total_bytes :=
           or_default (gc_max_total_bytes rhs) DEFAULT_MCP_STANDARD_HEADER_MAX_TOTAL_BYTES,
         mcp_standard_header_max_value_bytes :=
           or_default (gc_max_value_bytes rhs) DEFAULT_MCP_STANDARD_HEADER_MAX_VALUE_BYTES\<rparr> in
      bind_res (case gc_allowed_hosts rhs of
          Some hosts \<Rightarrow> bind_res (collect_res (\<lambda>a. map_err StartupError (parse_authority env (authority_text a))) hosts)
            (\<lambda>hosts. Ok (Some hosts))
        | None \<Rightarrow> Ok None)
      (\<lambda>hosts. Ok (config\<lparr>mcp_allowed_hosts := hosts, mcp_allowed_origins := gc_allowed_origins rhs\<rparr>)))"

text \<open>\<open>TryFrom<&UpstreamTransportConfig> for reqwest::Client\<close>: the options of the builder.\<close>

record 'k http_client =
  https_only :: bool
  client_identity :: "'k option"
  extra_roots :: "string list"

definition extract_identity :: "('a, 'k) config_env \<Rightarrow> upstream_transport_config \<Rightarrow> ('k, startup_error) result" where
  "extract_identity env config =
     (case (upstream_private_key config, upstream_certificate config) of
        (Some private_key, Some certificate) \<Rightarrow>
          bind_res (map_err StartupError (read_file env certificate)) (\<lambda>cert.
          bind_res (map_err StartupError (read_file env private_key)) (\<lambda>key.
          map_err StartupError (identity_from_pem env (cert @ key))))
      | _ \<Rightarrow> Err (StartupError ''Invalid/missing configuration''))"

definition upstream_client ::
  "('a, 'k) config_env \<Rightarrow> ('k http_client \<Rightarrow> ('h, string) result) \<Rightarrow> upstream_transport_config
    \<Rightarrow> ('h, startup_error) result" where
  "upstream_client env build config =
     bind_res (case upstream_mode config of
         None \<Rightarrow> Ok \<lparr>https_only = True, client_identity = None, extra_roots = []\<rparr>
       | Some TlsOnly \<Rightarrow> Ok \<lparr>https_only = True, client_identity = None, extra_roots = []\<rparr>
       | Some PlainTextOrTls \<Rightarrow> Ok \<lparr>https_only = False, client_identity = None, extra_roots = []\<rparr>
       | Some PlainTextOrMTls \<Rightarrow> bind_res (extract_identity env config) (\<lambda>i.
           Ok \<lparr>https_only = False, client_identity = Some i, extra_roots = []\<rparr>)
       | Some MtlsOnly \<Rightarrow> bind_res (extract_identity env config) (\<lambda>i.
           Ok \<lparr>https_only = True, client_identity = Some i, extra_roots = []\<rparr>)) (\<lambda>builder.
     bind_res (case upstream_trust_bundle config of
         None \<Rightarrow> Ok builder
       | Some path \<Rightarrow>
           bind_res (map_err StartupError (read_file env path)) (\<lambda>buf.
           bind_res (map_err StartupError (bundle_from_pem env buf)) (\<lambda>certs.
           Ok (builder\<lparr>extra_roots := certs\<rparr>)))) (\<lambda>builder.
     map_err StartupError (build builder)))"

section \<open>Transport security\<close>

declare map_err_eq_Ok [simp]

text \<open>The files that \<open>validate_certs\<close> and \<open>validate_key\<close> accept.\<close>

definition certs_at :: "('a, 'k) config_env \<Rightarrow> string option \<Rightarrow> string \<Rightarrow> bool" where
  "certs_at env path buf \<longleftrightarrow>
     (\<exists>p cs. path = Some p \<and> read_file env p = Ok buf \<and> pem_certificates env buf = Ok cs \<and> cs \<noteq> [])"

definition key_at :: "('a, 'k) config_env \<Rightarrow> string option \<Rightarrow> string \<Rightarrow> bool" where
  "key_at env path buf \<longleftrightarrow> (\<exists>p. path = Some p \<and> read_file env p = Ok buf \<and> is_pkcs8_key env buf)"

lemma required_certs:
  "(\<exists>p. required what m path = Ok p \<and> validate_certs env p = Ok buf) \<longleftrightarrow> certs_at env path buf"
  by (auto simp: required_def validate_certs_def certs_at_def ok_or_eq_Ok bind_res_eq_Ok)

lemma required_key:
  "(\<exists>p. required what m path = Ok p \<and> validate_key env p = Ok buf) \<longleftrightarrow> key_at env path buf"
  by (auto simp: required_def validate_key_def key_at_def ok_or_eq_Ok bind_res_eq_Ok)

lemma bind_required_certs:
  "bind_res (required what m path) (\<lambda>p. bind_res (validate_certs env p) f) = Ok r \<longleftrightarrow>
     (\<exists>buf. certs_at env path buf \<and> f buf = Ok r)"
  unfolding required_certs [symmetric, where what = what and m = m] by (auto simp: bind_res_eq_Ok)

lemma bind_required_key:
  "bind_res (required what m path) (\<lambda>p. bind_res (validate_key env p) f) = Ok r \<longleftrightarrow>
     (\<exists>buf. key_at env path buf \<and> f buf = Ok r)"
  unfolding required_key [symmetric, where what = what and m = m] by (auto simp: bind_res_eq_Ok)

text \<open>
  Property C39 (no downgrade of the Redis connection): the Redis configuration is accepted exactly when
  its address is an authority and every file that the chosen mode needs is there and valid; the
  accepted configuration is of the chosen mode and holds those files.
\<close>

theorem redis_config_iff:
  "redis_config_try_from env c = Ok r \<longleftrightarrow>
     (\<exists>a. parse_authority env (cli_redis_address c @ '':'' @ show_int (int (cli_redis_port c))) = Ok a) \<and>
     (case cli_redis_mode c of
        RedisPlainText \<Rightarrow> r = PlainText (cli_redis_address c) (cli_redis_port c)
      | RedisTls \<Rightarrow> (\<exists>bundle. certs_at env (cli_redis_tls_trust_bundle c) bundle \<and>
          r = Tls (cli_redis_address c) (cli_redis_port c) bundle)
      | RedisMtls \<Rightarrow> (\<exists>bundle cert key. certs_at env (cli_redis_tls_trust_bundle c) bundle \<and>
          certs_at env (cli_redis_tls_client_certificate c) cert \<and>
          key_at env (cli_redis_tls_client_private_key c) key \<and>
          r = MTls (cli_redis_address c) (cli_redis_port c) bundle cert key))"
proof (cases "parse_authority env (cli_redis_address c @ '':'' @ show_int (int (cli_redis_port c)))")
  case (Inl e)
  then show ?thesis by (simp add: redis_config_try_from_def map_err_def)
next
  case (Inr a)
  then show ?thesis
    by (cases "cli_redis_mode c")
      (auto simp: redis_config_try_from_def map_err_def bind_required_certs bind_required_key)
qed

lemma upstream_builder_cases:
  assumes "upstream_client env build config = Ok h"
  obtains b where "build b = Ok h"
    "https_only b = (upstream_mode config \<notin> {Some PlainTextOrTls, Some PlainTextOrMTls})"
    "case client_identity b of
       None \<Rightarrow> upstream_mode config \<in> {None, Some TlsOnly, Some PlainTextOrTls}
     | Some i \<Rightarrow> upstream_mode config \<in> {Some PlainTextOrMTls, Some MtlsOnly} \<and> extract_identity env config = Ok i"
proof -
  from assms obtain b0 b where b0: "(case upstream_mode config of
         None \<Rightarrow> Ok \<lparr>https_only = True, client_identity = None, extra_roots = []\<rparr>
       | Some TlsOnly \<Rightarrow> Ok \<lparr>https_only = True, client_identity = None, extra_roots = []\<rparr>
       | Some PlainTextOrTls \<Rightarrow> Ok \<lparr>https_only = False, client_identity = None, extra_roots = []\<rparr>
       | Some PlainTextOrMTls \<Rightarrow> bind_res (extract_identity env config) (\<lambda>i.
           Ok \<lparr>https_only = False, client_identity = Some i, extra_roots = []\<rparr>)
       | Some MtlsOnly \<Rightarrow> bind_res (extract_identity env config) (\<lambda>i.
           Ok \<lparr>https_only = True, client_identity = Some i, extra_roots = []\<rparr>)) = Ok b0"
    and b: "\<exists>roots. b = b0\<lparr>extra_roots := roots\<rparr>" "build b = Ok h"
    unfolding upstream_client_def bind_res_eq_Ok map_err_eq_Ok
    by (cases "upstream_trust_bundle config") (auto simp: bind_res_eq_Ok, metis http_client.surjective http_client.update_convs(3))
  from b have "https_only b = https_only b0" "client_identity b = client_identity b0" by auto
  moreover from b0 have "https_only b0 = (upstream_mode config \<notin> {Some PlainTextOrTls, Some PlainTextOrMTls})"
    by (auto simp: bind_res_eq_Ok split: option.splits upstream_connection_mode.splits)
  moreover from b0 have "case client_identity b0 of
       None \<Rightarrow> upstream_mode config \<in> {None, Some TlsOnly, Some PlainTextOrTls}
     | Some i \<Rightarrow> upstream_mode config \<in> {Some PlainTextOrMTls, Some MtlsOnly} \<and> extract_identity env config = Ok i"
    by (auto simp: bind_res_eq_Ok split: option.splits upstream_connection_mode.splits)
  ultimately show ?thesis using b(2) that by metis
qed

text \<open>
  Upstream transport modes: the client for backends accepts plain HTTP only in the two
  modes that say so, never by default, and it presents a client identity, made of the configured
  files, exactly in the two modes for mutual TLS.
\<close>

theorem upstream_client_modes:
  assumes "upstream_client env build config = Ok h"
  shows "\<exists>b. build b = Ok h \<and>
    https_only b = (upstream_mode config \<notin> {Some PlainTextOrTls, Some PlainTextOrMTls}) \<and>
    (case client_identity b of
       None \<Rightarrow> upstream_mode config \<in> {None, Some TlsOnly, Some PlainTextOrTls}
     | Some i \<Rightarrow> upstream_mode config \<in> {Some PlainTextOrMTls, Some MtlsOnly} \<and> extract_identity env config = Ok i)"
  using assms by (elim upstream_builder_cases) blast

definition sample_files :: "(string, string) config_env" where
  "sample_files = \<lparr>read_file = (\<lambda>p. if p = ''missing'' then Err ''not found'' else Ok p),
     pem_certificates = (\<lambda>b. Ok [b]), is_pkcs8_key = (\<lambda>b. True), parse_authority = Ok,
     identity_from_pem = Ok, bundle_from_pem = (\<lambda>b. Ok [b])\<rparr>"

theorem upstream_client_modes_witness:
  "upstream_client sample_files Ok \<lparr>upstream_mode = Some MtlsOnly, upstream_private_key = Some ''k'',
     upstream_certificate = Some ''c'', upstream_trust_bundle = None\<rparr> =
     Ok \<lparr>https_only = True, client_identity = Some ''ck'', extra_roots = []\<rparr> \<and>
   (\<exists>b. (Ok b :: (string http_client, string) result) =
      Ok \<lparr>https_only = True, client_identity = Some ''ck'', extra_roots = []\<rparr> \<and> https_only b)"
proof -
  let ?config = "\<lparr>upstream_mode = Some MtlsOnly, upstream_private_key = Some ''k'',
     upstream_certificate = Some ''c'', upstream_trust_bundle = None\<rparr>"
  have "upstream_client sample_files Ok ?config = Ok \<lparr>https_only = True, client_identity = Some ''ck'', extra_roots = []\<rparr>"
    by (simp add: upstream_client_def extract_identity_def sample_files_def map_err_def)
  with upstream_client_modes [OF this] show ?thesis by auto
qed

section \<open>Merging the global configuration\<close>

text \<open>
  The limits in force after merging: a published limit, unless it is zero, else the default. The
  allowed hosts are all published ones or the merge fails; nothing else of the configuration changes.
\<close>

lemma merged_limits:
  assumes "config_merge env config rhs = Ok merged"
  shows "limits_from_config (mcp_standard_header_max_count merged) (mcp_standard_header_max_value_bytes merged)
      (mcp_standard_header_max_total_bytes merged) =
    \<lparr>limit_count = (if gc_max_count rhs \<in> {None, Some 0} then DEFAULT_MCP_STANDARD_HEADER_MAX_COUNT
       else the (gc_max_count rhs)),
     limit_value_bytes = (if gc_max_value_bytes rhs \<in> {None, Some 0} then DEFAULT_MCP_STANDARD_HEADER_MAX_VALUE_BYTES
       else the (gc_max_value_bytes rhs)),
     limit_total_bytes = (if gc_max_total_bytes rhs \<in> {None, Some 0} then DEFAULT_MCP_STANDARD_HEADER_MAX_TOTAL_BYTES
       else the (gc_max_total_bytes rhs))\<rparr>"
proof -
  from assms have "mcp_standard_header_max_count merged = or_default (gc_max_count rhs) DEFAULT_MCP_STANDARD_HEADER_MAX_COUNT"
    "mcp_standard_header_max_value_bytes merged = or_default (gc_max_value_bytes rhs) DEFAULT_MCP_STANDARD_HEADER_MAX_VALUE_BYTES"
    "mcp_standard_header_max_total_bytes merged = or_default (gc_max_total_bytes rhs) DEFAULT_MCP_STANDARD_HEADER_MAX_TOTAL_BYTES"
    by (auto simp: config_merge_def bind_res_eq_Ok Let_def)
  moreover have "configured_or_default (or_default v d) d = (if v \<in> {None, Some 0} then d else the v)" for v d
    by (cases v) (auto simp: configured_or_default_def or_default_def)
  ultimately show ?thesis by (simp add: limits_from_config_def)
qed

end
