(* ===== verification/Observability.thy ===== *)
theory Observability
  imports AppConfig
begin

text \<open>
  The set-up of logging and telemetry (\<open>contextforge-data-plane-observability/src/logging.rs\<close>) and what
  the \<open>Debug\<close> implementations of the configuration put into the start-up log line. Building an
  exporter, parsing gRPC metadata and the process-wide OpenTelemetry objects belong to libraries: the
  model has the options of the builders, and a record of what is installed in the process.
\<close>

section \<open>Definitions\<close>

text \<open>\<open>parse_otlp_headers\<close> of the observability crate.\<close>

datatype otlp_error = MissingSeparator string | EmptyKey string

definition otlp_entry :: "string \<Rightarrow> ((string \<times> string) option, otlp_error) result" where
  "otlp_entry raw =
     (let entry = trim raw in
      if entry = [] then Ok None
      else case split_once (\<lambda>c. c = CHR ''='') entry of
        None \<Rightarrow> Err (MissingSeparator entry)
      | Some (key, value) \<Rightarrow>
          if trim key = [] then Err (EmptyKey entry) else Ok (Some (trim key, trim value)))"

fun otlp_entries :: "string list \<Rightarrow> (string \<rightharpoonup> string) \<Rightarrow> (string \<rightharpoonup> string, otlp_error) result" where
  "otlp_entries [] out = Ok out"
| "otlp_entries (raw # raws) out =
     bind_res (otlp_entry raw) (\<lambda>entry.
       otlp_entries raws (case entry of None \<Rightarrow> out | Some (key, value) \<Rightarrow> out(key \<mapsto> value)))"

definition parse_otlp_headers :: "string option \<Rightarrow> (string \<rightharpoonup> string, otlp_error) result" where
  "parse_otlp_headers raw =
     (case raw of None \<Rightarrow> Ok Map.empty | Some raw \<Rightarrow> otlp_entries (split_on (CHR '','') raw) Map.empty)"

text \<open>\<open>headers_to_metadata\<close>: \<open>entries\<close> is the order in which the header map is iterated.\<close>

datatype telemetry_error =
    HeaderError otlp_error | InvalidMetadataKey string | InvalidMetadataValue string | ExporterError string

record ('k, 'v, 'x) telemetry_env =
  metadata_key :: "string \<Rightarrow> 'k option"
  metadata_value :: "string \<Rightarrow> 'v option"
  entries :: "(string \<rightharpoonup> string) \<Rightarrow> (string \<times> string) list"
  build_exporter :: "'x \<Rightarrow> (unit, string) result"
  env_var :: "string \<Rightarrow> string option"

fun insert_metadata ::
  "('k, 'v, 'x) telemetry_env \<Rightarrow> (string \<times> string) list \<Rightarrow> ('k \<rightharpoonup> 'v) \<Rightarrow> ('k \<rightharpoonup> 'v, telemetry_error) result" where
  "insert_metadata env [] m = Ok m"
| "insert_metadata env ((k, v) # rest) m =
     bind_res (ok_or (InvalidMetadataKey k) (metadata_key env k)) (\<lambda>key.
     bind_res (ok_or (InvalidMetadataValue k) (metadata_value env v)) (\<lambda>val.
     insert_metadata env rest (m(key \<mapsto> val))))"

definition headers_to_metadata ::
  "('k, 'v, 'x) telemetry_env \<Rightarrow> (string \<rightharpoonup> string) \<Rightarrow> ('k \<rightharpoonup> 'v, telemetry_error) result" where
  "headers_to_metadata env headers = insert_metadata env (entries env headers) Map.empty"

definition DEFAULT_GRPC_TRACES_ENDPOINT :: string where
  "DEFAULT_GRPC_TRACES_ENDPOINT = ''http://127.0.0.1:4317''"
definition DEFAULT_GRPC_METRICS_ENDPOINT :: string where
  "DEFAULT_GRPC_METRICS_ENDPOINT = ''http://127.0.0.1:4317''"
definition DEFAULT_HTTP_TRACES_ENDPOINT :: string where
  "DEFAULT_HTTP_TRACES_ENDPOINT = ''http://127.0.0.1:4318/v1/traces''"
definition DEFAULT_HTTP_METRICS_ENDPOINT :: string where
  "DEFAULT_HTTP_METRICS_ENDPOINT = ''http://127.0.0.1:4318/v1/metrics''"
definition DEFAULT_LOGGING :: string where
  "DEFAULT_LOGGING = ''debug,hyper_util=OFF,tower_http=OFF,rmcp=warn,reqwest=warn,rustls=WARN,h2=WARN,'' @
     ''opentelemetry_sdk=WARN,opentelemetry-otlp=WARN''"
definition METRICS_EXPORT_INTERVAL :: int where "METRICS_EXPORT_INTERVAL = 30"

text \<open>What the builders of \<open>SpanExporter\<close> and \<open>MetricExporter\<close> are told; times are in seconds.\<close>

datatype signal = Traces | Metrics

datatype ('k, 'v) exporter =
    GrpcExporter signal string "'k \<rightharpoonup> 'v" int
  | HttpExporter signal string "(string \<rightharpoonup> string) option" int

definition span_exporter ::
  "('k, 'v, ('k, 'v) exporter) telemetry_env \<Rightarrow> observability_config \<Rightarrow> (string \<rightharpoonup> string)
    \<Rightarrow> (('k, 'v) exporter, telemetry_error) result" where
  "span_exporter env configuration headers =
     (case obs_protocol configuration of
        Grpc \<Rightarrow>
          bind_res (headers_to_metadata env headers) (\<lambda>metadata.
          Ok (GrpcExporter Traces (or_default (traces_endpoint configuration) DEFAULT_GRPC_TRACES_ENDPOINT) metadata 3))
      | HttpProtobuf \<Rightarrow>
          Ok (HttpExporter Traces (or_default (traces_endpoint configuration) DEFAULT_HTTP_TRACES_ENDPOINT)
            (if headers \<noteq> Map.empty then Some headers else None) 10))"

definition metric_exporter ::
  "('k, 'v, ('k, 'v) exporter) telemetry_env \<Rightarrow> observability_config \<Rightarrow> (string \<rightharpoonup> string)
    \<Rightarrow> (('k, 'v) exporter, telemetry_error) result" where
  "metric_exporter env configuration headers =
     (case obs_protocol configuration of
        Grpc \<Rightarrow>
          bind_res (headers_to_metadata env headers) (\<lambda>metadata.
          Ok (GrpcExporter Metrics (or_default (metrics_endpoint configuration) DEFAULT_GRPC_METRICS_ENDPOINT) metadata 3))
      | HttpProtobuf \<Rightarrow>
          Ok (HttpExporter Metrics (or_default (metrics_endpoint configuration) DEFAULT_HTTP_METRICS_ENDPOINT)
            (if headers \<noteq> Map.empty then Some headers else None) 10))"

definition built_exporter ::
  "('k, 'v, ('k, 'v) exporter) telemetry_env \<Rightarrow> (('k, 'v) exporter, telemetry_error) result
    \<Rightarrow> (('k, 'v) exporter, telemetry_error) result" where
  "built_exporter env options =
     bind_res options (\<lambda>e. bind_res (map_err ExporterError (build_exporter env e)) (\<lambda>_. Ok e))"

text \<open>What is installed process-wide: the propagator, the meter provider, the layers of the subscriber.\<close>

record ('k, 'v) meter_provider =
  meter_exporter :: "('k, 'v) exporter"
  meter_interval :: int
  meter_service_name :: string

record ('k, 'v) tracer =
  tracer_exporter :: "('k, 'v) exporter"
  tracer_service_name :: string
  tracer_filter :: string

record ('k, 'v) telemetry =
  propagator_installed :: bool
  global_meter :: "('k, 'v) meter_provider option"
  console_filter :: "string option"
  telemetry_layer :: "('k, 'v) tracer option"

definition init_meter_provider ::
  "('k, 'v, ('k, 'v) exporter) telemetry_env \<Rightarrow> observability_config \<Rightarrow> ('k, 'v) telemetry
    \<Rightarrow> ('k, 'v) telemetry \<times> (('k, 'v) meter_provider option, telemetry_error) result" where
  "init_meter_provider env configuration g =
     (if \<not> metrics_enabled configuration then (g, Ok None)
      else case bind_res (map_err HeaderError (parse_otlp_headers (obs_headers configuration))) (\<lambda>headers.
             built_exporter env (metric_exporter env configuration headers)) of
        Err e \<Rightarrow> (g, Err e)
      | Ok exporter \<Rightarrow>
          (let provider = \<lparr>meter_exporter = exporter, meter_interval = METRICS_EXPORT_INTERVAL,
             meter_service_name = service_name configuration\<rparr>
           in (g\<lparr>global_meter := Some provider\<rparr>, Ok (Some provider))))"

definition init_tracing_logging ::
  "('k, 'v, ('k, 'v) exporter) telemetry_env \<Rightarrow> observability_config \<Rightarrow> ('k, 'v) telemetry
    \<Rightarrow> ('k, 'v) telemetry \<times> (('k, 'v) meter_provider option, telemetry_error) result" where
  "init_tracing_logging env configuration g =
     (let console = or_default (env_var env ''RUST_LOG'') DEFAULT_LOGGING;
          tracing = or_default (env_var env ''RUST_TRACE_LOG'') DEFAULT_LOGGING
      in if traces_enabled configuration then
           (case bind_res (map_err HeaderError (parse_otlp_headers (obs_headers configuration))) (\<lambda>headers.
                   built_exporter env (span_exporter env configuration headers)) of
              Err e \<Rightarrow> (g, Err e)
            | Ok exporter \<Rightarrow>
                (case init_meter_provider env configuration (g\<lparr>propagator_installed := True\<rparr>) of
                   (g, Err e) \<Rightarrow> (g, Err e)
                 | (g, Ok provider) \<Rightarrow>
                     (g\<lparr>console_filter := Some console, telemetry_layer := Some \<lparr>tracer_exporter = exporter,
                         tracer_service_name = service_name configuration, tracer_filter = tracing\<rparr>\<rparr>, Ok provider)))
         else (g\<lparr>console_filter := Some console\<rparr>, Ok None))"

text \<open>
  The \<open>Debug\<close> implementations written by hand, as the list of the fields that they show. The other
  records of the configuration hold paths and addresses only.
\<close>

datatype debug_value = DebugText string | DebugOption "string option" | DebugBool bool | DebugNat nat

definition debug_redis_config :: "redis_config \<Rightarrow> string \<times> (string \<times> debug_value) list" where
  "debug_redis_config c =
     (case c of
        PlainText host p \<Rightarrow> (''PlainText'', [(''host'', DebugText host), (''port'', DebugNat p)])
      | Tls host p _ \<Rightarrow> (''Tls'', [(''host'', DebugText host), (''port'', DebugNat p)])
      | MTls host p _ _ _ \<Rightarrow> (''MTls'', [(''host'', DebugText host), (''port'', DebugNat p)]))"

definition debug_observability :: "observability_config \<Rightarrow> string \<times> (string \<times> debug_value) list" where
  "debug_observability c = (''ObservabilityConfig'',
     [(''traces_enabled'', DebugBool (traces_enabled c)), (''traces_endpoint'', DebugOption (traces_endpoint c)),
      (''metrics_enabled'', DebugBool (metrics_enabled c)), (''metrics_endpoint'', DebugOption (metrics_endpoint c)),
      (''protocol'', DebugText (case obs_protocol c of Grpc \<Rightarrow> ''Grpc'' | HttpProtobuf \<Rightarrow> ''HttpProtobuf'')),
      (''headers_configured'', DebugBool (obs_headers c \<noteq> None)), (''service_name'', DebugText (service_name c))])"

section \<open>The header option\<close>

definition otlp_text :: "(string \<times> string) list \<Rightarrow> string" where
  "otlp_text kvs = join_with '','' (map (\<lambda>(k, v). k @ CHR ''='' # v) kvs)"

definition plain_header :: "string \<times> string \<Rightarrow> bool" where
  "plain_header kv \<longleftrightarrow> fst kv \<noteq> [] \<and> trim (fst kv) = fst kv \<and> trim (snd kv) = snd kv \<and> CHR ''='' \<notin> set (fst kv) \<and>
     CHR '','' \<notin> set (fst kv) \<and> CHR '','' \<notin> set (snd kv)"

lemma otlp_entry_plain:
  assumes "plain_header (k, v)"
  shows "otlp_entry (k @ CHR ''='' # v) = Ok (Some (k, v))"
proof -
  have "is_graphic (CHR ''='')" by (simp add: is_graphic_def byte_def)
  then have "list_all (\<lambda>w. CHR ''='' \<notin> set w) white_space" using white_space_not_graphic by (auto simp: list_all_iff)
  then have "trim (k @ CHR ''='' # v) = k @ CHR ''='' # v" using assms trim_join [of k v "CHR ''=''"] by (simp add: plain_header_def)
  moreover have "split_once (\<lambda>c. c = CHR ''='') (k @ CHR ''='' # v) = Some (k, v)"
    using assms split_once_append [of "\<lambda>c. c = CHR ''=''" "CHR ''=''" k v] by (auto simp: plain_header_def)
  ultimately show ?thesis using assms by (simp add: otlp_entry_def plain_header_def Let_def)
qed

lemma otlp_entries_plain:
  "list_all plain_header kvs \<Longrightarrow> otlp_entries (map (\<lambda>(k, v). k @ CHR ''='' # v) kvs) m = Ok (m ++ map_of (rev kvs))"
  by (induction kvs arbitrary: m) (auto simp: otlp_entry_plain map_add_def fun_eq_iff split: option.splits)

text \<open>
  OTLP headers are read back: a list of headers written as \<open>key=value\<close> entries separated by
  commas is read back as that list, the last entry of a key winning; values may contain \<open>=\<close>.
\<close>

theorem parse_otlp_headers_print:
  assumes "list_all plain_header kvs"
  shows "parse_otlp_headers (Some (otlp_text kvs)) = Ok (map_of (rev kvs))"
proof (cases "kvs = []")
  case True
  then show ?thesis by (simp add: parse_otlp_headers_def otlp_text_def otlp_entry_def)
next
  case False
  have "split_on (CHR '','') (otlp_text kvs) = map (\<lambda>(k, v). k @ CHR ''='' # v) kvs"
    unfolding otlp_text_def using assms False
    by (intro split_join) (auto simp: list_all_iff plain_header_def)
  with assms show ?thesis by (simp add: parse_otlp_headers_def otlp_entries_plain)
qed

theorem parse_otlp_headers_print_witness:
  "list_all plain_header [(''k'', ''a='')] \<and>
   parse_otlp_headers (Some ''k=a='') = Ok [''k'' \<mapsto> ''a='']"
proof -
  have "list_all is_graphic ''k''" "list_all is_graphic ''a=''" by (simp_all add: is_graphic_def byte_def)
  then have "list_all plain_header [(''k'', ''a='')]" by (simp add: plain_header_def trim_graphic)
  with parse_otlp_headers_print [OF this] show ?thesis by (simp add: otlp_text_def)
qed

section \<open>What is installed\<close>

definition fresh_telemetry :: "('k, 'v) telemetry" where
  "fresh_telemetry = \<lparr>propagator_installed = False, global_meter = None, console_filter = None, telemetry_layer = None\<rparr>"

text \<open>The headers that an exporter sends, for an accepted header option.\<close>

definition exports ::
  "('k, 'v, ('k, 'v) exporter) telemetry_env \<Rightarrow> observability_config \<Rightarrow> ('k, 'v) exporter \<Rightarrow> bool" where
  "exports env configuration e \<longleftrightarrow>
     (\<exists>headers. parse_otlp_headers (obs_headers configuration) = Ok headers \<and> build_exporter env e = Ok () \<and>
        (case e of
           GrpcExporter _ _ metadata _ \<Rightarrow> obs_protocol configuration = Grpc \<and>
             headers_to_metadata env headers = Ok metadata
         | HttpExporter _ _ sent _ \<Rightarrow> obs_protocol configuration = HttpProtobuf \<and>
             or_default sent Map.empty = headers))"

lemma exporters_export:
  assumes "parse_otlp_headers (obs_headers configuration) = Ok headers"
  shows "built_exporter env (span_exporter env configuration headers) = Ok e \<Longrightarrow> exports env configuration e"
    "built_exporter env (metric_exporter env configuration headers) = Ok e \<Longrightarrow> exports env configuration e"
  using assms
  by (auto simp: built_exporter_def span_exporter_def metric_exporter_def exports_def bind_res_eq_Ok or_default_def
      split: otlp_protocol.splits)

text \<open>
  Telemetry: traces are exported and the propagator is installed exactly when traces are
  enabled, metrics exactly when both switches are on, and each exporter sends the configured headers; when
  a header, a metadata entry or an exporter is invalid, start-up fails with no subscriber installed.
\<close>

theorem telemetry_switches:
  "case init_tracing_logging env configuration fresh_telemetry of
     (g, Ok provider) \<Rightarrow>
       propagator_installed g = traces_enabled configuration \<and>
       (telemetry_layer g \<noteq> None) = traces_enabled configuration \<and>
       pred_option (\<lambda>t. exports env configuration (tracer_exporter t)) (telemetry_layer g) \<and>
       global_meter g = provider \<and>
       (provider \<noteq> None) = (traces_enabled configuration \<and> metrics_enabled configuration) \<and>
       pred_option (\<lambda>m. exports env configuration (meter_exporter m)) provider \<and>
       console_filter g \<noteq> None
   | (g, Err e) \<Rightarrow> traces_enabled configuration \<and> telemetry_layer g = None \<and> console_filter g = None"
proof (cases "traces_enabled configuration")
  case False
  then show ?thesis by (simp add: init_tracing_logging_def fresh_telemetry_def Let_def)
next
  case True
  show ?thesis
  proof (cases "parse_otlp_headers (obs_headers configuration)")
    case (Inl e)
    with True show ?thesis by (simp add: init_tracing_logging_def fresh_telemetry_def Let_def)
  next
    case (Inr headers)
    with True exporters_export [OF Inr, of env] show ?thesis
      by (auto simp: init_tracing_logging_def init_meter_provider_def fresh_telemetry_def Let_def
          split: sum.splits prod.splits)
  qed
qed

text \<open>The log line of start-up does not depend on keys, certificates and header values.\<close>

lemma debug_secret_free:
  "debug_redis_config (MTls host p bundle cert key) = debug_redis_config (MTls host p bundle' cert' key')"
  "debug_observability (c\<lparr>obs_headers := Some h\<rparr>) = debug_observability (c\<lparr>obs_headers := Some h'\<rparr>)"
  by (simp_all add: debug_redis_config_def debug_observability_def)

end
