(* ===== verification/ConfigStore.thy ===== *)
theory ConfigStore
  imports Apis
begin

text \<open>
  Configuration stores (\<open>config_stores\<close>): the trait \<open>ConfigStore\<close>, its keys and errors, and
  \<open>RedisStore\<close>, which reads and writes MessagePack blobs in Redis behind a cache whose entries are
  served while they are younger than \<open>cache_expiry\<close>. Instants and durations are integers in one
  unit. The record \<open>store_env\<close> holds the operations of the crates the store calls: the codec of
  \<open>rmp_serde\<close>, the cache of \<open>lru_time_cache\<close> (type \<open>'c\<close>) and the connection of \<open>redis\<close> (type \<open>'r\<close>).
\<close>

section \<open>Definitions\<close>

datatype config_store_error =
    InvalidConnection | NoDataForKey | DataWrongFormat | DataEncoding | CantWriteData
  | InvalidConfiguration string

definition config_store_error_text :: "config_store_error \<Rightarrow> string" where
  "config_store_error_text e =
     (case e of
        InvalidConnection \<Rightarrow> ''data store disconnected''
      | NoDataForKey \<Rightarrow> ''no data for key''
      | DataWrongFormat \<Rightarrow> ''data in wrong format''
      | DataEncoding \<Rightarrow> ''unable to encode the data''
      | CantWriteData \<Rightarrow> ''unable to write to store''
      | InvalidConfiguration _ \<Rightarrow> ''unable to create client'')"

definition LRU_CACHE_ENTRIES :: int where "LRU_CACHE_ENTRIES = 50000"
definition REDIS_RETRIES :: int where "REDIS_RETRIES = 1000"

record 'v cached_entry =
  inserted_at :: int
  cached_config :: 'v

definition new_entry :: "int \<Rightarrow> 'v \<Rightarrow> 'v cached_entry" where
  "new_entry now config = \<lparr>inserted_at = now, cached_config = config\<rparr>"

definition is_fresh :: "int \<Rightarrow> int \<Rightarrow> 'v cached_entry \<Rightarrow> bool" where
  "is_fresh now expiry entry \<longleftrightarrow> max 0 (now - inserted_at entry) < expiry"

record ('c, 'r, 'k, 'v) store_env =
  key_of :: "'k \<Rightarrow> string"
  encode_key :: "'k \<Rightarrow> string option"
  encode_value :: "'v \<Rightarrow> string option"
  decode_value :: "string \<Rightarrow> 'v option"
  lru_new :: "int \<Rightarrow> int \<Rightarrow> 'c"
  lru_get_mut :: "string \<Rightarrow> 'c \<Rightarrow> 'c \<times> 'v cached_entry option"
  lru_insert :: "string \<Rightarrow> 'v cached_entry \<Rightarrow> 'c \<Rightarrow> 'c"
  redis_get :: "string \<Rightarrow> 'r \<Rightarrow> 'r \<times> string option option"
  redis_set :: "string \<Rightarrow> string \<Rightarrow> 'r \<Rightarrow> 'r \<times> bool"

record ('c, 'r) redis_store =
  connection :: 'r
  cache :: "'c option"
  cache_expiry :: int

text \<open>\<open>RedisStore::new\<close>; \<open>manager\<close> is the connection manager, or \<open>None\<close> when it cannot be made.\<close>

definition new_store ::
  "('c, 'r, 'k, 'v) store_env \<Rightarrow> (int \<Rightarrow> 'r option) \<Rightarrow> int
    \<Rightarrow> (('c, 'r) redis_store, config_store_error) result" where
  "new_store env manager expiry =
     (case manager REDIS_RETRIES of
        None \<Rightarrow> Err InvalidConnection
      | Some conn \<Rightarrow> Ok \<lparr>connection = conn,
          cache = (if expiry \<noteq> 0 then Some (lru_new env expiry LRU_CACHE_ENTRIES) else None),
          cache_expiry = expiry\<rparr>)"

text \<open>
  The three phases of \<open>get_config\<close>, each under its own lock or command: the look-up in the cache,
  the read from Redis, the insertion into the cache.
\<close>

definition cache_lookup ::
  "('c, 'r, 'k, 'v) store_env \<Rightarrow> string \<Rightarrow> int \<Rightarrow> ('c, 'r) redis_store
    \<Rightarrow> ('c, 'r) redis_store \<times> 'v option" where
  "cache_lookup env subject now st =
     (case cache st of
        None \<Rightarrow> (st, None)
      | Some c \<Rightarrow>
          (case lru_get_mut env subject c of
             (c', Some entry) \<Rightarrow>
               (st\<lparr>cache := Some c'\<rparr>,
                if is_fresh now (cache_expiry st) entry then Some (cached_config entry) else None)
           | (c', None) \<Rightarrow> (st\<lparr>cache := Some c'\<rparr>, None)))"

definition load_config ::
  "('c, 'r, 'k, 'v) store_env \<Rightarrow> 'k \<Rightarrow> ('c, 'r) redis_store
    \<Rightarrow> ('c, 'r) redis_store \<times> ('v, config_store_error) result" where
  "load_config env key st =
     (case encode_key env key of
        None \<Rightarrow> (st, Err DataEncoding)
      | Some k \<Rightarrow>
          (case redis_get env k (connection st) of
             (conn, Some (Some blob)) \<Rightarrow>
               (st\<lparr>connection := conn\<rparr>,
                case decode_value env blob of Some v \<Rightarrow> Ok v | None \<Rightarrow> Err DataWrongFormat)
           | (conn, Some None) \<Rightarrow> (st\<lparr>connection := conn\<rparr>, Err NoDataForKey)
           | (conn, None) \<Rightarrow> (st\<lparr>connection := conn\<rparr>, Err NoDataForKey)))"

definition remember ::
  "('c, 'r, 'k, 'v) store_env \<Rightarrow> string \<Rightarrow> 'v \<Rightarrow> int \<Rightarrow> ('c, 'r) redis_store
    \<Rightarrow> ('c, 'r) redis_store" where
  "remember env subject config now st =
     (case cache st of
        None \<Rightarrow> st
      | Some c \<Rightarrow> st\<lparr>cache := Some (lru_insert env subject (new_entry now config) c)\<rparr>)"

definition store_get_config ::
  "('c, 'r, 'k, 'v) store_env \<Rightarrow> int \<Rightarrow> int \<Rightarrow> 'k \<Rightarrow> ('c, 'r) redis_store
    \<Rightarrow> ('c, 'r) redis_store \<times> ('v, config_store_error) result" where
  "store_get_config env t_check t_insert key st =
     (case cache_lookup env (key_of env key) t_check st of
        (st1, Some config) \<Rightarrow> (st1, Ok config)
      | (st1, None) \<Rightarrow>
          (case load_config env key st1 of
             (st2, Err e) \<Rightarrow> (st2, Err e)
           | (st2, Ok config) \<Rightarrow> (remember env (key_of env key) config t_insert st2, Ok config)))"

definition write_config ::
  "('c, 'r, 'k, 'v) store_env \<Rightarrow> 'k \<Rightarrow> 'v \<Rightarrow> ('c, 'r) redis_store
    \<Rightarrow> ('c, 'r) redis_store \<times> (unit, config_store_error) result" where
  "write_config env key config st =
     (case encode_key env key of
        None \<Rightarrow> (st, Err DataEncoding)
      | Some k \<Rightarrow>
          (case encode_value env config of
             None \<Rightarrow> (st, Err DataEncoding)
           | Some encoded \<Rightarrow>
               (case redis_set env k encoded (connection st) of
                  (conn, True) \<Rightarrow> (st\<lparr>connection := conn\<rparr>, Ok ())
                | (conn, False) \<Rightarrow> (st\<lparr>connection := conn\<rparr>, Err CantWriteData))))"

definition store_set_config ::
  "('c, 'r, 'k, 'v) store_env \<Rightarrow> int \<Rightarrow> 'k \<Rightarrow> 'v \<Rightarrow> ('c, 'r) redis_store
    \<Rightarrow> ('c, 'r) redis_store \<times> (unit, config_store_error) result" where
  "store_set_config env t_insert key config st =
     (case write_config env key config st of
        (st1, Ok _) \<Rightarrow> (remember env (key_of env key) config t_insert st1, Ok ())
      | (st1, Err e) \<Rightarrow> (st1, Err e))"

text \<open>\<open>impl Key for User\<close> and \<open>impl Key for GlobalConfigKey\<close>.\<close>

definition user_key_of :: "user \<Rightarrow> string" where
  "user_key_of u = user_key u"

definition global_config_key :: string where
  "global_config_key = ''CONTEXT_FORGE_GLOBAL_CONFIG''"

section \<open>The trait and its contract\<close>

text \<open>
  What a client of \<open>ConfigStore\<close> relies on: a value is served only if the store could serve it in
  its state, and a call fails only with the errors of its kind.
\<close>

locale config_store =
  fixes get :: "'k \<Rightarrow> 's \<Rightarrow> 's \<times> ('v, config_store_error) result"
    and set :: "'k \<Rightarrow> 'v \<Rightarrow> 's \<Rightarrow> 's \<times> (unit, config_store_error) result"
    and serves :: "'s \<Rightarrow> 'k \<Rightarrow> 'v \<Rightarrow> bool"
  assumes get_serves: "get k s = (s', Ok v) \<Longrightarrow> serves s k v"
    and get_errors: "get k s = (s', Err e) \<Longrightarrow> e \<in> {NoDataForKey, DataWrongFormat, DataEncoding}"
    and set_errors: "set k v s = (s', Err e) \<Longrightarrow> e \<in> {DataEncoding, CantWriteData}"
begin

lemma get_nothing:
  assumes "\<And>v. \<not> serves s k v"
  shows "\<exists>s' e. get k s = (s', Err e) \<and> e \<in> {NoDataForKey, DataWrongFormat, DataEncoding}"
proof -
  obtain s' r where g: "get k s = (s', r)" by (cases "get k s")
  with assms get_serves have "\<nexists>v. r = Ok v" by blast
  with g get_errors show ?thesis by (cases r) auto
qed

end

definition cache_serves ::
  "('c, 'r, 'k, 'v) store_env \<Rightarrow> int \<Rightarrow> ('c, 'r) redis_store \<Rightarrow> 'k \<Rightarrow> 'v \<Rightarrow> bool" where
  "cache_serves env now st key v \<longleftrightarrow> snd (cache_lookup env (key_of env key) now st) = Some v"

definition redis_serves ::
  "('c, 'r, 'k, 'v) store_env \<Rightarrow> ('c, 'r) redis_store \<Rightarrow> 'k \<Rightarrow> 'v \<Rightarrow> bool" where
  "redis_serves env st key v \<longleftrightarrow>
     (\<exists>k blob. encode_key env key = Some k \<and>
        snd (redis_get env k (connection st)) = Some (Some blob) \<and> decode_value env blob = Some v)"

lemma cache_lookup_connection [simp]: "connection (fst (cache_lookup env s t st)) = connection st"
  "cache_expiry (fst (cache_lookup env s t st)) = cache_expiry st"
  by (auto simp: cache_lookup_def split: option.splits prod.splits)

lemma load_config_cache [simp]: "cache (fst (load_config env k st)) = cache st"
  "cache_expiry (fst (load_config env k st)) = cache_expiry st"
  by (auto simp: load_config_def split: option.splits prod.splits)

lemma load_config_Ok: "load_config env k st = (st', Ok v) \<Longrightarrow> redis_serves env st k v"
  by (auto simp: load_config_def redis_serves_def split: option.splits prod.splits)

lemma load_config_Err:
  "load_config env k st = (st', Err e) \<Longrightarrow> e \<in> {NoDataForKey, DataWrongFormat, DataEncoding}"
  by (auto simp: load_config_def split: option.splits prod.splits)

lemma write_config_cases:
  obtains "write_config env key v st = (st, Err DataEncoding)"
  | k b conn where "encode_key env key = Some k" "encode_value env v = Some b"
      "redis_set env k b (connection st) = (conn, False)"
      "write_config env key v st = (st\<lparr>connection := conn\<rparr>, Err CantWriteData)"
  | k b conn where "encode_key env key = Some k" "encode_value env v = Some b"
      "redis_set env k b (connection st) = (conn, True)"
      "write_config env key v st = (st\<lparr>connection := conn\<rparr>, Ok ())"
proof (cases "encode_key env key = None \<or> encode_value env v = None")
  case True
  then show ?thesis using that(1) by (auto simp: write_config_def split: option.splits)
next
  case False
  then obtain k b where e: "encode_key env key = Some k" "encode_value env v = Some b" by auto
  obtain conn ok where r: "redis_set env k b (connection st) = (conn, ok)" by fastforce
  show ?thesis using that(2) [OF e] that(3) [OF e] r e by (cases ok) (simp_all add: write_config_def)
qed

lemma redis_serves_connection:
  "connection st = connection st' \<Longrightarrow> redis_serves env st k v = redis_serves env st' k v"
  by (simp add: redis_serves_def)

interpretation redis_config_store: config_store
  "store_get_config env t_check t_insert" "store_set_config env t_insert"
  "\<lambda>st k v. cache_serves env t_check st k v \<or>
     ((\<forall>u. \<not> cache_serves env t_check st k u) \<and> redis_serves env st k v)"
  for env :: "('c, 'r, 'k, 'v) store_env" and t_check t_insert :: int
proof
  fix k and s s' :: "('c, 'r) redis_store" and v
  obtain st1 r where l: "cache_lookup env (key_of env k) t_check s = (st1, r)" by fastforce
  have conn: "connection st1 = connection s"
    using cache_lookup_connection(1) [of env "key_of env k" t_check s] l by simp
  {
    assume g: "store_get_config env t_check t_insert k s = (s', Ok v)"
    show "cache_serves env t_check s k v \<or>
        ((\<forall>u. \<not> cache_serves env t_check s k u) \<and> redis_serves env s k v)"
    proof (cases r)
      case None
      with g l obtain st2 where "load_config env k st1 = (st2, Ok v)"
        by (auto simp: store_get_config_def split: prod.splits sum.splits)
      then have "redis_serves env s k v"
        using load_config_Ok redis_serves_connection [OF conn] by fast
      with None l show ?thesis by (simp add: cache_serves_def)
    next
      case (Some u)
      with g l show ?thesis by (simp add: store_get_config_def cache_serves_def)
    qed
  next
    fix e assume "store_get_config env t_check t_insert k s = (s', Err e)"
    with l show "e \<in> {NoDataForKey, DataWrongFormat, DataEncoding}"
      by (auto simp: store_get_config_def split: option.splits prod.splits sum.splits
          dest!: load_config_Err)
  next
    fix e assume "store_set_config env t_insert k v s = (s', Err e)"
    then show "e \<in> {DataEncoding, CantWriteData}"
      by (cases rule: write_config_cases [of env k v s]) (simp_all add: store_set_config_def)
  }
qed

section \<open>Behaviour of the environment the store relies on\<close>

text \<open>
  The cache returns only entries that were inserted under the key (\<open>held\<close> says which entries a
  cache holds), an entry just inserted is found (the cache has room for one entry and no time has
  passed), Redis returns what was set, and the codec reads back what it wrote.
\<close>

definition cache_laws ::
  "('c, 'r, 'k, 'v) store_env \<Rightarrow> ('c \<Rightarrow> string \<Rightarrow> 'v cached_entry \<Rightarrow> bool) \<Rightarrow> bool" where
  "cache_laws env held \<longleftrightarrow>
     (\<forall>expiry n k e. \<not> held (lru_new env expiry n) k e) \<and>
     (\<forall>k c c' r. lru_get_mut env k c = (c', r) \<longrightarrow>
        (\<forall>k' e. held c' k' e \<longrightarrow> held c k' e) \<and> (\<forall>e. r = Some e \<longrightarrow> held c k e)) \<and>
     (\<forall>k e c k' e'. held (lru_insert env k e c) k' e' \<longrightarrow> (k' = k \<and> e' = e) \<or> held c k' e') \<and>
     (\<forall>k e c. snd (lru_get_mut env k (lru_insert env k e c)) = Some e)"

definition redis_laws :: "('c, 'r, 'k, 'v) store_env \<Rightarrow> bool" where
  "redis_laws env \<longleftrightarrow>
     (\<forall>k v r r'. redis_set env k v r = (r', True) \<longrightarrow> snd (redis_get env k r') = Some (Some v))"

definition codec_laws :: "('c, 'r, 'k, 'v) store_env \<Rightarrow> bool" where
  "codec_laws env \<longleftrightarrow> (\<forall>v b. encode_value env v = Some b \<longrightarrow> decode_value env b = Some v)"

lemma cache_lawsD:
  assumes "cache_laws env held"
  shows "\<not> held (lru_new env expiry n) k e"
    and "lru_get_mut env k c = (c', r) \<Longrightarrow> held c' k' e \<Longrightarrow> held c k' e"
    and "lru_get_mut env k c = (c', Some e) \<Longrightarrow> held c k e"
    and "held (lru_insert env k e c) k' e' \<Longrightarrow> (k' = k \<and> e' = e) \<or> held c k' e'"
    and "lru_get_mut env k (lru_insert env k e c) = (c', r) \<Longrightarrow> r = Some e"
proof -
  note laws = assms [unfolded cache_laws_def, THEN conjunct1]
    assms [unfolded cache_laws_def, THEN conjunct2, THEN conjunct1]
    assms [unfolded cache_laws_def, THEN conjunct2, THEN conjunct2, THEN conjunct1]
    assms [unfolded cache_laws_def, THEN conjunct2, THEN conjunct2, THEN conjunct2]
  show "\<not> held (lru_new env expiry n) k e" using laws(1) by blast
  show "lru_get_mut env k c = (c', r) \<Longrightarrow> held c' k' e \<Longrightarrow> held c k' e" using laws(2) by blast
  show "lru_get_mut env k c = (c', Some e) \<Longrightarrow> held c k e" using laws(2) by blast
  show "held (lru_insert env k e c) k' e' \<Longrightarrow> (k' = k \<and> e' = e) \<or> held c k' e'" using laws(3) by blast
  show "lru_get_mut env k (lru_insert env k e c) = (c', r) \<Longrightarrow> r = Some e"
    using laws(4) by (metis snd_conv)
qed

text \<open>A concrete environment: an association list as the cache, a map as Redis, names as values.\<close>

definition sample_env :: "((string \<times> string cached_entry) list, string \<Rightarrow> string option, user, string) store_env"
  where
  "sample_env = \<lparr>key_of = user_key_of, encode_key = \<lambda>u. Some (user_key u), encode_value = Some,
     decode_value = Some, lru_new = \<lambda>expiry n. [], lru_get_mut = \<lambda>k c. (c, map_of c k),
     lru_insert = \<lambda>k e c. (k, e) # c, redis_get = \<lambda>k r. (r, Some (r k)),
     redis_set = \<lambda>k v r. (r(k \<mapsto> v), True)\<rparr>"

definition sample_held :: "(string \<times> string cached_entry) list \<Rightarrow> string \<Rightarrow> string cached_entry \<Rightarrow> bool" where
  "sample_held c k e \<longleftrightarrow> (k, e) \<in> set c"

lemma sample_env_laws: "cache_laws sample_env sample_held" "redis_laws sample_env" "codec_laws sample_env"
  by (auto simp: cache_laws_def redis_laws_def codec_laws_def sample_env_def sample_held_def
      dest: map_of_SomeD)

section \<open>A written configuration is read back\<close>

text \<open>
  Property C25 (read your writes): after a successful \<open>set_config\<close> at \<open>t\<close>, a \<open>get_config\<close> of the same
  key that checks the clock at or after \<open>t\<close> returns the written configuration, whether the cache is
  enabled, disabled, or its entry has expired by then.
\<close>

theorem store_get_after_set:
  assumes "cache_laws env held" "redis_laws env" "codec_laws env"
    and "store_set_config env t key v st = (st', Ok ())"
  shows "snd (store_get_config env t_check t_insert key st') = Ok v"
proof -
  from assms(4) obtain k b conn where w: "encode_key env key = Some k" "encode_value env v = Some b"
      "redis_set env k b (connection st) = (conn, True)"
    and st': "st' = remember env (key_of env key) v t (st\<lparr>connection := conn\<rparr>)"
    by (cases rule: write_config_cases [of env key v st]) (simp_all add: store_set_config_def)
  have "connection st' = conn" by (simp add: st' remember_def split: option.splits)
  with w assms(2,3) have redis: "redis_serves env st' key v"
    by (simp add: redis_serves_def redis_laws_def codec_laws_def)
  have hit: "cache_serves env t_check st' key u \<Longrightarrow> u = v" for u
    by (auto simp: cache_serves_def cache_lookup_def st' remember_def new_entry_def
        split: option.splits prod.splits if_splits dest!: cache_lawsD(5) [OF assms(1)])
  obtain st1 r where l: "cache_lookup env (key_of env key) t_check st' = (st1, r)" by fastforce
  with cache_lookup_connection(1) [of env "key_of env key" t_check st']
  have "connection st1 = connection st'" by simp
  with redis have "\<exists>u. snd (load_config env key st1) = Ok u"
    by (auto simp: load_config_def redis_serves_def split: option.splits prod.splits)
  with l have "\<exists>u. snd (store_get_config env t_check t_insert key st') = Ok u"
    by (auto simp: store_get_config_def split: option.splits prod.splits)
  then obtain st2 u where g: "store_get_config env t_check t_insert key st' = (st2, Ok u)"
    by (metis prod.collapse)
  from redis_config_store.get_serves [OF g] hit redis show ?thesis
    by (auto simp: g redis_serves_def)
qed

theorem store_get_after_set_witness:
  "store_set_config sample_env 10 (new_user ''ann'') ''cfg'' \<lparr>connection = \<lambda>_. None, cache = Some [], cache_expiry = 300\<rparr>
     = (\<lparr>connection = (\<lambda>_. None)(''ann'' \<mapsto> ''cfg''),
         cache = Some [(''ann'', \<lparr>inserted_at = 10, cached_config = ''cfg''\<rparr>)], cache_expiry = 300\<rparr>, Ok ()) \<and>
   snd (store_get_config sample_env 500 501 (new_user ''ann'')
     \<lparr>connection = (\<lambda>_. None)(''ann'' \<mapsto> ''cfg''),
      cache = Some [(''ann'', \<lparr>inserted_at = 10, cached_config = ''cfg''\<rparr>)], cache_expiry = 300\<rparr>) = Ok ''cfg''"
proof -
  have s: "store_set_config sample_env 10 (new_user ''ann'') ''cfg''
       \<lparr>connection = \<lambda>_. None, cache = Some [], cache_expiry = 300\<rparr>
     = (\<lparr>connection = (\<lambda>_. None)(''ann'' \<mapsto> ''cfg''),
         cache = Some [(''ann'', \<lparr>inserted_at = 10, cached_config = ''cfg''\<rparr>)], cache_expiry = 300\<rparr>, Ok ())"
    by (simp add: store_set_config_def write_config_def remember_def new_entry_def sample_env_def
        new_user_def user_key_of_def)
  show ?thesis using store_get_after_set [OF sample_env_laws s] s by blast
qed

section \<open>Freshness under interleaving\<close>

text \<open>
  Calls of \<open>get_config\<close> and \<open>set_config\<close> run concurrently: between the phases of one call, other
  calls and other writers of Redis take their steps. The state of the machine is the clock, the
  store, the values in flight (loaded or written and not yet in the cache) and, for the statement
  only, the log of values observed in Redis: \<open>(t, subject, v)\<close> means that at instant \<open>t\<close> Redis
  delivered \<open>v\<close> for the key or acknowledged its write.
\<close>

record ('c, 'r, 'v) store_machine =
  clock :: int
  machine_store :: "('c, 'r) redis_store"
  in_flight :: "(string \<times> 'v) list"
  observed :: "(int \<times> string \<times> 'v) list"

inductive store_step ::
  "('c, 'r, 'k, 'v) store_env \<Rightarrow> ('c, 'r, 'v) store_machine \<Rightarrow> ('c, 'r, 'v) store_machine \<Rightarrow> bool"
  for env :: "('c, 'r, 'k, 'v) store_env" where
  tick: "clock m \<le> t \<Longrightarrow> store_step env m (m\<lparr>clock := t\<rparr>)"
| publish: "store_step env m (m\<lparr>machine_store := (machine_store m)\<lparr>connection := r\<rparr>\<rparr>)"
| look_up: "cache_lookup env subject (clock m) (machine_store m) = (st, hit) \<Longrightarrow>
     store_step env m (m\<lparr>machine_store := st\<rparr>)"
| load: "load_config env key (machine_store m) = (st, Ok v) \<Longrightarrow>
     store_step env m (m\<lparr>machine_store := st, in_flight := (key_of env key, v) # in_flight m,
       observed := (clock m, key_of env key, v) # observed m\<rparr>)"
| load_failed: "load_config env key (machine_store m) = (st, Err e) \<Longrightarrow>
     store_step env m (m\<lparr>machine_store := st\<rparr>)"
| stored: "write_config env key v (machine_store m) = (st, Ok ()) \<Longrightarrow>
     store_step env m (m\<lparr>machine_store := st, in_flight := (key_of env key, v) # in_flight m,
       observed := (clock m, key_of env key, v) # observed m\<rparr>)"
| store_failed: "write_config env key v (machine_store m) = (st, Err e) \<Longrightarrow>
     store_step env m (m\<lparr>machine_store := st\<rparr>)"
| cached: "(subject, v) \<in> List.set (in_flight m) \<Longrightarrow>
     store_step env m (m\<lparr>machine_store := remember env subject v (clock m) (machine_store m),
       in_flight := remove1 (subject, v) (in_flight m)\<rparr>)"

inductive store_reachable ::
  "('c, 'r, 'k, 'v) store_env \<Rightarrow> int \<Rightarrow> ('c, 'r, 'v) store_machine \<Rightarrow> bool"
  for env :: "('c, 'r, 'k, 'v) store_env" and expiry :: int where
  start: "new_store env manager expiry = Ok st \<Longrightarrow>
     store_reachable env expiry \<lparr>clock = t, machine_store = st, in_flight = [], observed = []\<rparr>"
| step: "store_reachable env expiry m \<Longrightarrow> store_step env m m' \<Longrightarrow> store_reachable env expiry m'"

definition justified :: "(int \<times> string \<times> 'v) list \<Rightarrow> int \<Rightarrow> string \<Rightarrow> 'v \<Rightarrow> bool" where
  "justified log t subject v \<longleftrightarrow> (\<exists>t0 \<le> t. (t0, subject, v) \<in> List.set log)"

definition store_inv ::
  "('c \<Rightarrow> string \<Rightarrow> 'v cached_entry \<Rightarrow> bool) \<Rightarrow> int \<Rightarrow> ('c, 'r, 'v) store_machine \<Rightarrow> bool" where
  "store_inv held expiry m \<longleftrightarrow>
     cache_expiry (machine_store m) = expiry \<and>
     (\<forall>t0 k v. (t0, k, v) \<in> List.set (observed m) \<longrightarrow> t0 \<le> clock m) \<and>
     (\<forall>k v. (k, v) \<in> List.set (in_flight m) \<longrightarrow> justified (observed m) (clock m) k v) \<and>
     (\<forall>c k e. cache (machine_store m) = Some c \<and> held c k e \<longrightarrow>
        inserted_at e \<le> clock m \<and> justified (observed m) (inserted_at e) k (cached_config e))"

lemma justified_mono: "justified log t k v \<Longrightarrow> t \<le> t' \<Longrightarrow> justified log t' k v"
  unfolding justified_def by (meson order_trans)

lemma justified_Cons: "justified log t k v \<Longrightarrow> justified (x # log) t k v"
  unfolding justified_def by auto

lemma justified_now: "justified ((t, k, v) # log) t k v"
  unfolding justified_def by auto

lemma cache_lookup_held:
  assumes "cache_laws env held" "cache_lookup env s t st = (st', hit)" "cache st' = Some c'" "held c' k e"
  shows "\<exists>c. cache st = Some c \<and> held c k e"
  using assms(2-4)
  by (auto simp: cache_lookup_def split: option.splits prod.splits dest: cache_lawsD(2) [OF assms(1)])

lemma remember_held:
  assumes "cache_laws env held" "cache (remember env s v t st) = Some c'" "held c' k e"
  shows "k = s \<and> e = new_entry t v \<or> (\<exists>c. cache st = Some c \<and> held c k e)"
  using assms(2,3) by (auto simp: remember_def split: option.splits dest: cache_lawsD(4) [OF assms(1)])

lemma store_step_inv:
  assumes "cache_laws env held"
  shows "store_step env m m' \<Longrightarrow> store_inv held expiry m \<Longrightarrow> store_inv held expiry m'"
proof (induction rule: store_step.induct)
  case (tick m t)
  then show ?case
    unfolding store_inv_def by (simp add: split_paired_All) (meson justified_mono order_trans)
next
  case (look_up subject m st hit)
  then show ?case
    using cache_lookup_connection(2) [of env subject "clock m" "machine_store m"]
    unfolding store_inv_def by (auto dest: cache_lookup_held [OF assms look_up.hyps])
next
  case (load key m st v)
  then show ?case
    using load_config_cache [of env key "machine_store m"]
    unfolding store_inv_def by (auto intro: justified_Cons justified_now)
next
  case (load_failed key m st e)
  then show ?case
    using load_config_cache [of env key "machine_store m"] unfolding store_inv_def by auto
next
  case (stored key v m st)
  have "cache st = cache (machine_store m)" "cache_expiry st = cache_expiry (machine_store m)"
    using stored(1) by (cases rule: write_config_cases [of env key v "machine_store m"]; auto)+
  with stored show ?case unfolding store_inv_def by (auto intro: justified_Cons justified_now)
next
  case (store_failed key v m st e)
  have "cache st = cache (machine_store m)" "cache_expiry st = cache_expiry (machine_store m)"
    using store_failed(1) by (cases rule: write_config_cases [of env key v "machine_store m"]; auto)+
  with store_failed show ?case unfolding store_inv_def by auto
next
  case (cached subject v m)
  have "cache_expiry (remember env subject v (clock m) (machine_store m)) = cache_expiry (machine_store m)"
    by (simp add: remember_def split: option.splits)
  moreover have "justified (observed m) (clock m) subject v"
    using cached unfolding store_inv_def by blast
  moreover have "(k, u) \<in> List.set (remove1 (subject, v) (in_flight m)) \<Longrightarrow> (k, u) \<in> List.set (in_flight m)"
    for k u using set_remove1_subset [of "(subject, v)" "in_flight m"] by blast
  ultimately show ?case
    using cached unfolding store_inv_def
    by (auto simp: new_entry_def dest!: remember_held [OF assms])
qed (auto simp: store_inv_def)

lemma store_reachable_inv:
  assumes "cache_laws env held" "store_reachable env expiry m"
  shows "store_inv held expiry m"
  using assms(2)
proof (induction rule: store_reachable.induct)
  case (start manager st t)
  then show ?case
    by (auto simp: store_inv_def new_store_def cache_lawsD(1) [OF assms(1)] split: option.splits if_splits)
next
  case (step m m')
  then show ?case using store_step_inv [OF assms(1)] by blast
qed


text \<open>One run: a load that is cached at 5 is served at 100 under an expiry of 300.\<close>

definition sample_start :: "((string \<times> string cached_entry) list, string \<Rightarrow> string option, string) store_machine"
  where
  "sample_start = \<lparr>clock = 5, machine_store = \<lparr>connection = (\<lambda>_. None)(''ann'' \<mapsto> ''cfg''), cache = Some [],
     cache_expiry = 300\<rparr>, in_flight = [], observed = []\<rparr>"

definition sample_cached :: "((string \<times> string cached_entry) list, string \<Rightarrow> string option, string) store_machine"
  where
  "sample_cached = sample_start\<lparr>clock := 100, machine_store := (machine_store sample_start)\<lparr>
     cache := Some [(''ann'', \<lparr>inserted_at = 5, cached_config = ''cfg''\<rparr>)]\<rparr>,
     observed := [(5, ''ann'', ''cfg'')]\<rparr>"

lemma sample_cached_reachable: "store_reachable sample_env 300 sample_cached"
proof -
  let ?m1 = "sample_start\<lparr>in_flight := [(''ann'', ''cfg'')], observed := [(5, ''ann'', ''cfg'')]\<rparr>"
  let ?m2 = "sample_cached\<lparr>clock := 5\<rparr>"
  have "new_store sample_env (\<lambda>_. Some ((\<lambda>_. None)(''ann'' \<mapsto> ''cfg''))) 300 = Ok (machine_store sample_start)"
    by (simp add: new_store_def sample_env_def sample_start_def)
  from store_reachable.start [OF this, of 5] have r0: "store_reachable sample_env 300 sample_start"
    by (simp add: sample_start_def)
  have "load_config sample_env (new_user ''ann'') (machine_store sample_start) = (machine_store sample_start, Ok ''cfg'')"
    by (simp add: load_config_def sample_env_def sample_start_def new_user_def)
  from store_step.load [OF this] have "store_step sample_env sample_start ?m1"
    by (simp add: sample_start_def sample_env_def user_key_of_def new_user_def)
  with r0 have r1: "store_reachable sample_env 300 ?m1" by (rule store_reachable.step)
  have "store_step sample_env ?m1 ?m2"
    using store_step.cached [of "''ann''" "''cfg''" ?m1 sample_env]
    by (simp add: sample_start_def sample_cached_def remember_def new_entry_def sample_env_def)
  with r1 have r2: "store_reachable sample_env 300 ?m2" by (rule store_reachable.step)
  have "store_step sample_env ?m2 sample_cached"
    using store_step.tick [of ?m2 100 sample_env] by (simp add: sample_cached_def sample_start_def)
  with r2 show ?thesis by (rule store_reachable.step)
qed


text \<open>
  The bound is the best there is: the lock of the cache is not held while Redis is read, and a call that
  loaded an older configuration before a write may insert it after the write has updated the cache. The
  store then serves the older one although its own write has returned, until the entry expires.
\<close>

definition sample_reinserted :: "((string \<times> string cached_entry) list, string \<Rightarrow> string option, string) store_machine"
  where
  "sample_reinserted = sample_start\<lparr>machine_store := (machine_store sample_start)\<lparr>
     connection := (\<lambda>_. None)(''ann'' \<mapsto> ''new''), cache := Some [(''ann'', \<lparr>inserted_at = 5, cached_config = ''cfg''\<rparr>),
       (''ann'', \<lparr>inserted_at = 5, cached_config = ''new''\<rparr>)]\<rparr>, observed := [(5, ''ann'', ''new''), (5, ''ann'', ''cfg'')]\<rparr>"

lemma stale_reinsertion:
  "store_reachable sample_env 300 sample_reinserted \<and>
   redis_serves sample_env (machine_store sample_reinserted) (new_user ''ann'') ''new'' \<and>
   cache_serves sample_env (clock sample_reinserted) (machine_store sample_reinserted) (new_user ''ann'') ''cfg''"
proof (intro conjI)
  let ?m1 = "sample_start\<lparr>in_flight := [(''ann'', ''cfg'')], observed := [(5, ''ann'', ''cfg'')]\<rparr>"
  let ?new = "(machine_store sample_start)\<lparr>connection := (\<lambda>_. None)(''ann'' \<mapsto> ''new'')\<rparr>"
  let ?m2 = "?m1\<lparr>machine_store := ?new, in_flight := [(''ann'', ''new''), (''ann'', ''cfg'')],
    observed := [(5, ''ann'', ''new''), (5, ''ann'', ''cfg'')]\<rparr>"
  let ?m3 = "?m2\<lparr>machine_store := ?new\<lparr>cache := Some [(''ann'', \<lparr>inserted_at = 5, cached_config = ''new''\<rparr>)]\<rparr>,
    in_flight := [(''ann'', ''cfg'')]\<rparr>"
  note [simp] = sample_start_def sample_env_def user_key_of_def new_user_def
  have "new_store sample_env (\<lambda>_. Some ((\<lambda>_. None)(''ann'' \<mapsto> ''cfg''))) 300 = Ok (machine_store sample_start)"
    by (simp add: new_store_def)
  from store_reachable.start [OF this, of 5] have "store_reachable sample_env 300 sample_start" by simp
  moreover have "store_step sample_env sample_start ?m1"
    using store_step.load [of sample_env "new_user ''ann''" sample_start] by (simp add: load_config_def)
  moreover have "store_step sample_env ?m1 ?m2"
    using store_step.stored [of sample_env "new_user ''ann''" "''new''" ?m1] by (simp add: write_config_def)
  moreover have "store_step sample_env ?m2 ?m3"
    using store_step.cached [of "''ann''" "''new''" ?m2 sample_env] by (simp add: remember_def new_entry_def)
  moreover have "store_step sample_env ?m3 sample_reinserted"
    using store_step.cached [of "''ann''" "''cfg''" ?m3 sample_env]
    by (simp add: remember_def new_entry_def sample_reinserted_def)
  ultimately show "store_reachable sample_env 300 sample_reinserted" by (blast intro: store_reachable.step)
qed (simp_all add: redis_serves_def cache_serves_def cache_lookup_def is_fresh_def sample_reinserted_def
  sample_start_def sample_env_def user_key_of_def new_user_def)

end
