(* ===== verification/Authorization.thy ===== *)
theory Authorization
  imports Apis
begin

text \<open>
  Authorization (\<open>authorization\<close>): bearer tokens verified against the keys of a remote JWKS with a
  cache of five minutes, and the extraction of the principal from verified claims. The record
  \<open>jwt_env\<close> holds the operations of \<open>jsonwebtoken\<close>, \<open>serde_json\<close>, \<open>reqwest\<close> and the cache:
  decoding keys have type \<open>'d\<close>, caches \<open>'c\<close>, the network \<open>'n\<close>. Instants are integers.
\<close>

section \<open>Definitions\<close>

definition JWKS_CACHE_TTL :: int where "JWKS_CACHE_TTL = 5 * 60"
definition JWKS_CACHE_KEY :: string where "JWKS_CACHE_KEY = ''jwks''"
definition JWKS_MAX_RESPONSE_BYTES :: int where "JWKS_MAX_RESPONSE_BYTES = 1024 * 1024"

datatype authorization_error =
    NoSupportedKeys | InvalidJson | InvalidKey | InsecureJwksUrl | JwksRequest
  | ReadJwksCaCertificate string | InvalidJwksCaCertificate string | EmptyJwksCaCertificate string
  | JwksResponseTooLarge

text \<open>The values of \<open>jsonwebtoken\<close> that the code inspects.\<close>

datatype alg_family = Hmac | Rsa | Ec | Ed
datatype public_key_use = Signature | Encryption | OtherUse string
datatype key_operation = Verify | OtherOperation string

record 'j jwk =
  public_key_use :: "public_key_use option"
  key_operations :: "key_operation list option"
  jwk_key_id :: "string option"
  jwk_material :: 'j

record jwt_header =
  alg :: string
  kid :: "string option"

record validation =
  val_alg :: string
  required_spec_claims :: "string list"
  validate_aud :: bool
  validate_exp :: bool
  validate_nbf :: bool

record 'd verification_key =
  key_id :: "string option"
  decoding_key :: 'd

text \<open>A response: whether its status is a success, the declared length and the chunks of its body.\<close>

record jwks_response =
  status_ok :: bool
  content_length :: "int option"
  chunks :: "string option list"

record ('d, 'j, 'c, 'n) jwt_env =
  key_from_jwk :: "'j jwk \<Rightarrow> 'd option"
  key_family :: "'d \<Rightarrow> alg_family"
  family_of_alg :: "string \<Rightarrow> alg_family"
  decode_header :: "string \<Rightarrow> jwt_header option"
  decode_token :: "int \<Rightarrow> string \<Rightarrow> 'd \<Rightarrow> validation \<Rightarrow> json option"
  parse_jwk_set :: "string \<Rightarrow> 'j jwk list option"
  cache_peek :: "int \<Rightarrow> string \<Rightarrow> 'c \<Rightarrow> 'd verification_key list option"
  cache_insert :: "int \<Rightarrow> string \<Rightarrow> 'd verification_key list \<Rightarrow> 'c \<Rightarrow> 'c"
  http_get :: "url \<Rightarrow> 'n \<Rightarrow> 'n \<times> jwks_response option"

record ('c, 'n) jwks =
  jwks_network :: 'n
  jwks_url :: url
  jwks_cache :: 'c
  validate_audience :: bool
  validate_expiry :: bool
  validate_not_before :: bool

definition validation_for :: "('c, 'n) jwks \<Rightarrow> string \<Rightarrow> validation" where
  "validation_for jw a = \<lparr>val_alg = a, required_spec_claims = [], validate_aud = validate_audience jw,
     validate_exp = validate_expiry jw, validate_nbf = validate_not_before jw\<rparr>"

definition key_from :: "('d, 'j, 'c, 'n) jwt_env \<Rightarrow> 'j jwk
    \<Rightarrow> ('d verification_key option, authorization_error) result" where
  "key_from env j =
     (if (case public_key_use j of Some u \<Rightarrow> u \<noteq> Signature | None \<Rightarrow> False) \<or>
         (case key_operations j of Some ops \<Rightarrow> Verify \<notin> set ops | None \<Rightarrow> False)
      then Ok None
      else case key_from_jwk env j of
        None \<Rightarrow> Err InvalidKey
      | Some d \<Rightarrow>
          if key_family env d \<noteq> Rsa \<and> key_family env d \<noteq> Ec then Ok None
          else Ok (Some \<lparr>key_id = jwk_key_id j, decoding_key = d\<rparr>))"

definition matches :: "('d, 'j, 'c, 'n) jwt_env \<Rightarrow> jwt_header \<Rightarrow> 'd verification_key \<Rightarrow> bool" where
  "matches env header key \<longleftrightarrow>
     key_family env (decoding_key key) = family_of_alg env (alg header) \<and>
     (case kid header of None \<Rightarrow> True
      | Some h \<Rightarrow> (case key_id key of None \<Rightarrow> True | Some k \<Rightarrow> k = h))"

definition validate_and_decode_claims ::
  "('d, 'j, 'c, 'n) jwt_env \<Rightarrow> int \<Rightarrow> string \<Rightarrow> 'd \<Rightarrow> validation \<Rightarrow> json option" where
  "validate_and_decode_claims env now token key v = decode_token env now token key v"

fun find_map :: "('a \<Rightarrow> 'b option) \<Rightarrow> 'a list \<Rightarrow> 'b option" where
  "find_map f [] = None"
| "find_map f (x # xs) = (case f x of Some y \<Rightarrow> Some y | None \<Rightarrow> find_map f xs)"

definition validate_with_keys ::
  "('d, 'j, 'c, 'n) jwt_env \<Rightarrow> int \<Rightarrow> 'd verification_key list \<Rightarrow> string \<Rightarrow> jwt_header \<Rightarrow> validation
    \<Rightarrow> json option" where
  "validate_with_keys env now keys token header v =
     find_map (\<lambda>key. validate_and_decode_claims env now token (decoding_key key) v)
       (filter (matches env header) keys)"

fun collect_keys ::
  "('d, 'j, 'c, 'n) jwt_env \<Rightarrow> 'j jwk list \<Rightarrow> 'd verification_key list
    \<Rightarrow> ('d verification_key list, authorization_error) result" where
  "collect_keys env [] keys = Ok keys"
| "collect_keys env (j # js) keys =
     bind_res (key_from env j)
       (\<lambda>r. case r of Some key \<Rightarrow> collect_keys env js (keys @ [key]) | None \<Rightarrow> collect_keys env js keys)"

definition validated_json_web_keys ::
  "('d, 'j, 'c, 'n) jwt_env \<Rightarrow> 'j jwk list \<Rightarrow> ('d verification_key list, authorization_error) result"
  where
  "validated_json_web_keys env js =
     bind_res (collect_keys env js []) (\<lambda>keys. if keys = [] then Err NoSupportedKeys else Ok keys)"

fun read_body :: "string option list \<Rightarrow> string \<Rightarrow> (string, authorization_error) result" where
  "read_body [] body = Ok body"
| "read_body (None # rest) body = Err JwksRequest"
| "read_body (Some chunk # rest) body =
     (if int (length chunk) > saturating_sub JWKS_MAX_RESPONSE_BYTES (int (length body))
      then Err JwksResponseTooLarge else read_body rest (body @ chunk))"

definition keys_of_response ::
  "('d, 'j, 'c, 'n) jwt_env \<Rightarrow> jwks_response option
    \<Rightarrow> ('d verification_key list, authorization_error) result" where
  "keys_of_response env reply =
     bind_res (case reply of
         Some r \<Rightarrow> if status_ok r then Ok r else Err JwksRequest
       | None \<Rightarrow> Err JwksRequest)
     (\<lambda>r. if (case content_length r of Some n \<Rightarrow> n > JWKS_MAX_RESPONSE_BYTES | None \<Rightarrow> False)
          then Err JwksResponseTooLarge
          else bind_res (read_body (chunks r) [])
            (\<lambda>body. bind_res (ok_or InvalidJson (parse_jwk_set env body))
              (\<lambda>js. if js = [] then Ok [] else validated_json_web_keys env js)))"

definition fetch_jwks ::
  "('d, 'j, 'c, 'n) jwt_env \<Rightarrow> url \<Rightarrow> 'n
    \<Rightarrow> 'n \<times> ('d verification_key list, authorization_error) result" where
  "fetch_jwks env u net = (case http_get env u net of (net', reply) \<Rightarrow> (net', keys_of_response env reply))"

text \<open>\<open>Jwks::validate\<close> at instant \<open>now\<close>: a cached key set is used when one of its keys matches.\<close>

definition validate ::
  "('d, 'j, 'c, 'n) jwt_env \<Rightarrow> int \<Rightarrow> string \<Rightarrow> jwt_header \<Rightarrow> ('c, 'n) jwks
    \<Rightarrow> ('c, 'n) jwks \<times> json option" where
  "validate env now token header jw =
     (let v = validation_for jw (alg header);
          refresh = (case fetch_jwks env (jwks_url jw) (jwks_network jw) of
              (net, Ok keys) \<Rightarrow>
                (jw\<lparr>jwks_network := net,
                    jwks_cache := cache_insert env now JWKS_CACHE_KEY keys (jwks_cache jw)\<rparr>,
                 validate_with_keys env now keys token header v)
            | (net, Err e) \<Rightarrow> (jw\<lparr>jwks_network := net\<rparr>, None))
      in case cache_peek env now JWKS_CACHE_KEY (jwks_cache jw) of
           Some keys \<Rightarrow>
             if list_ex (matches env header) keys
             then (jw, validate_with_keys env now keys token header v) else refresh
         | None \<Rightarrow> refresh)"

definition authorize_token ::
  "('d, 'j, 'c, 'n) jwt_env \<Rightarrow> int \<Rightarrow> string \<Rightarrow> ('c, 'n) jwks \<Rightarrow> ('c, 'n) jwks \<times> json option" where
  "authorize_token env now token jw =
     (case decode_header env token of None \<Rightarrow> (jw, None) | Some h \<Rightarrow> validate env now token h jw)"

definition authorize ::
  "('d, 'j, 'c, 'n) jwt_env \<Rightarrow> int \<Rightarrow> string \<Rightarrow> ('c, 'n) jwks \<Rightarrow> ('c, 'n) jwks \<times> json option" where
  "authorize env now header_value jw =
     (case strip_prefix ''Bearer '' header_value of
        None \<Rightarrow> (jw, None)
      | Some token \<Rightarrow> if utf8_valid token then authorize_token env now token jw else (jw, None))"

text \<open>
  \<open>parse_jwks_url\<close>, over the scheme and the host of the URL; \<open>loopback\<close> parses an IP address and
  says whether it is a loopback address.
\<close>

definition parse_jwks_url ::
  "(url \<Rightarrow> string) \<Rightarrow> (url \<Rightarrow> string option) \<Rightarrow> (string \<Rightarrow> bool option) \<Rightarrow> url
    \<Rightarrow> (url, authorization_error) result" where
  "parse_jwks_url scheme host loopback u =
     (let secure = (scheme u = ''https'');
          local_http = (scheme u = ''http'' \<and>
            (case host u of None \<Rightarrow> False
             | Some h \<Rightarrow> eq_ignore_ascii_case h ''localhost'' \<or> loopback h = Some True))
      in if \<not> secure \<and> \<not> local_http then Err InsecureJwksUrl else Ok u)"

definition load_ca_certificates ::
  "(string \<Rightarrow> string option) \<Rightarrow> (string \<Rightarrow> 'x list option) \<Rightarrow> string
    \<Rightarrow> ('x list, authorization_error) result" where
  "load_ca_certificates read_file pem_bundle path =
     bind_res (ok_or (ReadJwksCaCertificate path) (read_file path))
       (\<lambda>pem. bind_res (ok_or (InvalidJwksCaCertificate path) (pem_bundle pem))
         (\<lambda>certs. if certs = [] then Err (EmptyJwksCaCertificate path) else Ok certs))"

text \<open>
  \<open>from_jwks_url\<close>: \<open>build\<close> makes the client from the optional certificates and the three timeouts
  of the source; the JWKS starts with an empty cache and the builder's defaults.
\<close>

definition JWKS_REQUEST_TIMEOUT :: int where "JWKS_REQUEST_TIMEOUT = 10"
definition JWKS_CONNECT_TIMEOUT :: int where "JWKS_CONNECT_TIMEOUT = 5"
definition JWKS_READ_TIMEOUT :: int where "JWKS_READ_TIMEOUT = 5"

definition from_jwks_url ::
  "(url \<Rightarrow> string) \<Rightarrow> (url \<Rightarrow> string option) \<Rightarrow> (string \<Rightarrow> bool option) \<Rightarrow> (string \<Rightarrow> string option)
    \<Rightarrow> (string \<Rightarrow> 'x list option) \<Rightarrow> ('x list option \<Rightarrow> int \<Rightarrow> int \<Rightarrow> int \<Rightarrow> 'n option) \<Rightarrow> (int \<Rightarrow> 'c)
    \<Rightarrow> url \<Rightarrow> string option \<Rightarrow> (('c, 'n) jwks, authorization_error) result" where
  "from_jwks_url scheme host loopback read_file pem_bundle build new_cache u ca_path =
     bind_res (parse_jwks_url scheme host loopback u)
       (\<lambda>u. bind_res (case ca_path of
              Some path \<Rightarrow> bind_res (load_ca_certificates read_file pem_bundle path) (\<lambda>cs. Ok (Some cs))
            | None \<Rightarrow> Ok None)
         (\<lambda>certs. bind_res (ok_or JwksRequest (build certs JWKS_CONNECT_TIMEOUT JWKS_READ_TIMEOUT JWKS_REQUEST_TIMEOUT))
           (\<lambda>client. Ok \<lparr>jwks_network = client, jwks_url = u, jwks_cache = new_cache JWKS_CACHE_TTL,
              validate_audience = False, validate_expiry = True, validate_not_before = True\<rparr>)))"

text \<open>Principals.\<close>

record authorized_principal =
  principal_user_id :: string
  principal_tenant_id :: string
  principal_scopes :: "string list"

definition user_from_principal :: "authorized_principal \<Rightarrow> user" where
  "user_from_principal p = new_user (principal_user_id p)"

datatype principal_error =
    CantCreatePrincipal | FileReadError string | CompilationError string | EvaluationError string
  | InvalidReturnType json | MissingRequiredField string | InvalidFieldType string string

definition default_extract :: "json \<Rightarrow> (authorized_principal, principal_error) result" where
  "default_extract claims =
     (let user_id = Option.bind (find_map (json_get claims) [''sub'', ''user_id'', ''UserId'']) as_str;
          tenant_id = Option.bind (find_map (json_get claims) [''tenantId'', ''tenant_id'']) as_str
      in case (user_id, tenant_id) of
           (Some u, Some t) \<Rightarrow>
             Ok \<lparr>principal_user_id = u, principal_tenant_id = t, principal_scopes = []\<rparr>
         | _ \<Rightarrow> Err CantCreatePrincipal)"

text \<open>The results of a CEL program that the code tells apart.\<close>

datatype cel_value = CelString string | CelMap "(string \<times> cel_value) list" | CelOther

definition principal_from_cel :: "cel_value \<Rightarrow> (authorized_principal, principal_error) result" where
  "principal_from_cel v =
     (case v of
        CelMap m \<Rightarrow>
          (case map_of m ''user_id'' of
             Some (CelString u) \<Rightarrow>
               (case map_of m ''tenant_id'' of
                  Some (CelString t) \<Rightarrow>
                    Ok \<lparr>principal_user_id = u, principal_tenant_id = t, principal_scopes = []\<rparr>
                | _ \<Rightarrow> Err (InvalidReturnType JNull))
           | _ \<Rightarrow> Err (InvalidReturnType JNull))
      | _ \<Rightarrow> Err (InvalidReturnType JNull))"

text \<open>
  The extractor evaluates the compiled program \<open>'p\<close> with the single variable \<open>claims\<close>; adding the
  variable and the execution may fail.
\<close>

definition cel_extract ::
  "(json \<Rightarrow> ('x, string) result) \<Rightarrow> ('p \<Rightarrow> 'x \<Rightarrow> (cel_value, string) result) \<Rightarrow> 'p \<Rightarrow> json
    \<Rightarrow> (authorized_principal, principal_error) result" where
  "cel_extract add_claims execute program claims =
     bind_res (map_err (\<lambda>e. EvaluationError (''Failed to add claims variable: '' @ e)) (add_claims claims))
       (\<lambda>ctx. bind_res (map_err EvaluationError (execute program ctx)) principal_from_cel)"

definition cel_from_expression ::
  "(string \<Rightarrow> ('p, string) result) \<Rightarrow> string \<Rightarrow> ('p, principal_error) result" where
  "cel_from_expression compile expression = map_err CompilationError (compile expression)"

definition cel_from_file ::
  "(string \<Rightarrow> (string, string) result) \<Rightarrow> (string \<Rightarrow> ('p, string) result) \<Rightarrow> string
    \<Rightarrow> ('p, principal_error) result" where
  "cel_from_file read_file compile path =
     bind_res (map_err FileReadError (read_file path)) (cel_from_expression compile)"

section \<open>Which keys verify a token\<close>

text \<open>
  A key set is sound when every key is an asymmetric key of the RSA or EC family, made from a JWK
  that is meant for verifying signatures.
\<close>

definition signing_jwk :: "'j jwk \<Rightarrow> bool" where
  "signing_jwk j \<longleftrightarrow> (public_key_use j = None \<or> public_key_use j = Some Signature) \<and>
     (case key_operations j of None \<Rightarrow> True | Some ops \<Rightarrow> Verify \<in> set ops)"

definition sound_key :: "('d, 'j, 'c, 'n) jwt_env \<Rightarrow> 'd verification_key \<Rightarrow> bool" where
  "sound_key env key \<longleftrightarrow> key_family env (decoding_key key) \<in> {Rsa, Ec} \<and>
     (\<exists>j. signing_jwk j \<and> key_from_jwk env j = Some (decoding_key key) \<and> jwk_key_id j = key_id key)"

lemma find_map_Some: "find_map f xs = Some y \<Longrightarrow> \<exists>x \<in> set xs. f x = Some y"
  by (induction xs) (auto split: option.splits)

lemma find_map_None: "find_map f xs = None \<longleftrightarrow> (\<forall>x \<in> set xs. f x = None)"
  by (induction xs) (auto split: option.splits)

lemma key_from_Some:
  assumes "key_from env j = Ok (Some key)"
  shows "sound_key env key"
proof -
  from assms have "signing_jwk j" unfolding key_from_def signing_jwk_def
    by (simp split: if_splits option.splits)
  moreover from assms obtain d where "key_from_jwk env j = Some d" "key_family env d \<in> {Rsa, Ec}"
      "key = \<lparr>key_id = jwk_key_id j, decoding_key = d\<rparr>"
    unfolding key_from_def by (simp split: if_splits option.splits)
  ultimately show ?thesis unfolding sound_key_def by auto
qed

lemma collect_keys_sound:
  "collect_keys env js keys = Ok keys' \<Longrightarrow> k \<in> set keys' \<Longrightarrow> k \<in> set keys \<or> sound_key env k"
proof (induction js arbitrary: keys)
  case (Cons j js)
  from Cons.prems(1) obtain r where r: "key_from env j = Ok r"
    "(case r of Some key \<Rightarrow> collect_keys env js (keys @ [key]) | None \<Rightarrow> collect_keys env js keys) = Ok keys'"
    by (auto simp: bind_res_eq_Ok)
  show ?case
  proof (cases r)
    case None
    with r(2) Cons.IH [of keys] Cons.prems(2) show ?thesis by simp
  next
    case (Some key)
    with r Cons.IH [of "keys @ [key]"] Cons.prems(2) show ?thesis by (auto dest: key_from_Some)
  qed
qed simp

lemma validated_json_web_keys_sound:
  "validated_json_web_keys env js = Ok keys \<Longrightarrow> key \<in> set keys \<Longrightarrow> sound_key env key"
  unfolding validated_json_web_keys_def bind_res_eq_Ok
  by (auto split: if_splits dest: collect_keys_sound)

lemma keys_of_response_sound:
  assumes "keys_of_response env reply = Ok keys" "key \<in> set keys"
  shows "sound_key env key"
proof -
  from assms(1) have "keys = [] \<or> (\<exists>js. validated_json_web_keys env js = Ok keys)"
    unfolding keys_of_response_def by (auto simp: bind_res_eq_Ok split: if_splits)
  with assms(2) show ?thesis by (auto dest: validated_json_web_keys_sound)
qed

text \<open>The cache returns only key sets that were inserted; \<open>held\<close> says which ones it holds.\<close>

definition jwks_cache_laws ::
  "('d, 'j, 'c, 'n) jwt_env \<Rightarrow> ('c \<Rightarrow> 'd verification_key list \<Rightarrow> bool) \<Rightarrow> bool" where
  "jwks_cache_laws env held \<longleftrightarrow>
     (\<forall>now k c keys. cache_peek env now k c = Some keys \<longrightarrow> held c keys) \<and>
     (\<forall>now k keys c keys'. held (cache_insert env now k keys c) keys' \<longrightarrow> keys' = keys \<or> held c keys')"

definition jwks_inv ::
  "('d, 'j, 'c, 'n) jwt_env \<Rightarrow> ('c \<Rightarrow> 'd verification_key list \<Rightarrow> bool) \<Rightarrow> ('c, 'n) jwks \<Rightarrow> bool" where
  "jwks_inv env held jw \<longleftrightarrow> (\<forall>keys. held (jwks_cache jw) keys \<longrightarrow> (\<forall>key \<in> set keys. sound_key env key))"

lemma validate_with_keys_Some:
  "validate_with_keys env now keys token header v = Some claims \<Longrightarrow>
   \<exists>key \<in> set keys. matches env header key \<and> decode_token env now token (decoding_key key) v = Some claims"
  unfolding validate_with_keys_def validate_and_decode_claims_def by (auto dest!: find_map_Some)

text \<open>The two outcomes of \<open>validate\<close> that leave the cache alone, and the refresh.\<close>

lemma validate_cases:
  assumes "validate env now token header jw = (jw', r)"
  obtains (cached) keys where "cache_peek env now JWKS_CACHE_KEY (jwks_cache jw) = Some keys" "jw' = jw"
      "r = validate_with_keys env now keys token header (validation_for jw (alg header))"
  | (refreshed) net keys where "fetch_jwks env (jwks_url jw) (jwks_network jw) = (net, Ok keys)"
      "jwks_cache jw' = cache_insert env now JWKS_CACHE_KEY keys (jwks_cache jw)"
      "r = validate_with_keys env now keys token header (validation_for jw (alg header))"
  | (failed) net e where "fetch_jwks env (jwks_url jw) (jwks_network jw) = (net, Err e)"
      "jwks_cache jw' = jwks_cache jw" "r = None"
  using assms unfolding validate_def Let_def
  by (auto split: option.splits if_splits prod.splits sum.splits)

lemma authorize_cases:
  assumes "authorize env now value jw = (jw', r)"
  obtains (rejected) "jw' = jw" "r = None"
  | (checked) token header where "value = ''Bearer '' @ token" "utf8_valid token"
      "decode_header env token = Some header" "validate env now token header jw = (jw', r)"
  using assms unfolding authorize_def authorize_token_def
  by (auto simp: strip_prefix_Some split: option.splits if_splits)

lemma fetch_jwks_sound:
  "fetch_jwks env u net = (net', Ok keys) \<Longrightarrow> key \<in> set keys \<Longrightarrow> sound_key env key"
  unfolding fetch_jwks_def by (auto split: prod.splits dest: keys_of_response_sound)

lemma authorize_inv:
  assumes "jwks_cache_laws env held" "jwks_inv env held jw" "authorize env now value jw = (jw', r)"
  shows "jwks_inv env held jw'"
  using assms(3)
proof (cases rule: authorize_cases)
  case rejected
  then show ?thesis using assms(2) by simp
next
  case (checked token header)
  from checked(4) show ?thesis
  proof (cases rule: validate_cases)
    case (cached keys)
    then show ?thesis using assms(2) by simp
  next
    case (refreshed net keys)
    then show ?thesis
      using assms(1,2) fetch_jwks_sound unfolding jwks_inv_def jwks_cache_laws_def by metis
  next
    case (failed net e)
    then show ?thesis using assms(2) by (simp add: jwks_inv_def)
  qed
qed

text \<open>A sequence of requests, each with the instant at which it is checked.\<close>

fun authorize_all ::
  "('d, 'j, 'c, 'n) jwt_env \<Rightarrow> (int \<times> string) list \<Rightarrow> ('c, 'n) jwks \<Rightarrow> ('c, 'n) jwks" where
  "authorize_all env [] jw = jw"
| "authorize_all env ((now, value) # reqs) jw = authorize_all env reqs (fst (authorize env now value jw))"

lemma authorize_all_inv:
  "jwks_cache_laws env held \<Longrightarrow> jwks_inv env held jw \<Longrightarrow> jwks_inv env held (authorize_all env reqs jw)"
proof (induction reqs arbitrary: jw)
  case (Cons req reqs)
  obtain jw' r where a: "authorize env (fst req) (snd req) jw = (jw', r)" by fastforce
  from authorize_inv [OF Cons.prems this] have "jwks_inv env held jw'" .
  with Cons.IH [OF Cons.prems(1)] a show ?case by (cases req) simp
qed simp

lemma authorize_accepts:
  assumes "jwks_cache_laws env held" "jwks_inv env held jw" "authorize env now value jw = (jw', Some claims)"
  shows "\<exists>token header key. value = ''Bearer '' @ token \<and> utf8_valid token \<and>
     decode_header env token = Some header \<and> family_of_alg env (alg header) \<in> {Rsa, Ec} \<and>
     sound_key env key \<and> matches env header key \<and>
     decode_token env now token (decoding_key key) (validation_for jw (alg header)) = Some claims"
proof -
  have sound: "cache_peek env now JWKS_CACHE_KEY (jwks_cache jw) = Some keys \<Longrightarrow> key \<in> set keys \<Longrightarrow>
      sound_key env key" for keys key
    using assms(1,2) unfolding jwks_inv_def jwks_cache_laws_def by blast
  from assms(3) show ?thesis
  proof (cases rule: authorize_cases)
    case (checked token header)
    let ?v = "validation_for jw (alg header)"
    from checked(4) obtain keys where k: "validate_with_keys env now keys token header ?v = Some claims"
      and s: "\<And>key. key \<in> set keys \<Longrightarrow> sound_key env key"
    proof (cases rule: validate_cases)
      case (cached keys)
      with that [of keys] sound show ?thesis by simp
    next
      case (refreshed net keys)
      with that [of keys] fetch_jwks_sound show ?thesis by metis
    qed simp
    from validate_with_keys_Some [OF k] s obtain key where "sound_key env key" "matches env header key"
        "decode_token env now token (decoding_key key) ?v = Some claims" by blast
    with checked show ?thesis by (auto simp: matches_def sound_key_def)
  qed simp
qed

text \<open>What is validated (audience, expiry, not-before) is fixed when the service is made.\<close>

lemma authorize_validation: "validation_for (fst (authorize env now value jw)) = validation_for jw"
  by (auto simp: fun_eq_iff validation_for_def authorize_def authorize_token_def validate_def Let_def
      split: option.splits prod.splits sum.splits)


text \<open>A service that publishes one RSA key, and accepts any token that carries its name.\<close>

definition sample_jwt :: "(string, string, string verification_key list option, nat) jwt_env" where
  "sample_jwt = \<lparr>key_from_jwk = \<lambda>j. Some (jwk_material j),
     key_family = \<lambda>d. if d = ''rsa'' then Rsa else Hmac,
     family_of_alg = \<lambda>a. if a = ''RS256'' then Rsa else Hmac,
     decode_header = \<lambda>t. Some \<lparr>alg = (if t = ''hmac'' then ''HS256'' else ''RS256''), kid = None\<rparr>,
     decode_token = \<lambda>now t d v. if t = d then Some (JObject [(''sub'', JString ''ann'')]) else None,
     parse_jwk_set = \<lambda>body. Some (if body = ''keys'' then
        [\<lparr>public_key_use = Some Signature, key_operations = None, jwk_key_id = None, jwk_material = ''rsa''\<rparr>,
         \<lparr>public_key_use = None, key_operations = None, jwk_key_id = None, jwk_material = ''hmac''\<rparr>] else []),
     cache_peek = \<lambda>now k c. c, cache_insert = \<lambda>now k keys c. Some keys,
     http_get = \<lambda>u n. (Suc n, Some \<lparr>status_ok = True, content_length = None, chunks = [Some ''ke'', Some ''ys'']\<rparr>)\<rparr>"

definition sample_jwks :: "(string verification_key list option, nat) jwks" where
  "sample_jwks = \<lparr>jwks_network = 0, jwks_url = ''https://idp/jwks'', jwks_cache = None,
     validate_audience = False, validate_expiry = True, validate_not_before = True\<rparr>"

lemma sample_jwt_laws: "jwks_cache_laws sample_jwt (\<lambda>c keys. c = Some keys)"
  by (simp add: jwks_cache_laws_def sample_jwt_def)


section \<open>The size of a key set\<close>

lemma read_body_Ok:
  assumes "int (length body) \<le> JWKS_MAX_RESPONSE_BYTES"
  shows "read_body cs body = Ok result \<longleftrightarrow>
    (\<exists>parts. cs = map Some parts \<and> result = body @ concat parts \<and>
       int (length result) \<le> JWKS_MAX_RESPONSE_BYTES)"
  using assms
proof (induction cs body rule: read_body.induct)
  case (3 chunk rest body)
  show ?case
  proof (cases "int (length chunk) > saturating_sub JWKS_MAX_RESPONSE_BYTES (int (length body))")
    case True
    then have "int (length (body @ chunk @ xs)) > JWKS_MAX_RESPONSE_BYTES" for xs
      using 3(2) by (simp add: saturating_sub_def)
    with True show ?thesis by (auto simp: Cons_eq_map_conv simp flip: not_less)
  next
    case False
    then have "int (length (body @ chunk)) \<le> JWKS_MAX_RESPONSE_BYTES"
      using 3(2) by (simp add: saturating_sub_def max_def split: if_splits)
    from 3(1) [OF False this] False show ?thesis by (auto simp: Cons_eq_map_conv)
  qed
qed (auto simp: Cons_eq_map_conv)

text \<open>
  Property C32 (bounded key sets): the keys of a response are read only from a body that arrives
  completely, is the concatenation of the received chunks and is at most one MiB long, both declared
  and actual; a longer body is refused before its excess is stored.
\<close>

theorem keys_of_response_bounded:
  assumes "keys_of_response env reply = Ok keys"
  shows "\<exists>r parts. reply = Some r \<and> status_ok r \<and> chunks r = map Some parts \<and>
     int (length (concat parts)) \<le> JWKS_MAX_RESPONSE_BYTES \<and>
     (\<forall>n. content_length r = Some n \<longrightarrow> n \<le> JWKS_MAX_RESPONSE_BYTES) \<and>
     (\<exists>js. parse_jwk_set env (concat parts) = Some js)"
proof -
  let ?long = "\<lambda>r. case content_length r of Some n \<Rightarrow> n > JWKS_MAX_RESPONSE_BYTES | None \<Rightarrow> False"
  from assms obtain r where r: "reply = Some r" "status_ok r" "\<not> ?long r"
    and rest: "bind_res (read_body (chunks r) []) (\<lambda>body. bind_res (ok_or InvalidJson (parse_jwk_set env body))
        (\<lambda>js. if js = [] then Ok [] else validated_json_web_keys env js)) = Ok keys"
    unfolding keys_of_response_def by (cases reply) (simp_all add: bind_res_eq_Ok split: if_splits)
  from rest obtain body js where "read_body (chunks r) [] = Ok body" "parse_jwk_set env body = Some js"
    unfolding bind_res_eq_Ok ok_or_eq_Ok by blast
  moreover from r(3) have "\<forall>n. content_length r = Some n \<longrightarrow> n \<le> JWKS_MAX_RESPONSE_BYTES" by auto
  moreover note r(1,2)
  moreover have "int (length []) \<le> JWKS_MAX_RESPONSE_BYTES" by (simp add: JWKS_MAX_RESPONSE_BYTES_def)
  ultimately show ?thesis using read_body_Ok [of "[]" "chunks r" body] by auto
qed

theorem keys_of_response_bounded_witness:
  "keys_of_response sample_jwt (snd (http_get sample_jwt ''u'' 0)) =
     Ok [\<lparr>key_id = None, decoding_key = ''rsa''\<rparr>] \<and>
   (\<exists>r parts. snd (http_get sample_jwt ''u'' 0) = Some r \<and> chunks r = map Some parts \<and>
      int (length (concat parts)) \<le> JWKS_MAX_RESPONSE_BYTES)"
proof -
  have k: "keys_of_response sample_jwt (snd (http_get sample_jwt ''u'' 0)) =
     Ok [\<lparr>key_id = None, decoding_key = ''rsa''\<rparr>]" by code_simp
  from keys_of_response_bounded [OF this] k show ?thesis by blast
qed

text \<open>
  Key rotation: when no cached key matches a token's header, the key set is fetched
  before the token is judged; a fetched set replaces the cached one and judges the token, and a
  failed fetch rejects the token and keeps the cached set.
\<close>

theorem validate_rotation:
  assumes "pred_option (list_all (\<lambda>key. \<not> matches env header key)) (cache_peek env now JWKS_CACHE_KEY (jwks_cache jw))"
    and "fetch_jwks env (jwks_url jw) (jwks_network jw) = (net, fetched)"
  shows "validate env now token header jw =
     (case fetched of
        Ok keys \<Rightarrow> (jw\<lparr>jwks_network := net,
             jwks_cache := cache_insert env now JWKS_CACHE_KEY keys (jwks_cache jw)\<rparr>,
           validate_with_keys env now keys token header (validation_for jw (alg header)))
      | Err e \<Rightarrow> (jw\<lparr>jwks_network := net\<rparr>, None))"
  using assms by (auto simp: validate_def Let_def list_ex_iff list_all_iff split: option.splits sum.splits)

theorem validate_rotation_witness:
  "pred_option (list_all (\<lambda>key. \<not> matches sample_jwt \<lparr>alg = ''RS256'', kid = None\<rparr> key))
     (cache_peek sample_jwt 3 JWKS_CACHE_KEY (jwks_cache sample_jwks)) \<and>
   jwks_cache (fst (validate sample_jwt 3 ''rsa'' \<lparr>alg = ''RS256'', kid = None\<rparr> sample_jwks)) =
     Some [\<lparr>key_id = None, decoding_key = ''rsa''\<rparr>]"
proof -
  have none: "pred_option (list_all (\<lambda>key. \<not> matches sample_jwt \<lparr>alg = ''RS256'', kid = None\<rparr> key))
     (cache_peek sample_jwt 3 JWKS_CACHE_KEY (jwks_cache sample_jwks))"
    by (simp add: sample_jwt_def sample_jwks_def)
  have fetched: "fetch_jwks sample_jwt (jwks_url sample_jwks) (jwks_network sample_jwks) =
      (1, Ok [\<lparr>key_id = None, decoding_key = ''rsa''\<rparr>])" by code_simp
  show ?thesis
    using none by (simp add: validate_rotation [OF none fetched]) (simp add: sample_jwt_def)
qed

section \<open>Principal extractors\<close>

text \<open>
  The trait \<open>PrincipalExtractor\<close>: a principal comes without scopes, and its user is the key under
  which the configuration is read.
\<close>

locale principal_extractor =
  fixes extract_principal :: "json \<Rightarrow> (authorized_principal, principal_error) result"
  assumes no_scopes: "extract_principal claims = Ok p \<Longrightarrow> principal_scopes p = []"
begin

lemma extracted:
  "extract_principal claims = Ok p \<Longrightarrow>
   p = \<lparr>principal_user_id = user_key (user_from_principal p),
        principal_tenant_id = principal_tenant_id p, principal_scopes = []\<rparr>"
  using no_scopes by (simp add: user_from_principal_def new_user_def)

end

interpretation default_extractor: principal_extractor default_extract
  by unfold_locales (auto simp: default_extract_def Let_def split: option.splits)

lemma principal_from_cel_scopes: "principal_from_cel v = Ok p \<Longrightarrow> principal_scopes p = []"
  by (auto simp: principal_from_cel_def split: cel_value.splits option.splits)

interpretation cel_extractor: principal_extractor "cel_extract add_claims execute program"
  for add_claims :: "json \<Rightarrow> ('x, string) result" and execute :: "'p \<Rightarrow> 'x \<Rightarrow> (cel_value, string) result" and program
  by unfold_locales
    (auto simp: cel_extract_def bind_res_eq_Ok dest: principal_from_cel_scopes)

definition first_claim :: "json_object \<Rightarrow> string list \<Rightarrow> json option" where
  "first_claim claims names =
     (case filter (\<lambda>n. map_of claims n \<noteq> None) names of [] \<Rightarrow> None | n # _ \<Rightarrow> map_of claims n)"

lemma find_map_first_claim: "find_map (json_get (JObject claims)) names = first_claim claims names"
  by (induction names) (auto simp: first_claim_def split: option.splits)

text \<open>
  Default principal: the default extractor accepts exactly the claim objects in which
  the first of \<open>sub\<close>, \<open>user_id\<close>, \<open>UserId\<close> that is present and the first of \<open>tenantId\<close>,
  \<open>tenant_id\<close> that is present are strings, and the principal is made of those two; a claim of the
  wrong type is never skipped in favour of a later name.
\<close>

theorem default_extract_iff:
  "default_extract claims = Ok p \<longleftrightarrow>
     (\<exists>kvs u t. claims = JObject kvs \<and>
        first_claim kvs [''sub'', ''user_id'', ''UserId''] = Some (JString u) \<and>
        first_claim kvs [''tenantId'', ''tenant_id''] = Some (JString t) \<and>
        p = \<lparr>principal_user_id = u, principal_tenant_id = t, principal_scopes = []\<rparr>)"
proof (cases "as_object claims")
  case None
  then have "find_map (json_get claims) names = None" for names
    by (simp add: find_map_None json_get_def)
  with None show ?thesis by (auto simp: default_extract_def simp del: find_map.simps)
next
  case (Some kvs)
  then show ?thesis
    by (auto simp: default_extract_def Let_def find_map_first_claim bind_eq_Some_conv
        simp del: find_map.simps split: option.splits)
qed

end
