(* ===== verification/Middleware.thy ===== *)
theory Middleware
  imports HeaderLimits ConfigStore Authorization
begin

text \<open>
  The middleware stack of the gateway (\<open>errors.rs\<close>, \<open>layers\<close> and the router built by
  \<open>Gateway::into_router\<close> in \<open>lib.rs\<close>). A service takes the world \<open>'w\<close> (everything that the
  authorization service, the configuration store and the MCP service keep or talk to) and a request
  and returns the new world and a reply. The typed request extensions that the layers exchange are
  optional fields of the request.
\<close>

section \<open>Definitions\<close>

record http_response =
  resp_status :: nat
  resp_content_type :: string
  resp_body :: string

text \<open>A handler replies or panics.\<close>

datatype reply = Reply http_response | Panicked

definition custom_error :: "nat \<Rightarrow> string \<Rightarrow> reply" where
  "custom_error status message =
     Reply \<lparr>resp_status = status, resp_content_type = ''text/plain'', resp_body = message\<rparr>"

definition unauthorized_response :: "string \<Rightarrow> reply" where
  "unauthorized_response message = custom_error 401 message"

definition bad_request :: "string \<Rightarrow> reply" where
  "bad_request message = custom_error 400 message"

definition internal_server_error :: "string \<Rightarrow> reply" where
  "internal_server_error message = custom_error 500 message"

record http_request =
  req_method :: string
  req_path :: string
  req_headers :: header_map
  req_body :: string
  ext_virtual_host_id :: "string option"
  ext_claims :: "json option"
  ext_principal :: "authorized_principal option"
  ext_user_config :: "user_config option"

type_synonym 'w service = "'w \<Rightarrow> http_request \<Rightarrow> 'w \<times> reply"
type_synonym 'w layer = "'w service \<Rightarrow> 'w service"

record 'w app_state =
  app_authorize :: "string \<Rightarrow> 'w \<Rightarrow> 'w \<times> json option"
  app_get_config :: "user \<Rightarrow> 'w \<Rightarrow> 'w \<times> (user_config, config_store_error) result"

text \<open>\<open>mcp_header_limits_layer\<close>\<close>

definition mcp_header_limits_layer :: "standard_header_limits \<Rightarrow> 'w layer" where
  "mcp_header_limits_layer limits run w request =
     (case exceeded_limits (req_headers request) limits of
        Some usage \<Rightarrow> (w, custom_error 431 ''MCP standard header limits exceeded'')
      | None \<Rightarrow> run w request)"

text \<open>
  \<open>extract_virtual_host_id\<close>: the slice between the prefix and the suffix is taken by byte
  positions, and panics when the start lies beyond the end.
\<close>

datatype slice_panic = SlicePanic

definition byte_slice :: "string \<Rightarrow> int \<Rightarrow> int \<Rightarrow> (string, slice_panic) result" where
  "byte_slice s lo hi =
     (if lo \<le> hi \<and> 0 \<le> lo \<and> hi \<le> int (length s)
      then Ok (take (nat (hi - lo)) (drop (nat lo) s)) else Err SlicePanic)"

definition extract_virtual_host_id :: "string \<Rightarrow> (string option, slice_panic) result" where
  "extract_virtual_host_id path =
     (if strip_prefix ''/servers/'' path \<noteq> None then
        (if strip_suffix ''/mcp'' path \<noteq> None then
           bind_res (byte_slice path (int (length ''/servers/'')) (int (length path) - int (length ''/mcp'')))
             (\<lambda>vh. Ok (Some vh))
         else Ok None)
      else Ok None)"

definition virtual_host_id_layer :: "'w layer" where
  "virtual_host_id_layer run w request =
     (case extract_virtual_host_id (req_path request) of
        Ok (Some vh) \<Rightarrow> run w (request\<lparr>ext_virtual_host_id := Some vh\<rparr>)
      | Ok None \<Rightarrow> (w, bad_request ''Problem occured retrieving the configuration'')
      | Err _ \<Rightarrow> (w, Panicked))"

definition header_get :: "header_map \<Rightarrow> string \<Rightarrow> string option" where
  "header_get headers name = (case get_all headers name of [] \<Rightarrow> None | v # _ \<Rightarrow> Some v)"

definition claims_layer :: "'w app_state \<Rightarrow> 'w layer" where
  "claims_layer state run w request =
     (case header_get (req_headers request) ''authorization'' of
        None \<Rightarrow> (w, unauthorized_response ''No header'')
      | Some authorization \<Rightarrow>
          (case app_authorize state authorization w of
             (w, None) \<Rightarrow> (w, unauthorized_response ''Invalid token'')
           | (w, Some claims) \<Rightarrow> run w (request\<lparr>ext_claims := Some claims\<rparr>)))"

definition principal_extractor_layer ::
  "(json \<Rightarrow> (authorized_principal, principal_error) result) \<Rightarrow> 'w layer" where
  "principal_extractor_layer extractor run w request =
     (case map_option extractor (ext_claims request) of
        Some (Ok who) \<Rightarrow> run w (request\<lparr>ext_principal := Some who\<rparr>)
      | _ \<Rightarrow>
        (w, unauthorized_response ''Invalid token. Unable to extract the principal from claims''))"

definition user_config_store_layer :: "'w app_state \<Rightarrow> 'w layer" where
  "user_config_store_layer state run w request =
     (case ext_principal request of
        Some who \<Rightarrow>
          (case app_get_config state (user_from_principal who) w of
             (w, Ok config) \<Rightarrow> run w (request\<lparr>ext_user_config := Some config\<rparr>)
           | (w, Err NoDataForKey) \<Rightarrow>
               (w, bad_request ''Problem occurred retrieving the configuration'')
           | (w, Err _) \<Rightarrow>
               (w, internal_server_error ''Problem occurred retrieving the configuration''))
      | None \<Rightarrow> (w, bad_request ''No claims in the token''))"

definition has_virtual_host :: "user_config \<Rightarrow> string \<Rightarrow> bool" where
  "has_virtual_host config vh \<longleftrightarrow> map_of (virtual_hosts config) vh \<noteq> None"

definition SERVER_NOT_FOUND_BODY :: string where
  "SERVER_NOT_FOUND_BODY = ''{'' @ [CHR 34] @ ''detail'' @ [CHR 34] @ '':'' @ [CHR 34] @
     ''Server not found'' @ [CHR 34] @ ''}''"

definition server_not_found_response :: reply where
  "server_not_found_response = Reply \<lparr>resp_status = 404, resp_content_type = ''application/json'',
     resp_body = SERVER_NOT_FOUND_BODY\<rparr>"

definition virtual_host_config_layer :: "'w layer" where
  "virtual_host_config_layer run w request =
     (case (ext_virtual_host_id request, ext_user_config request) of
        (Some vh, Some config) \<Rightarrow>
          if \<not> has_virtual_host config vh then (w, server_not_found_response) else run w request
      | _ \<Rightarrow> run w request)"

text \<open>
  The MCP route of \<open>into_router\<close>: \<open>layer\<close> wraps what was built before, so the layer added last
  runs first. The outer service sees the path without the nesting prefix.
\<close>

definition mcp_route ::
  "standard_header_limits \<Rightarrow> 'w app_state \<Rightarrow> (json \<Rightarrow> (authorized_principal, principal_error) result)
    \<Rightarrow> 'w service \<Rightarrow> 'w service" where
  "mcp_route limits state extractor mcp_service =
     (let app = virtual_host_config_layer mcp_service;
          app = user_config_store_layer state app;
          app = principal_extractor_layer extractor app;
          app = claims_layer state app;
          app = virtual_host_id_layer app
      in mcp_header_limits_layer limits app)"

definition health :: reply where
  "health = Reply \<lparr>resp_status = 200, resp_content_type = ''application/json'',
     resp_body = ''{'' @ [CHR 34] @ ''status'' @ [CHR 34] @ '': '' @ [CHR 34] @ ''healthy'' @ [CHR 34] @ ''}''\<rparr>"

section \<open>The path of a virtual host\<close>

lemma slice_middle: "byte_slice (a @ b @ c) (int (length a)) (int (length (a @ b @ c)) - int (length c)) = Ok b"
  by (simp add: byte_slice_def)

lemma prefix_suffix_middle:
  "p @ a = b @ q \<Longrightarrow> length p \<le> length b \<Longrightarrow> \<exists>c. b = p @ c \<and> a = c @ q"
  by (auto simp: append_eq_append_conv2)

lemma prefix_suffix_overlap:
  "p @ a = b @ q \<Longrightarrow> length b < length p \<Longrightarrow> \<exists>us. us \<noteq> [] \<and> p = b @ us \<and> q = us @ a"
  by (auto simp: append_eq_append_conv2)

lemma overlap_path:
  assumes "''/servers/'' @ a = b @ ''/mcp''" "length b < 9"
  shows "a = ''mcp''"
proof -
  from prefix_suffix_overlap [OF assms(1)] assms(2) obtain us where us: "us \<noteq> []"
      "''/servers/'' = b @ us" "''/mcp'' = us @ a" by auto
  have len: "length us \<in> {1, 2, 3, 4}"
  proof -
    have "length us \<noteq> 0" "length us \<le> 4" using us(1) arg_cong [OF us(3), of length] by simp_all
    then have "length us = 1 \<or> length us = 2 \<or> length us = 3 \<or> length us = 4" by linarith
    then show ?thesis by simp
  qed
  have "length b = 9 - length us" using arg_cong [OF us(2), of length] by simp
  moreover have "us = drop (length b) ''/servers/''" using us(2) by simp
  ultimately have "us = drop (9 - length us) ''/servers/''" by simp
  moreover have "us = take (length us) ''/mcp''" using us(3) by simp
  ultimately have "length us = 1" using len by auto
  with us(1,3) show ?thesis by (cases us) auto
qed

lemma extract_virtual_host_id_cases:
  "(extract_virtual_host_id path = Ok (Some vh) \<longleftrightarrow> path = ''/servers/'' @ vh @ ''/mcp'') \<and>
   (extract_virtual_host_id path = Err SlicePanic \<longleftrightarrow> path = ''/servers/mcp'')"
proof (cases "(\<exists>a. path = ''/servers/'' @ a) \<and> (\<exists>b. path = b @ ''/mcp'')")
  case False
  then have "extract_virtual_host_id path = Ok None"
    by (auto simp: extract_virtual_host_id_def strip_prefix_Some strip_suffix_Some)
  moreover have "path \<noteq> ''/servers/mcp''" using False by (metis append_Cons append_Nil append.assoc)
  moreover have "path \<noteq> ''/servers/'' @ vh @ ''/mcp''" using False by (metis append.assoc)
  ultimately show ?thesis by simp
next
  case True
  then obtain a b where ab: "path = ''/servers/'' @ a" "path = b @ ''/mcp''" by blast
  have e: "extract_virtual_host_id path = bind_res (byte_slice path 9 (int (length path) - 4)) (\<lambda>vh. Ok (Some vh))"
  proof -
    from ab have "strip_prefix ''/servers/'' path = Some a" "strip_suffix ''/mcp'' path = Some b"
      by (simp_all only: strip_prefix_Some strip_suffix_Some)
    then show ?thesis by (simp add: extract_virtual_host_id_def)
  qed
  show ?thesis
  proof (cases "length b < 9")
    case True
    with ab overlap_path [of a b] have p: "path = ''/servers/mcp''" by simp
    then have "byte_slice path 9 (int (length path) - 4) = Err SlicePanic" by (simp add: byte_slice_def)
    with e p show ?thesis by simp
  next
    case False
    with ab prefix_suffix_middle [of "''/servers/''" a b "''/mcp''"] obtain c
      where c: "path = ''/servers/'' @ c @ ''/mcp''" by auto
    have "byte_slice path 9 (int (length path) - 4) = Ok c"
      using slice_middle [of "''/servers/''" c "''/mcp''"] c by simp
    with e c show ?thesis by (auto simp: bind_res_eq_Ok)
  qed
qed

text \<open>
  Virtual host of a path: the virtual host id of a path is the text between
  \<open>/servers/\<close> and the final \<open>/mcp\<close>; every other path is refused, except \<open>/servers/mcp\<close>, in which
  the prefix and the suffix overlap and the slice panics.
\<close>

theorem extract_virtual_host_id_spec:
  "(extract_virtual_host_id path = Ok (Some vh) \<longleftrightarrow> path = ''/servers/'' @ vh @ ''/mcp'') \<and>
   (extract_virtual_host_id path = Err SlicePanic \<longleftrightarrow> path = ''/servers/mcp'')"
  by (rule extract_virtual_host_id_cases)

section \<open>Layers as an interface\<close>

text \<open>
  A layer decides about a request, possibly changing the world: it replies itself, or it passes the
  request on with more extensions. \<open>decide\<close> is that decision; the message itself is never changed.
\<close>

type_synonym 'w decision = "'w \<Rightarrow> http_request \<Rightarrow> 'w \<times> (reply + http_request)"

definition same_message :: "http_request \<Rightarrow> http_request \<Rightarrow> bool" where
  "same_message r r' \<longleftrightarrow> req_method r' = req_method r \<and> req_path r' = req_path r \<and>
     req_headers r' = req_headers r \<and> req_body r' = req_body r"

definition follow :: "'w decision \<Rightarrow> 'w layer" where
  "follow decide run w r =
     (case decide w r of (w', Inl rep) \<Rightarrow> (w', rep) | (w', Inr r') \<Rightarrow> run w' r')"

definition decide_then :: "'w decision \<Rightarrow> 'w decision \<Rightarrow> 'w decision" where
  "decide_then d e w r =
     (case d w r of (w', Inl rep) \<Rightarrow> (w', Inl rep) | (w', Inr r') \<Rightarrow> e w' r')"

lemma same_message_trans: "same_message a b \<Longrightarrow> same_message b c \<Longrightarrow> same_message a c"
  by (simp add: same_message_def)

locale gate_layer =
  fixes lay :: "'w layer"
    and decide :: "'w decision"
  assumes follows: "lay run w r = follow decide run w r"
    and message: "decide w r = (w', Inr r') \<Longrightarrow> same_message r r'"
begin

lemma refusal: "decide w r = (w', Inl rep) \<Longrightarrow> lay run w r = (w', rep)"
  by (simp add: follows follow_def)

lemma passage: "decide w r = (w', Inr r') \<Longrightarrow> lay run w r = run w' r'"
  by (simp add: follows follow_def)

text \<open>A layer whose answer depends on the inner service has passed the request on.\<close>

lemma inner_reached:
  assumes "lay run w r \<noteq> lay run' w r"
  shows "\<exists>w' r'. decide w r = (w', Inr r') \<and> same_message r r'"
proof -
  obtain w' d where d: "decide w r = (w', d)" by fastforce
  with assms refusal show ?thesis by (cases d) (auto dest: message)
qed

end

locale gate_layers = outer: gate_layer lay1 decide1 + inner: gate_layer lay2 decide2
  for lay1 :: "'w layer" and decide1 :: "'w decision" and lay2 :: "'w layer" and decide2 :: "'w decision"

sublocale gate_layers \<subseteq> both: gate_layer "\<lambda>run. lay1 (lay2 run)" "decide_then decide1 decide2"
proof
  fix run w r
  show "lay1 (lay2 run) w r = follow (decide_then decide1 decide2) run w r"
    by (simp add: outer.follows follow_def inner.follows decide_then_def split: prod.splits sum.splits)
next
  fix w r w' r'
  assume "decide_then decide1 decide2 w r = (w', Inr r')"
  then show "same_message r r'"
    by (auto simp: decide_then_def split: prod.splits sum.splits
        intro: same_message_trans dest: outer.message inner.message)
qed

definition limits_decision :: "standard_header_limits \<Rightarrow> 'w decision" where
  "limits_decision limits w r = (w, case exceeded_limits (req_headers r) limits of
     Some _ \<Rightarrow> Inl (custom_error 431 ''MCP standard header limits exceeded'') | None \<Rightarrow> Inr r)"

definition host_decision :: "'w decision" where
  "host_decision w r = (w, case extract_virtual_host_id (req_path r) of
     Ok (Some vh) \<Rightarrow> Inr (r\<lparr>ext_virtual_host_id := Some vh\<rparr>)
   | Ok None \<Rightarrow> Inl (bad_request ''Problem occured retrieving the configuration'')
   | Err _ \<Rightarrow> Inl Panicked)"

definition claims_decision :: "'w app_state \<Rightarrow> 'w decision" where
  "claims_decision state w r =
     (case header_get (req_headers r) ''authorization'' of
        None \<Rightarrow> (w, Inl (unauthorized_response ''No header''))
      | Some value \<Rightarrow>
          (case app_authorize state value w of
             (w', None) \<Rightarrow> (w', Inl (unauthorized_response ''Invalid token''))
           | (w', Some claims) \<Rightarrow> (w', Inr (r\<lparr>ext_claims := Some claims\<rparr>))))"

definition principal_decision ::
  "(json \<Rightarrow> (authorized_principal, principal_error) result) \<Rightarrow> 'w decision" where
  "principal_decision extractor w r =
     (w, case map_option extractor (ext_claims r) of
        Some (Ok p) \<Rightarrow> Inr (r\<lparr>ext_principal := Some p\<rparr>)
      | _ \<Rightarrow> Inl (unauthorized_response
          ''Invalid token. Unable to extract the principal from claims''))"

definition config_decision :: "'w app_state \<Rightarrow> 'w decision" where
  "config_decision state w r =
     (case ext_principal r of
        None \<Rightarrow> (w, Inl (bad_request ''No claims in the token''))
      | Some p \<Rightarrow>
          (case app_get_config state (user_from_principal p) w of
             (w', Ok config) \<Rightarrow> (w', Inr (r\<lparr>ext_user_config := Some config\<rparr>))
           | (w', Err e) \<Rightarrow> (w', Inl ((if e = NoDataForKey then bad_request else internal_server_error)
               ''Problem occurred retrieving the configuration''))))"

definition presence_decision :: "'w decision" where
  "presence_decision w r = (w, case (ext_virtual_host_id r, ext_user_config r) of
     (Some vh, Some config) \<Rightarrow> if has_virtual_host config vh then Inr r else Inl server_not_found_response
   | _ \<Rightarrow> Inr r)"

interpretation limits_layer: gate_layer "mcp_header_limits_layer limits" "limits_decision limits" for limits
  by unfold_locales (auto simp: mcp_header_limits_layer_def limits_decision_def follow_def same_message_def
      split: option.splits)

interpretation host_layer: gate_layer virtual_host_id_layer host_decision
  by unfold_locales (auto simp: virtual_host_id_layer_def host_decision_def follow_def same_message_def
      split: option.splits sum.splits)

interpretation claims: gate_layer "claims_layer state" "claims_decision state" for state
  by unfold_locales (auto simp: claims_layer_def claims_decision_def follow_def same_message_def
      split: option.splits prod.splits)

interpretation principal_layer: gate_layer "principal_extractor_layer extractor" "principal_decision extractor"
  for extractor
  by unfold_locales (auto simp: principal_extractor_layer_def principal_decision_def follow_def same_message_def
      split: option.splits sum.splits)

interpretation config_layer: gate_layer "user_config_store_layer state" "config_decision state" for state
  by unfold_locales (auto simp: user_config_store_layer_def config_decision_def follow_def same_message_def
      split: option.splits prod.splits sum.splits config_store_error.splits)

interpretation presence_layer: gate_layer virtual_host_config_layer presence_decision
  by unfold_locales (auto simp: virtual_host_config_layer_def presence_decision_def follow_def same_message_def
      split: option.splits if_splits)

text \<open>The stack, composed from the inside out.\<close>

definition store_decision :: "'w app_state \<Rightarrow> 'w decision" where
  "store_decision state = decide_then (config_decision state) presence_decision"

definition user_decision ::
  "'w app_state \<Rightarrow> (json \<Rightarrow> (authorized_principal, principal_error) result) \<Rightarrow> 'w decision" where
  "user_decision state extractor =
     decide_then (claims_decision state) (decide_then (principal_decision extractor) (store_decision state))"

definition route_decision ::
  "standard_header_limits \<Rightarrow> 'w app_state \<Rightarrow> (json \<Rightarrow> (authorized_principal, principal_error) result)
    \<Rightarrow> 'w decision" where
  "route_decision limits state extractor =
     decide_then (limits_decision limits) (decide_then host_decision (user_decision state extractor))"

interpretation store_stack: gate_layers "user_config_store_layer state" "config_decision state"
  virtual_host_config_layer presence_decision for state
  by unfold_locales

interpretation principal_stack: gate_layers "principal_extractor_layer extractor" "principal_decision extractor"
  "\<lambda>run. user_config_store_layer state (virtual_host_config_layer run)"
  "decide_then (config_decision state) presence_decision" for extractor state
  by unfold_locales

interpretation user_stack: gate_layers "claims_layer state" "claims_decision state"
  "\<lambda>run. principal_extractor_layer extractor (user_config_store_layer state (virtual_host_config_layer run))"
  "decide_then (principal_decision extractor) (decide_then (config_decision state) presence_decision)"
  for extractor state
  by unfold_locales

interpretation host_stack: gate_layers virtual_host_id_layer host_decision
  "\<lambda>run. claims_layer state
     (principal_extractor_layer extractor (user_config_store_layer state (virtual_host_config_layer run)))"
  "user_decision state extractor" for extractor state
  unfolding user_decision_def store_decision_def by unfold_locales

interpretation route_stack: gate_layers "mcp_header_limits_layer limits" "limits_decision limits"
  "\<lambda>run. virtual_host_id_layer (claims_layer state
     (principal_extractor_layer extractor (user_config_store_layer state (virtual_host_config_layer run))))"
  "decide_then host_decision (user_decision state extractor)" for limits extractor state
  by unfold_locales

lemma mcp_route_follows:
  "mcp_route limits state extractor run w r = follow (route_decision limits state extractor) run w r"
  unfolding mcp_route_def Let_def route_decision_def by (rule route_stack.both.follows)

section \<open>Admission\<close>

text \<open>
  What the stack is for, stated without layers: the limits hold, the path names a virtual host, the
  \<open>Authorization\<close> header is accepted, the claims name a principal, the store has the user's
  configuration and the virtual host is in it. An admitted request carries all four extensions.
\<close>

definition admission ::
  "standard_header_limits \<Rightarrow> 'w app_state \<Rightarrow> (json \<Rightarrow> (authorized_principal, principal_error) result)
    \<Rightarrow> 'w \<Rightarrow> http_request \<Rightarrow> 'w \<Rightarrow> http_request \<Rightarrow> bool" where
  "admission limits state extractor w r w' r' \<longleftrightarrow>
     (\<exists>vh value claims p config w1.
        exceeded_limits (req_headers r) limits = None \<and>
        req_path r = ''/servers/'' @ vh @ ''/mcp'' \<and>
        header_get (req_headers r) ''authorization'' = Some value \<and>
        app_authorize state value w = (w1, Some claims) \<and>
        extractor claims = Ok p \<and>
        app_get_config state (new_user (principal_user_id p)) w1 = (w', Ok config) \<and>
        map_of (virtual_hosts config) vh \<noteq> None \<and>
        r' = r\<lparr>ext_virtual_host_id := Some vh, ext_claims := Some claims, ext_principal := Some p,
               ext_user_config := Some config\<rparr>)"

lemmas extract_host = extract_virtual_host_id_cases [THEN conjunct1]

lemma route_decision_Inr:
  "route_decision limits state extractor w r = (w', Inr r') \<longleftrightarrow> admission limits state extractor w r w' r'"
proof
  assume "route_decision limits state extractor w r = (w', Inr r')"
  then show "admission limits state extractor w r w' r'"
    unfolding route_decision_def user_decision_def store_decision_def decide_then_def limits_decision_def
      host_decision_def claims_decision_def principal_decision_def config_decision_def
      presence_decision_def admission_def has_virtual_host_def user_from_principal_def
    by (auto simp: extract_host split: prod.splits sum.splits option.splits if_splits)
next
  assume "admission limits state extractor w r w' r'"
  then show "route_decision limits state extractor w r = (w', Inr r')"
    unfolding admission_def
    by (auto simp: extract_host [THEN iffD2] route_decision_def user_decision_def store_decision_def decide_then_def
        limits_decision_def host_decision_def claims_decision_def principal_decision_def
        config_decision_def presence_decision_def has_virtual_host_def user_from_principal_def)
qed

lemma admission_unique:
  "admission limits state extractor w r w1 r1 \<Longrightarrow> admission limits state extractor w r w2 r2 \<Longrightarrow>
   w1 = w2 \<and> r1 = r2"
  unfolding route_decision_Inr [symmetric] by simp

text \<open>
  Property C4 (the gate): the MCP service runs exactly for the admitted requests. For an admitted
  request every service is run, once, in the world left by authorization and store and on the
  request with its four extensions; a request that is not admitted is answered without the service,
  so the answer is the same for every service.
\<close>

theorem mcp_route_gate:
  "(\<exists>w' r'. admission limits state extractor w r w' r' \<and>
      (\<forall>service. mcp_route limits state extractor service w r = service w' r')) \<or>
   (\<not> (\<exists>w' r'. admission limits state extractor w r w' r') \<and>
      (\<exists>w' rep. \<forall>service. mcp_route limits state extractor service w r = (w', rep)))"
proof -
  obtain w' d where d: "route_decision limits state extractor w r = (w', d)" by fastforce
  show ?thesis
  proof (cases d)
    case (Inl rep)
    with d have "\<not> admission limits state extractor w r w1 r1" for w1 r1
      by (simp flip: route_decision_Inr)
    with Inl d show ?thesis by (simp add: mcp_route_follows follow_def)
  next
    case (Inr r')
    with d have "admission limits state extractor w r w' r'" by (simp flip: route_decision_Inr)
    with Inr d show ?thesis by (auto simp: mcp_route_follows follow_def)
  qed
qed

definition status_of :: "reply \<Rightarrow> nat option" where
  "status_of rep = (case rep of Reply resp \<Rightarrow> Some (resp_status resp) | Panicked \<Rightarrow> None)"

lemma status_of_simps [simp]:
  "status_of (custom_error n m) = Some n" "status_of (bad_request m) = Some 400"
  "status_of (unauthorized_response m) = Some 401" "status_of (internal_server_error m) = Some 500"
  "status_of server_not_found_response = Some 404" "status_of Panicked = None"
  by (simp_all add: status_of_def custom_error_def bad_request_def unauthorized_response_def
      internal_server_error_def server_not_found_response_def)

lemma decide_then_Inl:
  "decide_then d e w r = (w', Inl rep) \<longleftrightarrow>
     d w r = (w', Inl rep) \<or> (\<exists>w1 r1. d w r = (w1, Inr r1) \<and> e w1 r1 = (w', Inl rep))"
  by (auto simp: decide_then_def split: prod.splits sum.splits)

lemma refusal_statuses:
  "limits_decision limits w r = (w', Inl rep) \<Longrightarrow> status_of rep = Some 431"
  "host_decision w r = (w', Inl rep) \<Longrightarrow>
     status_of rep = Some 400 \<or> status_of rep = None \<and> req_path r = ''/servers/mcp''"
  "claims_decision state w r = (w', Inl rep) \<Longrightarrow> status_of rep = Some 401"
  "principal_decision extractor w r = (w', Inl rep) \<Longrightarrow> status_of rep = Some 401"
  "config_decision state w r = (w', Inl rep) \<Longrightarrow> status_of rep = Some 400 \<or> status_of rep = Some 500"
  "presence_decision w r = (w', Inl rep) \<Longrightarrow> status_of rep = Some 404"
proof -
  have panic: "extract_virtual_host_id path = Err e \<Longrightarrow> path = ''/servers/mcp''" for path e
    using extract_virtual_host_id_cases [of path] by (cases e) auto
  show "host_decision w r = (w', Inl rep) \<Longrightarrow>
     status_of rep = Some 400 \<or> status_of rep = None \<and> req_path r = ''/servers/mcp''"
    by (auto simp: host_decision_def dest: panic split: sum.splits option.splits)
qed (auto simp: limits_decision_def claims_decision_def principal_decision_def config_decision_def
    presence_decision_def split: option.splits prod.splits sum.splits if_splits)

lemma limits_decision_message: "limits_decision limits w r = (w1, Inr r1) \<Longrightarrow> r1 = r"
  by (auto simp: limits_decision_def split: option.splits)


text \<open>A concrete application state (the world counts the calls) and a request without a token.\<close>

definition sample_state :: "nat app_state" where
  "sample_state = \<lparr>app_authorize = \<lambda>v n. (Suc n, if v = ''Bearer ok'' then
       Some (JObject [(''sub'', JString ''ann''), (''tenant_id'', JString ''t'')]) else None),
     app_get_config = \<lambda>u n. (Suc n, Ok \<lparr>virtual_hosts = []\<rparr>)\<rparr>"

definition sample_request :: "header_map \<Rightarrow> http_request" where
  "sample_request headers = \<lparr>req_method = ''POST'', req_path = ''/servers/vh/mcp'', req_headers = headers,
     req_body = [], ext_virtual_host_id = None, ext_claims = None, ext_principal = None, ext_user_config = None\<rparr>"

lemma sample_not_admitted:
  "\<not> (\<exists>w' r'. admission (limits_from_config 0 0 0) sample_state default_extract (0::nat)
     (sample_request [(''authorization'', ''Bearer no'')]) w' r')"
  by (simp add: admission_def sample_state_def sample_request_def header_get_def get_all_def)


text \<open>
  Cheap refusals come first: a request that exceeds the header limits, whose path
  names no virtual host or that has no \<open>Authorization\<close> header is refused in an unchanged world:
  neither the authorization service nor the configuration store nor the MCP service is called.
\<close>

theorem mcp_route_refused_early:
  assumes "exceeded_limits (req_headers r) limits \<noteq> None \<or>
     (\<nexists>vh. req_path r = ''/servers/'' @ vh @ ''/mcp'') \<or>
     header_get (req_headers r) ''authorization'' = None"
  shows "\<exists>rep. mcp_route limits state extractor service w r = (w, rep) \<and>
     (exceeded_limits (req_headers r) limits \<noteq> None \<longrightarrow> status_of rep = Some 431)"
proof (cases "exceeded_limits (req_headers r) limits")
  case (Some u)
  then show ?thesis by (simp add: mcp_route_def Let_def mcp_header_limits_layer_def)
next
  case None
  show ?thesis
  proof (cases "\<exists>vh. req_path r = ''/servers/'' @ vh @ ''/mcp''")
    case True
    then obtain vh where vh: "extract_virtual_host_id (req_path r) = Ok (Some vh)"
      using extract_host by blast
    from True None assms have "header_get (req_headers r) ''authorization'' = None" by simp
    with None vh show ?thesis
      by (simp add: mcp_route_def Let_def mcp_header_limits_layer_def virtual_host_id_layer_def claims_layer_def)
  next
    case False
    then have "extract_virtual_host_id (req_path r) \<noteq> Ok (Some vh)" for vh using extract_host by blast
    with None show ?thesis
      by (auto simp: mcp_route_def Let_def mcp_header_limits_layer_def virtual_host_id_layer_def
          split: sum.splits option.splits)
  qed
qed

theorem mcp_route_refused_early_witness:
  "header_get (req_headers (sample_request [])) ''authorization'' = None \<and>
   (\<exists>rep. mcp_route (limits_from_config 0 0 0) sample_state default_extract (\<lambda>w r. (Suc w, health)) 0
      (sample_request []) = (0, rep))"
proof -
  have "header_get (req_headers (sample_request [])) ''authorization'' = None" by code_simp
  with mcp_route_refused_early [of "sample_request []" "limits_from_config 0 0 0" sample_state default_extract
      "\<lambda>w r. (Suc w, health)" 0]
  show ?thesis by blast
qed

end
