(* ===== verification/Cmf.thy ===== *)
theory Cmf
  imports Apis "HOL-Library.Word"
begin

text \<open>
  The plugin side of the gateway (\<open>contextforge-data-plane-cpex\<close>): CMF messages, the errors of an
  MCP call, the pre and post hooks around one operation (\<open>hooks.rs\<close>, \<open>cmf.rs\<close>, \<open>error.rs\<close>,
  \<open>factory.rs\<close>, \<open>runtime.rs\<close>). Code of the crates \<open>cpex\<close> and \<open>rmcp\<close> is a parameter: the record
  \<open>cmf_access\<close> holds the schema version and the accessors of \<open>Message\<close>, the record \<open>plugin_env\<close> the plugin manager, whose
  managers have type \<open>'m\<close>, context tables \<open>'t\<close> and the world of the plugins \<open>'w\<close>.
\<close>

section \<open>Definitions\<close>

text \<open>\<open>ErrorData\<close> of \<open>rmcp\<close>, with the codes and messages of the sources.\<close>

datatype error_code =
    INTERNAL_ERROR | INVALID_PARAMS | INVALID_REQUEST | RESOURCE_NOT_FOUND | HEADER_MISMATCH
  | ErrorCode int

datatype error_message = Message string | HeaderMessage header_error | InvalidEventJson

record error_data =
  err_code :: error_code
  err_message :: error_message
  err_data :: "json option"

definition error_data :: "error_code \<Rightarrow> string \<Rightarrow> error_data" where
  "error_data code message = \<lparr>err_code = code, err_message = Message message, err_data = None\<rparr>"

text \<open>CMF messages; the constructors that the gateway never inspects are \<open>OtherPart\<close> and \<open>OtherRole\<close>.\<close>

datatype cmf_role = AssistantRole | UserRole | ToolRole | OtherRole string

record tool_call =
  tc_tool_call_id :: string
  tc_name :: string
  tc_arguments :: "(string \<times> json) list"
  tc_namespace :: "string option"

record tool_result =
  tr_tool_call_id :: string
  tr_tool_name :: string
  tr_content :: json
  tr_is_error :: bool

record media_source =
  source_type :: string
  media_data :: string
  media_type :: "string option"
  duration_ms :: "int option"

record resource_reference =
  rr_request_id :: string
  rr_uri :: string
  rr_name :: "string option"
  rr_type :: string
  rr_range_start :: "int option"
  rr_range_end :: "int option"
  rr_selector :: "string option"

record cmf_resource =
  cr_request_id :: string
  cr_uri :: string
  cr_name :: "string option"
  cr_description :: "string option"
  cr_type :: string
  cr_content :: "string option"
  cr_blob :: "string option"
  cr_mime_type :: "string option"
  cr_size_bytes :: "int option"
  cr_annotations :: "(string \<times> json) list"
  cr_version :: "string option"

record prompt_request =
  pq_request_id :: string
  pq_name :: string
  pq_arguments :: "(string \<times> json) list"
  pq_server_id :: "string option"

datatype content_part =
    TextPart string
  | ImagePart media_source
  | AudioPart media_source
  | ToolCallPart tool_call
  | ToolResultPart tool_result
  | ResourcePart cmf_resource
  | ResourceRefPart resource_reference
  | PromptRequestPart prompt_request
  | PromptResultPart prompt_result
  | OtherPart string
and prompt_result =
  PromptResult (pr_request_id: string) (pr_prompt_name: string) (pr_messages: "cmf_message list")
    (pr_content: "string option") (pr_is_error: bool) (pr_error_message: "string option")
and cmf_message =
  CmfMessage (schema_version: string) (msg_role: cmf_role) (msg_content: "content_part list")
    (msg_channel: "string option")

record cmf_access =
  SCHEMA_VERSION :: string
  get_tool_calls :: "cmf_message \<Rightarrow> tool_call list"
  get_tool_results :: "cmf_message \<Rightarrow> tool_result list"
  get_prompt_requests :: "cmf_message \<Rightarrow> prompt_request list"
  get_prompt_results :: "cmf_message \<Rightarrow> prompt_result list"
  get_text_content :: "cmf_message \<Rightarrow> string"

datatype operation = Tool | Prompt | Resource

definition operation_hooks :: "operation \<Rightarrow> string \<times> string" where
  "operation_hooks operation =
     (case operation of
        Tool \<Rightarrow> (''cmf.tool_pre_invoke'', ''cmf.tool_post_invoke'')
      | Prompt \<Rightarrow> (''cmf.prompt_pre_fetch'', ''cmf.prompt_post_fetch'')
      | Resource \<Rightarrow> (''cmf.resource_pre_fetch'', ''cmf.resource_post_fetch''))"

definition operation_subject :: "operation \<Rightarrow> string" where
  "operation_subject operation =
     (case operation of Tool \<Rightarrow> ''tool call'' | Prompt \<Rightarrow> ''prompt'' | Resource \<Rightarrow> ''resource'')"

definition operation_id_prefix :: "operation \<Rightarrow> string" where
  "operation_id_prefix operation =
     (case operation of
        Tool \<Rightarrow> ''gateway-tool-call''
      | Prompt \<Rightarrow> ''gateway-prompt-request''
      | Resource \<Rightarrow> ''gateway-resource-request'')"

definition all_operations :: "operation list" where
  "all_operations = [Tool, Prompt, Resource]"

definition message_payload :: "cmf_access \<Rightarrow> cmf_role \<Rightarrow> content_part list \<Rightarrow> cmf_message" where
  "message_payload acc role content = CmfMessage (SCHEMA_VERSION acc) role content None"

record violation =
  proto_error_code :: "int option"

text \<open>A pipeline result; a modified payload that is no CMF message is \<open>Some None\<close>.\<close>

record 't pipeline_result =
  is_denied :: bool
  modified_payload :: "cmf_message option option"
  pipeline_violation :: "violation option"
  pipeline_context :: 't

definition modified_message_payload :: "'t pipeline_result \<Rightarrow> cmf_message option" where
  "modified_message_payload result = Option.bind (modified_payload result) id"

definition checked_i32 :: "int \<Rightarrow> int option" where
  "checked_i32 n = (if - (2 ^ 31) \<le> n \<and> n < 2 ^ 31 then Some n else None)"

definition plugin_denied_error :: "string \<Rightarrow> 't pipeline_result \<Rightarrow> error_data" where
  "plugin_denied_error subject result =
     error_data
       (case Option.bind (pipeline_violation result)
               (\<lambda>v. map_option ErrorCode (Option.bind (proto_error_code v) checked_i32)) of
          Some code \<Rightarrow> code | None \<Rightarrow> INVALID_REQUEST)
       (''Plugin denied '' @ subject)"

text \<open>\<open>ArgumentsUpdate\<close>\<close>

datatype arguments_update = Unchanged | Replace "json_object option"

definition from_modified :: "json_object option \<Rightarrow> json_object \<Rightarrow> arguments_update" where
  "from_modified original modified =
     (if (case original of Some a \<Rightarrow> object_eq a modified | None \<Rightarrow> modified = [])
      then Unchanged else Replace (Some modified))"

definition apply_to :: "arguments_update \<Rightarrow> json_object option \<Rightarrow> json_object option" where
  "apply_to update arguments = (case update of Unchanged \<Rightarrow> arguments | Replace r \<Rightarrow> r)"

record 's pre_hook_result =
  pre_arguments :: arguments_update
  pre_state :: "'s option"

definition default_pre_hook_result :: "'s pre_hook_result" where
  "default_pre_hook_result = \<lparr>pre_arguments = Unchanged, pre_state = None\<rparr>"

text \<open>The parts of a CPEX configuration that the gateway inspects.\<close>

record cpex_plugin =
  plugin_name :: string
  plugin_kind :: string
  plugin_hooks :: "string list"
  plugin_conditions :: "string list"
  plugin_config :: "json option"

record cpex_config =
  routing_enabled :: bool
  fail_on_plugin_error :: bool
  cpex_routes :: "string list"
  plugin_dirs :: "string list"
  global_policies :: "string list"
  global_defaults :: "string list"
  cpex_plugins :: "cpex_plugin list"

datatype runtime_error =
    Configuration string | Initialization | ConfigStoreUnavailable | ConfigWrongFormat
  | ConfigMissing | ConfigUnsupported | FactoryRegistryShared

definition runtime_error_text :: "runtime_error \<Rightarrow> string" where
  "runtime_error_text e =
     (case e of
        Configuration hook \<Rightarrow> ''failed to register runtime '' @ hook @ '' hook''
      | Initialization \<Rightarrow> ''failed to initialize plugin runtime''
      | ConfigStoreUnavailable \<Rightarrow> ''runtime plugin config store disconnected''
      | ConfigWrongFormat \<Rightarrow> ''runtime plugin config is in wrong format''
      | ConfigMissing \<Rightarrow> ''runtime plugin config is missing''
      | ConfigUnsupported \<Rightarrow> ''runtime plugin config is unsupported''
      | FactoryRegistryShared \<Rightarrow> ''runtime plugin factories are already shared'')"

definition supported_cmf_hook_name :: "string \<Rightarrow> string option" where
  "supported_cmf_hook_name hook =
     find (\<lambda>name. name = hook)
       (concat (map (\<lambda>op. [fst (operation_hooks op), snd (operation_hooks op)]) all_operations))"

definition declares :: "cpex_config \<Rightarrow> string \<Rightarrow> bool" where
  "declares config hook_name \<longleftrightarrow>
     list_ex (\<lambda>plugin. list_ex (\<lambda>hook. hook = hook_name) (plugin_hooks plugin)) (cpex_plugins config)"

fun validate_plugins :: "cpex_plugin list \<Rightarrow> (unit, runtime_error) result" where
  "validate_plugins [] = Ok ()"
| "validate_plugins (plugin # rest) =
     (if plugin_conditions plugin \<noteq> [] then Err ConfigUnsupported
      else if list_ex (\<lambda>hook. supported_cmf_hook_name hook = None) (plugin_hooks plugin)
      then Err ConfigUnsupported
      else validate_plugins rest)"

definition validate_gateway_supported_config :: "cpex_config \<Rightarrow> (unit, runtime_error) result" where
  "validate_gateway_supported_config config =
     (if routing_enabled config \<or> fail_on_plugin_error config \<or> cpex_routes config \<noteq> [] \<or>
         plugin_dirs config \<noteq> [] \<or> global_policies config \<noteq> [] \<or> global_defaults config \<noteq> []
      then Err ConfigUnsupported
      else validate_plugins (cpex_plugins config))"

text \<open>
  The plugin manager: it is built from a configuration and the factories \<open>'f\<close>, initialised, and
  invoked by hook name with a message and an optional context table.
\<close>

record ('m, 'f, 't, 'w) plugin_env =
  default_manager :: 'm
  default_context :: 't
  manager_from_config :: "cpex_config \<Rightarrow> 'f \<Rightarrow> 'm option"
  manager_initialize :: "'m \<Rightarrow> 'w \<Rightarrow> 'w \<times> bool"
  invoke_named :: "'m \<Rightarrow> string \<Rightarrow> cmf_message \<Rightarrow> 't option \<Rightarrow> 'w \<Rightarrow> 'w \<times> 't pipeline_result"

record hook_pair =
  pre_hook :: bool
  post_hook :: bool

record 'm plugin_runtime =
  manager :: 'm
  runtime_hooks :: "operation \<Rightarrow> hook_pair"

definition default_runtime :: "('m, 'f, 't, 'w) plugin_env \<Rightarrow> 'm plugin_runtime" where
  "default_runtime env =
     \<lparr>manager = default_manager env, runtime_hooks = \<lambda>_. \<lparr>pre_hook = False, post_hook = False\<rparr>\<rparr>"

text \<open>The process-wide state of the plugins: the correlation counter, an \<open>AtomicU64\<close>, and the world.\<close>

record 'w plugin_world =
  correlation_id :: "64 word"
  outside :: 'w

definition runtime_from_config ::
  "('m, 'f, 't, 'w) plugin_env \<Rightarrow> 'f \<Rightarrow> cpex_config \<Rightarrow> 'w plugin_world
    \<Rightarrow> 'w plugin_world \<times> ('m plugin_runtime, runtime_error) result" where
  "runtime_from_config env factories config w =
     (case validate_gateway_supported_config config of
        Err e \<Rightarrow> (w, Err e)
      | Ok _ \<Rightarrow>
          (let hooks = (\<lambda>operation. \<lparr>pre_hook = declares config (fst (operation_hooks operation)),
                          post_hook = declares config (snd (operation_hooks operation))\<rparr>)
           in case manager_from_config env config factories of
                None \<Rightarrow> (w, Err (Configuration ''config''))
              | Some m \<Rightarrow>
                  (case manager_initialize env m (outside w) of
                     (out, True) \<Rightarrow> (w\<lparr>outside := out\<rparr>, Ok \<lparr>manager = m, runtime_hooks = hooks\<rparr>)
                   | (out, False) \<Rightarrow> (w\<lparr>outside := out\<rparr>, Err Initialization))))"

record ('m, 't) call_state =
  cs_runtime :: "'m plugin_runtime"
  cs_context :: 't
  cs_name :: string
  cs_id :: string

definition runtime_invoke ::
  "('m, 'f, 't, 'w) plugin_env \<Rightarrow> 'm plugin_runtime \<Rightarrow> string \<Rightarrow> cmf_message \<Rightarrow> 't option
    \<Rightarrow> 'w plugin_world \<Rightarrow> 'w plugin_world \<times> 't pipeline_result" where
  "runtime_invoke env rt hook payload context w =
     (case invoke_named env (manager rt) hook payload context (outside w) of
        (out, result) \<Rightarrow> (w\<lparr>outside := out\<rparr>, result))"

definition correlation_text :: "operation \<Rightarrow> 64 word \<Rightarrow> string" where
  "correlation_text operation n = operation_id_prefix operation @ ''-'' @ show_int (uint n)"

text \<open>\<open>GatewayPluginRuntime::before\<close>; \<open>nothing\<close> is \<open>U::default()\<close>.\<close>

definition before ::
  "('m, 'f, 't, 'w) plugin_env \<Rightarrow> 'm plugin_runtime \<Rightarrow> operation \<Rightarrow> string \<Rightarrow> (string \<Rightarrow> cmf_message)
    \<Rightarrow> (cmf_message \<Rightarrow> string \<Rightarrow> ('u, error_data) result) \<Rightarrow> 'u \<Rightarrow> 'w plugin_world
    \<Rightarrow> 'w plugin_world \<times> ('u \<times> ('m, 't) call_state option, error_data) result" where
  "before env rt operation name payload update nothing w =
     (let hooks = runtime_hooks rt operation in
      if \<not> pre_hook hooks \<and> \<not> post_hook hooks then (w, Ok (nothing, None))
      else
        let id = correlation_text operation (correlation_id w);
            w = w\<lparr>correlation_id := correlation_id w + 1\<rparr>;
            state = (\<lambda>context. if post_hook hooks
              then Some \<lparr>cs_runtime = rt, cs_context = context, cs_name = name, cs_id = id\<rparr> else None)
        in if pre_hook hooks then
             (case runtime_invoke env rt (fst (operation_hooks operation)) (payload id) None w of
                (w, result) \<Rightarrow>
                  if is_denied result
                  then (w, Err (plugin_denied_error (operation_subject operation) result))
                  else (w, bind_res
                    (case modified_message_payload result of
                       Some p \<Rightarrow> update p id | None \<Rightarrow> Ok nothing)
                    (\<lambda>u. Ok (u, state (pipeline_context result)))))
           else (w, Ok (nothing, state (default_context env))))"

text \<open>\<open>CallState::invoke\<close>, \<open>apply\<close> and \<open>after\<close>, over the two methods of a \<open>CmfResponse\<close>.\<close>

definition call_invoke ::
  "('m, 'f, 't, 'w) plugin_env \<Rightarrow> operation \<Rightarrow> ('r \<Rightarrow> string \<Rightarrow> string \<Rightarrow> (cmf_message, error_data) result)
    \<Rightarrow> ('m, 't) call_state \<Rightarrow> 'r \<Rightarrow> 'w plugin_world
    \<Rightarrow> 'w plugin_world \<times> ('m, 't) call_state \<times> ('t pipeline_result, error_data) result" where
  "call_invoke env operation to_payload call response w =
     (case to_payload response (cs_name call) (cs_id call) of
        Err e \<Rightarrow> (w, call, Err e)
      | Ok payload \<Rightarrow>
          (case runtime_invoke env (cs_runtime call) (snd (operation_hooks operation)) payload
                  (Some (cs_context call)) w of
             (w, result) \<Rightarrow>
               (w, if \<not> is_denied result then call\<lparr>cs_context := pipeline_context result\<rparr> else call,
                Ok result)))"

definition call_apply ::
  "('r \<Rightarrow> cmf_message \<Rightarrow> string \<Rightarrow> string \<Rightarrow> ('r, error_data) result) \<Rightarrow> ('m, 't) call_state \<Rightarrow> 'r
    \<Rightarrow> 't pipeline_result \<Rightarrow> ('r, error_data) result" where
  "call_apply apply_payload call response result =
     (case modified_message_payload result of
        Some payload \<Rightarrow> apply_payload response payload (cs_name call) (cs_id call)
      | None \<Rightarrow> Ok response)"

definition call_after ::
  "('m, 'f, 't, 'w) plugin_env \<Rightarrow> operation \<Rightarrow> ('r \<Rightarrow> string \<Rightarrow> string \<Rightarrow> (cmf_message, error_data) result)
    \<Rightarrow> ('r \<Rightarrow> cmf_message \<Rightarrow> string \<Rightarrow> string \<Rightarrow> ('r, error_data) result)
    \<Rightarrow> ('m, 't) call_state \<Rightarrow> 'r \<Rightarrow> 'w plugin_world
    \<Rightarrow> 'w plugin_world \<times> ('m, 't) call_state \<times> ('r, error_data) result" where
  "call_after env operation to_payload apply_payload call response w =
     (case call_invoke env operation to_payload call response w of
        (w, call, Err e) \<Rightarrow> (w, call, Err e)
      | (w, call, Ok result) \<Rightarrow>
          (w, call,
           if is_denied result then Err (plugin_denied_error (operation_subject operation) result)
           else call_apply apply_payload call response result))"

text \<open>The shared runtime of the registry, and how a call gets hold of it.\<close>

datatype 'm runtime_state = Active "'m plugin_runtime" | Failed string

definition current_runtime :: "'m runtime_state \<Rightarrow> ('m plugin_runtime, error_data) result" where
  "current_runtime st =
     (case st of
        Active rt \<Rightarrow> Ok rt
      | Failed message \<Rightarrow> Err (error_data INTERNAL_ERROR ''Runtime plugin reload failed''))"

section \<open>The hook runner\<close>

lemma from_modified_apply_to:
  assumes "\<And>a. original = Some a \<Longrightarrow> json_wf (JObject a)"
  shows "(apply_to (from_modified original modified) original = Some modified) \<or>
     (apply_to (from_modified original modified) original = original \<and>
        (case original of None \<Rightarrow> modified = [] | Some a \<Rightarrow> object_eq a modified))"
  by (auto simp: from_modified_def apply_to_def split: option.splits)

text \<open>
  The trait \<open>CmfResponse\<close>: what a response promises to the runner. A payload that comes back as it
  was sent gives the response back, up to \<open>norm\<close>; \<open>stable\<close> says for which responses.
\<close>

locale cmf_response =
  fixes operation :: operation
    and to_payload :: "'r \<Rightarrow> string \<Rightarrow> string \<Rightarrow> (cmf_message, error_data) result"
    and apply_payload :: "'r \<Rightarrow> cmf_message \<Rightarrow> string \<Rightarrow> string \<Rightarrow> ('r, error_data) result"
    and stable :: "'r \<Rightarrow> bool"
    and norm :: "'r \<Rightarrow> 'r"
  assumes echo: "stable r \<Longrightarrow> to_payload r name i = Ok p \<Longrightarrow> apply_payload r p name i = Ok (norm r)"
begin

abbreviation after_hook where
  "after_hook env call \<equiv> call_after env operation to_payload apply_payload call"

abbreviation post_result where
  "post_result env call p w \<equiv>
     runtime_invoke env (cs_runtime call) (snd (operation_hooks operation)) p (Some (cs_context call)) w"

lemma after_denied:
  assumes "to_payload r (cs_name call) (cs_id call) = Ok p"
    and "post_result env call p w = (w', result)" "is_denied result"
  shows "after_hook env call r w =
     (w', call, Err (plugin_denied_error (operation_subject operation) result))"
  using assms by (simp add: call_after_def call_invoke_def)

lemma after_untouched:
  assumes "to_payload r (cs_name call) (cs_id call) = Ok p"
    and "post_result env call p w = (w', result)" "\<not> is_denied result"
    and "modified_message_payload result = None"
  shows "after_hook env call r w = (w', call\<lparr>cs_context := pipeline_context result\<rparr>, Ok r)"
  using assms by (simp add: call_after_def call_invoke_def call_apply_def)

lemma after_echo:
  assumes "to_payload r (cs_name call) (cs_id call) = Ok p"
    and "post_result env call p w = (w', result)" "\<not> is_denied result"
    and "modified_message_payload result = Some p" "stable r"
  shows "after_hook env call r w = (w', call\<lparr>cs_context := pipeline_context result\<rparr>, Ok (norm r))"
  using assms by (simp add: call_after_def call_invoke_def call_apply_def echo)

text \<open>A response leaves the runner only when the post hook ran on it and did not deny it.\<close>

lemma after_Ok:
  assumes "after_hook env call r w = (w', call', Ok r')"
  shows "\<exists>p result. to_payload r (cs_name call) (cs_id call) = Ok p \<and>
     post_result env call p w = (w', result) \<and> \<not> is_denied result \<and>
     (modified_message_payload result = None \<and> r' = r \<or>
      (\<exists>q. modified_message_payload result = Some q \<and> apply_payload r q (cs_name call) (cs_id call) = Ok r'))"
proof (cases "to_payload r (cs_name call) (cs_id call)")
  case (Inl e)
  with assms show ?thesis by (simp add: call_after_def call_invoke_def)
next
  case (Inr p)
  obtain w1 result where i: "post_result env call p w = (w1, result)" by fastforce
  with assms Inr show ?thesis
    by (auto simp: call_after_def call_invoke_def call_apply_def split: if_splits option.splits)
qed

end

section \<open>Correlation ids\<close>

lemma show_int_inj: "0 \<le> m \<Longrightarrow> 0 \<le> n \<Longrightarrow> show_int m = show_int n \<longleftrightarrow> m = n"
  by (metis digits_val_show_digits show_int_def not_less)

lemma correlation_text_inj [simp]: "correlation_text op a = correlation_text op b \<longleftrightarrow> a = b"
  by (simp add: correlation_text_def show_int_inj word_uint_eq_iff)

lemma correlation_text_operation: "op \<noteq> op' \<Longrightarrow> correlation_text op a \<noteq> correlation_text op' b"
  by (cases op; cases op') (simp_all add: correlation_text_def operation_id_prefix_def)

text \<open>
  Correlation ids: two hooked calls get different correlation ids, whatever their
  operations, unless a multiple of \<open>2 ^ 64\<close> other hooked calls lies between them: the id is made from
  a 64 bit counter that wraps, and the text of a counter value is unique.
\<close>

theorem correlation_ids_distinct:
  assumes "i < 2 ^ 64" "j < 2 ^ 64" "i \<noteq> j"
  shows "correlation_text op (c + of_nat i) \<noteq> correlation_text op' (c + of_nat j)"
proof (cases "op = op'")
  case True
  have "(of_nat i :: 64 word) \<noteq> of_nat j"
    using assms by (simp add: of_nat_inverse word_of_nat_eq_iff take_bit_nat_eq_self)
  with True show ?thesis by simp
qed (simp add: correlation_text_operation)

theorem correlation_ids_distinct_witness:
  "(0::nat) < 2 ^ 64 \<and> (5::nat) < 2 ^ 64 \<and>
   correlation_text Tool ((-1) + of_nat 0) \<noteq> correlation_text Tool ((-1) + of_nat 5)"
  using correlation_ids_distinct [of 0 5 Tool "-1" Tool] by simp

text \<open>Which hooks run, and with what: the four outcomes of \<open>before\<close>.\<close>

lemma before_unhooked:
  "\<not> pre_hook (runtime_hooks rt operation) \<Longrightarrow> \<not> post_hook (runtime_hooks rt operation) \<Longrightarrow>
   before env rt operation name payload update nothing w = (w, Ok (nothing, None))"
  by (simp add: before_def)

lemma before_post_only:
  "\<not> pre_hook (runtime_hooks rt operation) \<Longrightarrow> post_hook (runtime_hooks rt operation) \<Longrightarrow>
   before env rt operation name payload update nothing w =
     (w\<lparr>correlation_id := correlation_id w + 1\<rparr>,
      Ok (nothing, Some \<lparr>cs_runtime = rt, cs_context = default_context env, cs_name = name,
        cs_id = correlation_text operation (correlation_id w)\<rparr>))"
  by (simp add: before_def Let_def)

text \<open>A pre hook that is declared is never skipped: a call that gets past \<open>before\<close> was not denied.\<close>

lemma before_Ok_pre:
  assumes "pre_hook (runtime_hooks rt operation)"
    and "before env rt operation name payload update nothing w = (w', Ok (u, state))"
  shows "\<exists>result. runtime_invoke env rt (fst (operation_hooks operation))
        (payload (correlation_text operation (correlation_id w))) None
        (w\<lparr>correlation_id := correlation_id w + 1\<rparr>) = (w', result) \<and> \<not> is_denied result \<and>
      (case modified_message_payload result of
         None \<Rightarrow> u = nothing
       | Some p \<Rightarrow> update p (correlation_text operation (correlation_id w)) = Ok u) \<and>
      (state = None \<longleftrightarrow> \<not> post_hook (runtime_hooks rt operation)) \<and>
      (\<forall>call. state = Some call \<longrightarrow> cs_context call = pipeline_context result)"
  using assms
  by (auto simp: before_def Let_def bind_res_eq_Ok split: prod.splits if_splits option.splits)

section \<open>Accepted configurations\<close>

lemma validate_plugins_Ok:
  "validate_plugins ps = Ok () \<longleftrightarrow>
     list_all (\<lambda>p. plugin_conditions p = [] \<and>
       list_all (\<lambda>h. supported_cmf_hook_name h \<noteq> None) (plugin_hooks p)) ps"
  by (induction ps) (auto simp: list_all_iff list_ex_iff)

lemma supported_hook_iff:
  "supported_cmf_hook_name h \<noteq> None \<longleftrightarrow>
     (\<exists>op. h = fst (operation_hooks op) \<or> h = snd (operation_hooks op))"
proof -
  have "supported_cmf_hook_name h \<noteq> None \<longleftrightarrow>
      (\<exists>op \<in> set all_operations. h = fst (operation_hooks op) \<or> h = snd (operation_hooks op))"
    unfolding supported_cmf_hook_name_def by (auto simp: find_None_iff)
  moreover have "op \<in> set all_operations" for op by (cases op) (simp_all add: all_operations_def)
  ultimately show ?thesis by blast
qed

text \<open>
  Plugin configurations: a configuration that yields a runtime uses none of the
  unsupported features, its plugins name only the six gateway hooks, and the runtime runs the pre
  (post) hook of an operation exactly when some plugin declares it.
\<close>

theorem runtime_from_config_Ok:
  assumes "runtime_from_config env factories config w = (w', Ok rt)"
  shows "\<not> routing_enabled config \<and> \<not> fail_on_plugin_error config \<and> cpex_routes config = [] \<and>
     plugin_dirs config = [] \<and> global_policies config = [] \<and> global_defaults config = [] \<and>
     (\<forall>p \<in> set (cpex_plugins config). plugin_conditions p = [] \<and>
        (\<forall>h \<in> set (plugin_hooks p). \<exists>op. h = fst (operation_hooks op) \<or> h = snd (operation_hooks op))) \<and>
     (\<forall>op. (pre_hook (runtime_hooks rt op) \<longleftrightarrow>
              (\<exists>p \<in> set (cpex_plugins config). fst (operation_hooks op) \<in> set (plugin_hooks p))) \<and>
           (post_hook (runtime_hooks rt op) \<longleftrightarrow>
              (\<exists>p \<in> set (cpex_plugins config). snd (operation_hooks op) \<in> set (plugin_hooks p)))) \<and>
     manager_from_config env config factories = Some (manager rt)"
proof -
  let ?hooks = "\<lambda>op. \<lparr>pre_hook = declares config (fst (operation_hooks op)),
      post_hook = declares config (snd (operation_hooks op))\<rparr>"
  from assms have v: "validate_gateway_supported_config config = Ok ()"
    by (auto simp: runtime_from_config_def split: sum.splits)
  with assms have m: "manager_from_config env config factories = Some (manager rt)"
    and h: "runtime_hooks rt = ?hooks"
    by (auto simp: runtime_from_config_def Let_def split: option.splits prod.splits bool.splits)
  from v have "\<forall>p \<in> set (cpex_plugins config). plugin_conditions p = [] \<and>
        (\<forall>h \<in> set (plugin_hooks p). \<exists>op. h = fst (operation_hooks op) \<or> h = snd (operation_hooks op))"
    unfolding validate_gateway_supported_config_def
    by (auto simp: validate_plugins_Ok list_all_iff supported_hook_iff [symmetric] split: if_splits)
  moreover from v have "\<not> routing_enabled config \<and> \<not> fail_on_plugin_error config \<and>
      cpex_routes config = [] \<and> plugin_dirs config = [] \<and> global_policies config = [] \<and> global_defaults config = []"
    unfolding validate_gateway_supported_config_def by (auto split: if_splits)
  ultimately show ?thesis using m h by (auto simp: declares_def list_ex_iff)
qed

text \<open>A plugin environment whose plugins count their invocations and deny nothing.\<close>

definition sample_plugins :: "(nat, unit, nat, nat) plugin_env" where
  "sample_plugins = \<lparr>default_manager = 0, default_context = 0,
     manager_from_config = \<lambda>config f. Some (length (cpex_plugins config)),
     manager_initialize = \<lambda>m w. (w, True),
     invoke_named = \<lambda>m hook payload context w. (Suc w, \<lparr>is_denied = False, modified_payload = None,
       pipeline_violation = None, pipeline_context = w\<rparr>)\<rparr>"

definition sample_config :: cpex_config where
  "sample_config = \<lparr>routing_enabled = False, fail_on_plugin_error = False, cpex_routes = [], plugin_dirs = [],
     global_policies = [], global_defaults = [],
     cpex_plugins = [\<lparr>plugin_name = ''s'', plugin_kind = ''k'', plugin_hooks = [''cmf.tool_pre_invoke''],
       plugin_conditions = [], plugin_config = None\<rparr>]\<rparr>"

theorem runtime_from_config_Ok_witness:
  "\<exists>rt. runtime_from_config sample_plugins () sample_config \<lparr>correlation_id = 1, outside = 0\<rparr> =
      (\<lparr>correlation_id = 1, outside = 0\<rparr>, Ok rt) \<and>
    pre_hook (runtime_hooks rt Tool) \<and> \<not> post_hook (runtime_hooks rt Tool)"
proof -
  have v: "validate_gateway_supported_config sample_config = Ok ()" by code_simp
  have "\<exists>rt. runtime_from_config sample_plugins () sample_config \<lparr>correlation_id = 1, outside = 0\<rparr> =
      (\<lparr>correlation_id = 1, outside = 0\<rparr>, Ok rt)"
    by (simp add: runtime_from_config_def v sample_plugins_def Let_def)
  then obtain rt where rt: "runtime_from_config sample_plugins () sample_config \<lparr>correlation_id = 1, outside = 0\<rparr> =
      (\<lparr>correlation_id = 1, outside = 0\<rparr>, Ok rt)" ..
  from runtime_from_config_Ok [OF rt] have "pre_hook (runtime_hooks rt Tool) \<and> \<not> post_hook (runtime_hooks rt Tool)"
    by (simp add: sample_config_def operation_hooks_def)
  with rt show ?thesis by blast
qed

end
