(* ===== verification/HookResponses.thy ===== *)
theory HookResponses
  imports Cmf
begin

text \<open>
  How the three MCP operations are shown to plugins and how a plugin's edits are applied
  (\<open>contextforge-data-plane-cpex/src/tools\<close>, \<open>prompts\<close>, \<open>resources\<close>). The record \<open>rmcp_codec\<close> holds
  the serialisation and the constructors of \<open>rmcp\<close> and \<open>cpex\<close> types that the sources call; \<open>b64d\<close>
  and \<open>b64e\<close> are \<open>BASE64_STANDARD.decode\<close> and \<open>encode\<close>. Fields of a content block that the gateway
  does not look at are its \<open>meta\<close>.
\<close>

section \<open>Definitions\<close>

datatype resource_contents =
    TextResourceContents (rc_uri: string) (rc_mime: "string option") string (rc_meta: "json option")
  | BlobResourceContents (rc_uri: string) (rc_mime: "string option") string (rc_meta: "json option")
  | OtherResourceContents

datatype content_block =
    TextBlock string "json option"
  | ImageBlock string string "json option"
  | AudioBlock string string "json option"
  | ResourceBlock resource_contents "json option"
  | ResourceLinkBlock string string "json option"
  | OtherBlock string

record call_tool_result =
  ctr_content :: "content_block list"
  ctr_structured :: "json option"
  ctr_is_error :: "bool option"
  ctr_meta :: "json option"

record call_tool_request =
  ct_name :: string
  ct_arguments :: "json_object option"

record rmcp_codec =
  result_to_json :: "call_tool_result \<Rightarrow> json option"
  result_from_json :: "json \<Rightarrow> call_tool_result option"
  result_success :: "content_block list \<Rightarrow> call_tool_result"
  result_error :: "content_block list \<Rightarrow> call_tool_result"
  result_structured :: "json \<Rightarrow> call_tool_result"
  result_structured_error :: "json \<Rightarrow> call_tool_result"
  message_to_json :: "cmf_message \<Rightarrow> json option"

definition text_block :: "string \<Rightarrow> content_block" where "text_block t = TextBlock t None"

text \<open>Tools\<close>

definition tool_call_payload ::
  "cmf_access \<Rightarrow> call_tool_request \<Rightarrow> string \<Rightarrow> string \<Rightarrow> string \<Rightarrow> cmf_message" where
  "tool_call_payload acc request tool_name backend tool_call_id =
     message_payload acc AssistantRole
       [ToolCallPart \<lparr>tc_tool_call_id = tool_call_id, tc_name = tool_name,
          tc_arguments = (case ct_arguments request of Some a \<Rightarrow> a | None \<Rightarrow> []),
          tc_namespace = Some backend\<rparr>]"

definition tool_json_result_payload ::
  "cmf_access \<Rightarrow> string \<Rightarrow> json \<Rightarrow> bool \<Rightarrow> string \<Rightarrow> cmf_message" where
  "tool_json_result_payload acc tool_name content is_error tool_call_id =
     message_payload acc ToolRole
       [ToolResultPart \<lparr>tr_tool_call_id = tool_call_id, tr_tool_name = tool_name, tr_content = content,
          tr_is_error = is_error\<rparr>]"

definition json_or_null :: "json option \<Rightarrow> json" where
  "json_or_null j = (case j of Some v \<Rightarrow> v | None \<Rightarrow> JNull)"

definition error_flag :: "call_tool_result \<Rightarrow> bool" where
  "error_flag r = (ctr_is_error r = Some True)"

definition tool_result_payload ::
  "cmf_access \<Rightarrow> rmcp_codec \<Rightarrow> string \<Rightarrow> call_tool_result \<Rightarrow> string \<Rightarrow> cmf_message" where
  "tool_result_payload acc cdc tool_name response tool_call_id =
     tool_json_result_payload acc tool_name (json_or_null (result_to_json cdc response))
       (error_flag response) tool_call_id"

definition first_of :: "'a list \<Rightarrow> 'a option" where
  "first_of xs = (case xs of [] \<Rightarrow> None | x # _ \<Rightarrow> Some x)"

definition tool_result_content :: "cmf_access \<Rightarrow> cmf_message \<Rightarrow> json option" where
  "tool_result_content acc payload = map_option tr_content (first_of (get_tool_results acc payload))"

definition tool_call_arguments :: "cmf_access \<Rightarrow> cmf_message \<Rightarrow> json_object option" where
  "tool_call_arguments acc payload = map_option tc_arguments (first_of (get_tool_calls acc payload))"

definition raw_tool_result :: "rmcp_codec \<Rightarrow> json \<Rightarrow> bool \<Rightarrow> call_tool_result" where
  "raw_tool_result cdc v is_error =
     (case v of
        JString t \<Rightarrow> if is_error then result_error cdc [text_block t] else result_success cdc [text_block t]
      | _ \<Rightarrow> if is_error then result_structured_error cdc v else result_structured cdc v)"

definition tool_result_response ::
  "cmf_access \<Rightarrow> rmcp_codec \<Rightarrow> call_tool_result \<Rightarrow> cmf_message \<Rightarrow> call_tool_result" where
  "tool_result_response acc cdc original payload =
     (let result = (case first_of (get_tool_results acc payload) of
            None \<Rightarrow> original
          | Some tr \<Rightarrow>
              (case result_from_json cdc (tr_content tr) of
                 None \<Rightarrow> raw_tool_result cdc (tr_content tr) (tr_is_error tr)
               | Some r \<Rightarrow> r\<lparr>ctr_is_error := Some (tr_is_error tr)\<rparr>));
          text = get_text_content acc payload
      in if text \<noteq> [] then result\<lparr>ctr_content := ctr_content result @ [text_block text]\<rparr> else result)"

definition tool_to_payload ::
  "cmf_access \<Rightarrow> rmcp_codec \<Rightarrow> call_tool_result \<Rightarrow> string \<Rightarrow> string \<Rightarrow> (cmf_message, error_data) result" where
  "tool_to_payload acc cdc response name i = Ok (tool_result_payload acc cdc name response i)"

definition tool_apply_payload ::
  "cmf_access \<Rightarrow> rmcp_codec \<Rightarrow> call_tool_result \<Rightarrow> cmf_message \<Rightarrow> string \<Rightarrow> string
    \<Rightarrow> (call_tool_result, error_data) result" where
  "tool_apply_payload acc cdc response payload name i = Ok (tool_result_response acc cdc response payload)"

text \<open>Stream events of a tool call, of any serialisable type \<open>'e\<close>.\<close>

definition event_to_payload ::
  "cmf_access \<Rightarrow> ('e \<Rightarrow> json option) \<Rightarrow> 'e \<Rightarrow> string \<Rightarrow> string \<Rightarrow> (cmf_message, error_data) result" where
  "event_to_payload acc to_json event name i =
     Ok (tool_json_result_payload acc name (json_or_null (to_json event)) False i)"

definition event_apply_payload ::
  "cmf_access \<Rightarrow> (json \<Rightarrow> 'e option) \<Rightarrow> 'e \<Rightarrow> cmf_message \<Rightarrow> string \<Rightarrow> string \<Rightarrow> ('e, error_data) result" where
  "event_apply_payload acc from_json event payload name i =
     bind_res (ok_or (error_data INVALID_PARAMS ''Plugin modified stream event payload without a tool result'')
         (tool_result_content acc payload))
       (\<lambda>content. ok_or \<lparr>err_code = INVALID_PARAMS, err_message = InvalidEventJson, err_data = None\<rparr>
          (from_json content))"

text \<open>Resources\<close>

record read_resource_result =
  rrr_contents :: "resource_contents list"
  rrr_meta :: "json option"

definition resource_request_payload :: "cmf_access \<Rightarrow> string \<Rightarrow> string \<Rightarrow> cmf_message" where
  "resource_request_payload acc uri i =
     message_payload acc UserRole
       [ResourceRefPart \<lparr>rr_request_id = i, rr_uri = uri, rr_name = None, rr_type = ''uri'',
          rr_range_start = None, rr_range_end = None, rr_selector = None\<rparr>]"

definition plain_cmf_resource ::
  "string \<Rightarrow> string \<Rightarrow> string option \<Rightarrow> string option \<Rightarrow> string option \<Rightarrow> cmf_resource" where
  "plain_cmf_resource i uri text blob mime =
     \<lparr>cr_request_id = i, cr_uri = uri, cr_name = None, cr_description = None, cr_type = ''uri'',
      cr_content = text, cr_blob = blob, cr_mime_type = mime, cr_size_bytes = None,
      cr_annotations = [], cr_version = None\<rparr>"

definition cmf_resource_content ::
  "(string \<Rightarrow> string option) \<Rightarrow> string \<Rightarrow> resource_contents \<Rightarrow> cmf_resource option" where
  "cmf_resource_content b64d i content =
     (case content of
        TextResourceContents uri mime text meta \<Rightarrow> Some (plain_cmf_resource i uri (Some text) None mime)
      | BlobResourceContents uri mime blob meta \<Rightarrow>
          map_option (\<lambda>bytes. plain_cmf_resource i uri None (Some bytes) mime) (b64d blob)
      | OtherResourceContents \<Rightarrow> None)"

definition resource_result_payload ::
  "cmf_access \<Rightarrow> (string \<Rightarrow> string option) \<Rightarrow> read_resource_result \<Rightarrow> string \<Rightarrow> cmf_message option" where
  "resource_result_payload acc b64d response i =
     map_option (message_payload acc AssistantRole)
       (collect_opt (\<lambda>content. map_option ResourcePart (cmf_resource_content b64d i content))
         (rrr_contents response))"

definition edit_resource ::
  "(string \<Rightarrow> string option) \<Rightarrow> (string \<Rightarrow> string) \<Rightarrow> resource_contents \<Rightarrow> content_part
    \<Rightarrow> resource_contents option" where
  "edit_resource b64d b64e original modified =
     (case modified of
        ResourcePart content \<Rightarrow>
          (case original of
             OtherResourceContents \<Rightarrow> None
           | _ \<Rightarrow>
              (case (cr_content content, cr_blob content) of
                 (Some text, _) \<Rightarrow>
                   Some (TextResourceContents (cr_uri content) (cr_mime_type content) text (rc_meta original))
               | (None, Some bytes) \<Rightarrow>
                   (let blob = (case original of
                        BlobResourceContents u m blob mt \<Rightarrow>
                          if b64d blob = Some bytes then blob else b64e bytes
                      | _ \<Rightarrow> b64e bytes)
                    in Some (BlobResourceContents (cr_uri content) (cr_mime_type content) blob (rc_meta original)))
               | (None, None) \<Rightarrow> None))
      | _ \<Rightarrow> None)"

definition resource_result_response ::
  "(string \<Rightarrow> string option) \<Rightarrow> (string \<Rightarrow> string) \<Rightarrow> read_resource_result \<Rightarrow> cmf_message
    \<Rightarrow> read_resource_result option" where
  "resource_result_response b64d b64e original payload =
     (if length (msg_content payload) \<noteq> length (rrr_contents original) then None
      else map_option (\<lambda>cs. original\<lparr>rrr_contents := cs\<rparr>)
        (collect_opt (\<lambda>(o1, m). edit_resource b64d b64e o1 m)
          (zip (rrr_contents original) (msg_content payload))))"

definition resource_to_payload ::
  "cmf_access \<Rightarrow> (string \<Rightarrow> string option) \<Rightarrow> read_resource_result \<Rightarrow> string \<Rightarrow> string
    \<Rightarrow> (cmf_message, error_data) result" where
  "resource_to_payload acc b64d response name i =
     ok_or (error_data INTERNAL_ERROR ''Resource response contains an unsupported content type'')
       (resource_result_payload acc b64d response i)"

definition resource_apply_payload ::
  "(string \<Rightarrow> string option) \<Rightarrow> (string \<Rightarrow> string) \<Rightarrow> read_resource_result \<Rightarrow> cmf_message \<Rightarrow> string \<Rightarrow> string
    \<Rightarrow> (read_resource_result, error_data) result" where
  "resource_apply_payload b64d b64e response payload name i =
     ok_or (error_data INTERNAL_ERROR ''Plugin returned a resource result the gateway cannot apply'')
       (resource_result_response b64d b64e response payload)"

text \<open>Prompts\<close>

datatype mcp_role = McpUser | McpAssistant

record prompt_message =
  pm_role :: mcp_role
  pm_content :: content_block

record get_prompt_result =
  gpr_messages :: "prompt_message list"
  gpr_description :: "string option"

record get_prompt_request =
  gp_name :: string
  gp_arguments :: "json_object option"

definition prompt_request_payload ::
  "cmf_access \<Rightarrow> get_prompt_request \<Rightarrow> string \<Rightarrow> string \<Rightarrow> string \<Rightarrow> cmf_message" where
  "prompt_request_payload acc request prompt_name backend i =
     message_payload acc UserRole
       [PromptRequestPart \<lparr>pq_request_id = i, pq_name = prompt_name,
          pq_arguments = (case gp_arguments request of Some a \<Rightarrow> a | None \<Rightarrow> []),
          pq_server_id = Some backend\<rparr>]"

definition prompt_request_arguments ::
  "cmf_access \<Rightarrow> cmf_message \<Rightarrow> string \<Rightarrow> string \<Rightarrow> string \<Rightarrow> json_object option" where
  "prompt_request_arguments acc payload prompt_name backend i =
     (case get_prompt_requests acc payload of
        [request] \<Rightarrow>
          if pq_name request \<noteq> prompt_name \<or> pq_request_id request \<noteq> i \<or> pq_server_id request \<noteq> Some backend
          then None else Some (pq_arguments request)
      | _ \<Rightarrow> None)"

definition cmf_content_part :: "string \<Rightarrow> content_block \<Rightarrow> content_part option" where
  "cmf_content_part i block =
     (case block of
        TextBlock text meta \<Rightarrow> Some (TextPart text)
      | ImageBlock data mime meta \<Rightarrow>
          Some (ImagePart \<lparr>source_type = ''base64'', media_data = data, media_type = Some mime,
            duration_ms = None\<rparr>)
      | AudioBlock data mime meta \<Rightarrow>
          Some (AudioPart \<lparr>source_type = ''base64'', media_data = data, media_type = Some mime,
            duration_ms = None\<rparr>)
      | ResourceBlock contents meta \<Rightarrow>
          (case contents of
             TextResourceContents uri mime text rmeta \<Rightarrow>
               Some (ResourcePart (plain_cmf_resource i uri (Some text) None mime))
           | BlobResourceContents uri mime blob rmeta \<Rightarrow>
               Some (ResourcePart (plain_cmf_resource i uri None None mime))
           | OtherResourceContents \<Rightarrow> None)
      | ResourceLinkBlock uri name meta \<Rightarrow>
          Some (ResourceRefPart \<lparr>rr_request_id = i, rr_uri = uri, rr_name = Some name, rr_type = ''uri'',
            rr_range_start = None, rr_range_end = None, rr_selector = None\<rparr>)
      | OtherBlock kind \<Rightarrow> None)"

definition cmf_prompt_message :: "string \<Rightarrow> prompt_message \<Rightarrow> cmf_message" where
  "cmf_prompt_message i message =
     CmfMessage ''2.0''
       (case pm_role message of McpAssistant \<Rightarrow> AssistantRole | McpUser \<Rightarrow> UserRole)
       (case cmf_content_part i (pm_content message) of None \<Rightarrow> [] | Some part \<Rightarrow> [part]) None"

definition prompt_result_payload ::
  "cmf_access \<Rightarrow> get_prompt_result \<Rightarrow> string \<Rightarrow> string \<Rightarrow> cmf_message" where
  "prompt_result_payload acc response prompt_name i =
     message_payload acc AssistantRole
       [PromptResultPart (PromptResult i prompt_name
          (map (cmf_prompt_message i) (gpr_messages response)) None False None)]"

definition single_prompt_result :: "cmf_access \<Rightarrow> cmf_message \<Rightarrow> prompt_result option" where
  "single_prompt_result acc payload =
     (case get_prompt_results acc payload of [result] \<Rightarrow> Some result | _ \<Rightarrow> None)"

definition prompt_result_rejection :: "cmf_access \<Rightarrow> cmf_message \<Rightarrow> string option" where
  "prompt_result_rejection acc payload =
     Option.bind (single_prompt_result acc payload)
       (\<lambda>result. if pr_is_error result
          then Some (case pr_error_message result of
              Some m \<Rightarrow> m | None \<Rightarrow> ''Plugin rejected the rendered prompt'')
          else None)"

definition inline_media_data :: "media_source \<Rightarrow> string option" where
  "inline_media_data source = (if source_type source = ''base64'' then Some (media_data source) else None)"

definition mcp_prompt_message :: "cmf_message \<Rightarrow> prompt_message option" where
  "mcp_prompt_message message =
     Option.bind (case msg_role message of
         AssistantRole \<Rightarrow> Some McpAssistant | UserRole \<Rightarrow> Some McpUser | _ \<Rightarrow> None)
       (\<lambda>role. case msg_content message of
          [part] \<Rightarrow>
            map_option (\<lambda>content. \<lparr>pm_role = role, pm_content = content\<rparr>)
              (case part of
                 TextPart text \<Rightarrow> Some (text_block text)
               | ImagePart content \<Rightarrow>
                   Option.bind (inline_media_data content)
                     (\<lambda>data. map_option (\<lambda>mime. ImageBlock data mime None) (media_type content))
               | AudioPart content \<Rightarrow>
                   Option.bind (inline_media_data content)
                     (\<lambda>data. map_option (\<lambda>mime. AudioBlock data mime None) (media_type content))
               | ResourcePart content \<Rightarrow>
                   map_option (\<lambda>text. ResourceBlock
                       (TextResourceContents (cr_uri content) (cr_mime_type content) text None) None)
                     (cr_content content)
               | ResourceRefPart content \<Rightarrow>
                   map_option (\<lambda>name. ResourceLinkBlock (rr_uri content) name None) (rr_name content)
               | _ \<Rightarrow> None)
        | _ \<Rightarrow> None)"

text \<open>One turn of the loop of \<open>prompt_result_response\<close>.\<close>

definition edit_prompt_message ::
  "rmcp_codec \<Rightarrow> string \<Rightarrow> prompt_message \<Rightarrow> cmf_message \<Rightarrow> prompt_message option" where
  "edit_prompt_message cdc i message edited =
     Option.bind (message_to_json cdc (cmf_prompt_message i message))
       (\<lambda>projected. Option.bind (message_to_json cdc edited)
         (\<lambda>wanted.
            if json_eq projected wanted then Some message
            else Option.bind (mcp_prompt_message edited)
              (\<lambda>rebuilt. Option.bind (message_to_json cdc (cmf_prompt_message i rebuilt))
                (\<lambda>again. if \<not> json_eq again wanted then None else Some rebuilt))))"

definition prompt_result_response ::
  "cmf_access \<Rightarrow> rmcp_codec \<Rightarrow> get_prompt_result \<Rightarrow> cmf_message \<Rightarrow> string \<Rightarrow> string
    \<Rightarrow> get_prompt_result option" where
  "prompt_result_response acc cdc original payload prompt_name i =
     Option.bind (single_prompt_result acc payload)
       (\<lambda>result.
          if pr_prompt_name result \<noteq> prompt_name \<or> pr_request_id result \<noteq> i \<or>
             pr_content result \<noteq> None \<or> pr_error_message result \<noteq> None
          then None
          else if length (pr_messages result) \<noteq> length (gpr_messages original) then None
          else map_option (\<lambda>ms. original\<lparr>gpr_messages := ms\<rparr>)
            (collect_opt (\<lambda>(m, edited). edit_prompt_message cdc i m edited)
              (zip (gpr_messages original) (pr_messages result))))"

definition prompt_to_payload ::
  "cmf_access \<Rightarrow> get_prompt_result \<Rightarrow> string \<Rightarrow> string \<Rightarrow> (cmf_message, error_data) result" where
  "prompt_to_payload acc response name i = Ok (prompt_result_payload acc response name i)"

definition prompt_apply_payload ::
  "cmf_access \<Rightarrow> rmcp_codec \<Rightarrow> get_prompt_result \<Rightarrow> cmf_message \<Rightarrow> string \<Rightarrow> string
    \<Rightarrow> (get_prompt_result, error_data) result" where
  "prompt_apply_payload acc cdc response payload name i =
     (case prompt_result_rejection acc payload of
        Some message \<Rightarrow> Err (error_data INVALID_REQUEST message)
      | None \<Rightarrow>
          ok_or (error_data INTERNAL_ERROR ''Plugin returned a prompt result the gateway cannot apply'')
            (prompt_result_response acc cdc response payload name i))"

text \<open>The hooks of the handle: before and after each operation.\<close>

definition before_tool_call ::
  "('m, 'f, 't, 'w) plugin_env \<Rightarrow> cmf_access \<Rightarrow> 'm runtime_state \<Rightarrow> call_tool_request \<Rightarrow> string \<Rightarrow> string
    \<Rightarrow> ('w plugin_world, error_data, ('m, 't) call_state pre_hook_result) sm" where
  "before_tool_call env acc st request tool_name backend =
     bind_sm (lift_sm (current_runtime st))
       (\<lambda>rt. bind_sm (before env rt Tool tool_name (tool_call_payload acc request tool_name backend)
           (\<lambda>payload i. bind_res
              (ok_or (error_data INVALID_PARAMS ''Plugin modified tool payload without a tool call'')
                (tool_call_arguments acc payload))
              (\<lambda>arguments. Ok (from_modified (ct_arguments request) arguments)))
           Unchanged)
         (\<lambda>(arguments, state). return_sm \<lparr>pre_arguments = arguments, pre_state = state\<rparr>))"

definition before_get_prompt ::
  "('m, 'f, 't, 'w) plugin_env \<Rightarrow> cmf_access \<Rightarrow> 'm runtime_state \<Rightarrow> get_prompt_request \<Rightarrow> string \<Rightarrow> string
    \<Rightarrow> ('w plugin_world, error_data, ('m, 't) call_state pre_hook_result) sm" where
  "before_get_prompt env acc st request prompt_name backend =
     bind_sm (lift_sm (current_runtime st))
       (\<lambda>rt. bind_sm (before env rt Prompt prompt_name (prompt_request_payload acc request prompt_name backend)
           (\<lambda>payload i. bind_res
              (ok_or (error_data INVALID_PARAMS ''Plugin returned a prompt request the gateway cannot apply'')
                (prompt_request_arguments acc payload prompt_name backend i))
              (\<lambda>arguments. Ok (from_modified (gp_arguments request) arguments)))
           Unchanged)
         (\<lambda>(arguments, state). return_sm \<lparr>pre_arguments = arguments, pre_state = state\<rparr>))"

record ('m, 't) resource_hook_state =
  rewritten_uri :: "string option"
  resource_call :: "('m, 't) call_state option"

definition before_read_resource ::
  "('m, 'f, 't, 'w) plugin_env \<Rightarrow> cmf_access \<Rightarrow> 'm runtime_state \<Rightarrow> string
    \<Rightarrow> ('w plugin_world, error_data, ('m, 't) resource_hook_state) sm" where
  "before_read_resource env acc st uri =
     bind_sm (lift_sm (current_runtime st))
       (\<lambda>rt. bind_sm (before env rt Resource uri (resource_request_payload acc uri)
           (\<lambda>payload i. case msg_content payload of
              [ResourceRefPart content] \<Rightarrow> Ok (Some (rr_uri content))
            | _ \<Rightarrow> Err (error_data INTERNAL_ERROR ''Plugin returned an invalid resource request''))
           None)
         (\<lambda>(rewritten, call). return_sm \<lparr>rewritten_uri = rewritten, resource_call = call\<rparr>))"

definition after_tool_call ::
  "('m, 'f, 't, 'w) plugin_env \<Rightarrow> cmf_access \<Rightarrow> rmcp_codec \<Rightarrow> ('m, 't) call_state \<Rightarrow> call_tool_result
    \<Rightarrow> ('w plugin_world, error_data, call_tool_result) sm" where
  "after_tool_call env acc cdc call response w =
     (case call_after env Tool (tool_to_payload acc cdc) (tool_apply_payload acc cdc) call response w of
        (w, _, r) \<Rightarrow> (w, r))"

definition after_get_prompt ::
  "('m, 'f, 't, 'w) plugin_env \<Rightarrow> cmf_access \<Rightarrow> rmcp_codec \<Rightarrow> ('m, 't) call_state \<Rightarrow> get_prompt_result
    \<Rightarrow> ('w plugin_world, error_data, get_prompt_result) sm" where
  "after_get_prompt env acc cdc call response w =
     (case call_after env Prompt (prompt_to_payload acc) (prompt_apply_payload acc cdc) call response w of
        (w, _, r) \<Rightarrow> (w, r))"

definition after_read_resource ::
  "('m, 'f, 't, 'w) plugin_env \<Rightarrow> cmf_access \<Rightarrow> (string \<Rightarrow> string option) \<Rightarrow> (string \<Rightarrow> string)
    \<Rightarrow> ('m, 't) resource_hook_state \<Rightarrow> read_resource_result
    \<Rightarrow> ('w plugin_world, error_data, read_resource_result) sm" where
  "after_read_resource env acc b64d b64e state response w =
     (case resource_call state of
        Some call \<Rightarrow>
          (case call_after env Resource (resource_to_payload acc b64d) (resource_apply_payload b64d b64e)
                  call response w of
             (w, _, r) \<Rightarrow> (w, r))
      | None \<Rightarrow> (w, Ok response))"

text \<open>\<open>after_stream_event\<close>: a denied event is \<open>None\<close>; the call state is shared with the final response.\<close>

definition after_stream_event ::
  "('m, 'f, 't, 'w) plugin_env \<Rightarrow> cmf_access \<Rightarrow> ('e \<Rightarrow> json option) \<Rightarrow> (json \<Rightarrow> 'e option)
    \<Rightarrow> ('m, 't) call_state \<Rightarrow> 'e \<Rightarrow> 'w plugin_world
    \<Rightarrow> 'w plugin_world \<times> ('m, 't) call_state \<times> ('e option, error_data) result" where
  "after_stream_event env acc to_json from_json call event w =
     (case call_invoke env Tool (event_to_payload acc to_json) call event w of
        (w, call, Err e) \<Rightarrow> (w, call, Err e)
      | (w, call, Ok result) \<Rightarrow>
          (w, call,
           if is_denied result then Ok None
           else bind_res (call_apply (event_apply_payload acc from_json) call event result)
             (\<lambda>event. Ok (Some event))))"

section \<open>Accessors of messages\<close>

text \<open>The documented behaviour of the accessors: the parts of their kind, in order.\<close>

definition parts_of :: "(content_part \<Rightarrow> 'a option) \<Rightarrow> cmf_message \<Rightarrow> 'a list" where
  "parts_of f m = List.map_filter f (msg_content m)"

definition tool_call_part :: "content_part \<Rightarrow> tool_call option" where
  "tool_call_part p = (case p of ToolCallPart c \<Rightarrow> Some c | _ \<Rightarrow> None)"
definition tool_result_part :: "content_part \<Rightarrow> tool_result option" where
  "tool_result_part p = (case p of ToolResultPart c \<Rightarrow> Some c | _ \<Rightarrow> None)"
definition prompt_request_part :: "content_part \<Rightarrow> prompt_request option" where
  "prompt_request_part p = (case p of PromptRequestPart c \<Rightarrow> Some c | _ \<Rightarrow> None)"
definition prompt_result_part :: "content_part \<Rightarrow> prompt_result option" where
  "prompt_result_part p = (case p of PromptResultPart c \<Rightarrow> Some c | _ \<Rightarrow> None)"
definition text_part :: "content_part \<Rightarrow> string option" where
  "text_part p = (case p of TextPart t \<Rightarrow> Some t | _ \<Rightarrow> None)"

definition cmf_access_laws :: "cmf_access \<Rightarrow> bool" where
  "cmf_access_laws acc \<longleftrightarrow>
     (\<forall>m. get_tool_calls acc m = parts_of tool_call_part m) \<and>
     (\<forall>m. get_tool_results acc m = parts_of tool_result_part m) \<and>
     (\<forall>m. get_prompt_requests acc m = parts_of prompt_request_part m) \<and>
     (\<forall>m. get_prompt_results acc m = parts_of prompt_result_part m) \<and>
     (\<forall>m. parts_of text_part m = [] \<longrightarrow> get_text_content acc m = [])"

definition sample_access :: cmf_access where
  "sample_access = \<lparr>SCHEMA_VERSION = ''2.0'', get_tool_calls = parts_of tool_call_part,
     get_tool_results = parts_of tool_result_part, get_prompt_requests = parts_of prompt_request_part,
     get_prompt_results = parts_of prompt_result_part, get_text_content = \<lambda>m. concat (parts_of text_part m)\<rparr>"

lemma sample_access_laws: "cmf_access_laws sample_access"
  by (simp add: cmf_access_laws_def sample_access_def)

lemmas part_simps = parts_of_def tool_call_part_def tool_result_part_def prompt_request_part_def
  prompt_result_part_def text_part_def message_payload_def List.map_filter_simps

section \<open>The responses fulfil the contract\<close>

definition tool_norm :: "call_tool_result \<Rightarrow> call_tool_result" where
  "tool_norm r = r\<lparr>ctr_is_error := Some (error_flag r)\<rparr>"

definition tool_stable :: "cmf_access \<Rightarrow> rmcp_codec \<Rightarrow> call_tool_result \<Rightarrow> bool" where
  "tool_stable acc cdc r \<longleftrightarrow> cmf_access_laws acc \<and>
     (\<exists>j. result_to_json cdc r = Some j \<and> result_from_json cdc j = Some r)"

lemma tool_echo:
  assumes "tool_stable acc cdc r"
  shows "tool_result_response acc cdc r (tool_result_payload acc cdc name r i) = tool_norm r"
  using assms
  by (auto simp: tool_stable_def cmf_access_laws_def tool_result_response_def tool_result_payload_def
      tool_json_result_payload_def json_or_null_def first_of_def tool_norm_def part_simps Let_def)

interpretation tool_response: cmf_response Tool "tool_to_payload acc cdc" "tool_apply_payload acc cdc"
  "tool_stable acc cdc" tool_norm for acc cdc
  by unfold_locales (auto simp: tool_to_payload_def tool_apply_payload_def tool_echo)

definition event_stable :: "cmf_access \<Rightarrow> ('e \<Rightarrow> json option) \<Rightarrow> (json \<Rightarrow> 'e option) \<Rightarrow> 'e \<Rightarrow> bool" where
  "event_stable acc to_json from_json e \<longleftrightarrow> cmf_access_laws acc \<and>
     (\<exists>j. to_json e = Some j \<and> from_json j = Some e)"

interpretation event_response: cmf_response Tool "event_to_payload acc to_json" "event_apply_payload acc from_json"
  "event_stable acc to_json from_json" "\<lambda>e. e" for acc to_json from_json
  by unfold_locales
    (auto simp: event_stable_def event_to_payload_def event_apply_payload_def cmf_access_laws_def
      tool_result_content_def tool_json_result_payload_def json_or_null_def first_of_def part_simps
      bind_res_eq_Ok ok_or_eq_Ok)

definition prompt_stable :: "cmf_access \<Rightarrow> rmcp_codec \<Rightarrow> get_prompt_result \<Rightarrow> bool" where
  "prompt_stable acc cdc r \<longleftrightarrow> cmf_access_laws acc \<and>
     (\<forall>m. \<exists>j. message_to_json cdc m = Some j \<and> json_wf j)"

lemma collect_opt_id: "(\<And>x. x \<in> set xs \<Longrightarrow> f x = Some (g x)) \<Longrightarrow> collect_opt f xs = Some (map g xs)"
  by (induction xs) auto

lemma prompt_echo:
  assumes "prompt_stable acc cdc r"
  shows "prompt_result_response acc cdc r (prompt_result_payload acc r name i) name i = Some r"
proof -
  have edit: "edit_prompt_message cdc i m (cmf_prompt_message i m) = Some m" for m
  proof -
    from assms obtain j where "message_to_json cdc (cmf_prompt_message i m) = Some j" "json_wf j"
      unfolding prompt_stable_def by blast
    then show ?thesis by (simp add: edit_prompt_message_def json_eq_refl)
  qed
  let ?ms = "gpr_messages r"
  have "collect_opt (\<lambda>(m, edited). edit_prompt_message cdc i m edited) (zip ?ms (map (cmf_prompt_message i) ?ms))
      = Some (map fst (zip ?ms (map (cmf_prompt_message i) ?ms)))"
    by (rule collect_opt_id) (auto simp: zip_map2 zip_same_conv_map edit)
  moreover have "single_prompt_result acc (prompt_result_payload acc r name i) =
      Some (PromptResult i name (map (cmf_prompt_message i) ?ms) None False None)"
    using assms by (simp add: prompt_stable_def cmf_access_laws_def single_prompt_result_def
        prompt_result_payload_def part_simps)
  ultimately show ?thesis by (simp add: prompt_result_response_def)
qed

lemma prompt_no_rejection:
  "cmf_access_laws acc \<Longrightarrow> prompt_result_rejection acc (prompt_result_payload acc r name i) = None"
  by (simp add: cmf_access_laws_def prompt_result_rejection_def single_prompt_result_def
      prompt_result_payload_def part_simps)

interpretation prompt_response: cmf_response Prompt "prompt_to_payload acc" "prompt_apply_payload acc cdc"
  "prompt_stable acc cdc" "\<lambda>r. r" for acc cdc
  by unfold_locales
    (auto simp: prompt_to_payload_def prompt_apply_payload_def prompt_echo prompt_no_rejection
      prompt_stable_def ok_or_eq_Ok)

lemma resource_edit_echo:
  "cmf_resource_content b64d i c = Some m \<Longrightarrow> edit_resource b64d b64e c (ResourcePart m) = Some c"
  by (auto simp: cmf_resource_content_def edit_resource_def plain_cmf_resource_def Let_def
      split: resource_contents.splits)

lemma resource_echo:
  assumes "resource_result_payload acc b64d r i = Some p"
  shows "resource_result_response b64d b64e r p = Some r"
proof -
  from assms obtain ps where ps: "p = message_payload acc AssistantRole ps"
      "list_all2 (\<lambda>c q. map_option ResourcePart (cmf_resource_content b64d i c) = Some q) (rrr_contents r) ps"
    by (auto simp: resource_result_payload_def collect_opt_Some_iff)
  have "collect_opt (\<lambda>(o1, m). edit_resource b64d b64e o1 m) (zip (rrr_contents r) ps) =
      Some (map fst (zip (rrr_contents r) ps))"
    using ps(2) by (intro collect_opt_id) (auto simp: list_all2_iff resource_edit_echo)
  with ps show ?thesis
    by (simp add: resource_result_response_def message_payload_def list_all2_lengthD)
qed

interpretation resource_response: cmf_response Resource "resource_to_payload acc b64d"
  "resource_apply_payload b64d b64e" "\<lambda>r. True" "\<lambda>r. r" for acc b64d b64e
  by unfold_locales (auto simp: resource_to_payload_def resource_apply_payload_def resource_echo ok_or_eq_Ok)

section \<open>What plugins see and what clients get\<close>


text \<open>A codec on which one tool result and the texts of messages are serialised.\<close>

definition sample_result :: call_tool_result where
  "sample_result = \<lparr>ctr_content = [text_block ''hi''], ctr_structured = None, ctr_is_error = None, ctr_meta = None\<rparr>"

definition sample_codec :: rmcp_codec where
  "sample_codec = \<lparr>result_to_json = \<lambda>r. Some JNull, result_from_json = \<lambda>j. Some sample_result,
     result_success = \<lambda>c. sample_result, result_error = \<lambda>c. sample_result,
     result_structured = \<lambda>j. sample_result, result_structured_error = \<lambda>j. sample_result,
     message_to_json = \<lambda>m. Some (JString (concat (parts_of text_part m)))\<rparr>"

definition sample_prompt :: "string \<Rightarrow> get_prompt_result" where
  "sample_prompt t = \<lparr>gpr_messages = [\<lparr>pm_role = McpUser, pm_content = text_block t\<rparr>], gpr_description = None\<rparr>"

definition sample_read :: "string \<Rightarrow> read_resource_result" where
  "sample_read t = \<lparr>rrr_contents = [TextResourceContents ''u'' None t None], rrr_meta = None\<rparr>"

lemma sample_stable: "tool_stable sample_access sample_codec sample_result"
    "prompt_stable sample_access sample_codec q"
  by (simp_all add: tool_stable_def prompt_stable_def sample_access_laws sample_codec_def)


text \<open>
  Property C27 (prompt edits are never lost): when the gateway accepts a plugin's edit of a prompt,
  the prompt the client gets has as many messages as the plugin returned, and what a plugin would
  see of each of them is, as JSON, what the plugin returned. In particular the gateway never falls
  back to a message the plugin has changed.
\<close>

theorem prompt_edits_applied:
  assumes "prompt_apply_payload acc cdc original payload name i = Ok delivered"
  shows "\<exists>result. single_prompt_result acc payload = Some result \<and> \<not> pr_is_error result \<and>
     list_all2 (\<lambda>m edited. \<exists>seen wanted. message_to_json cdc (cmf_prompt_message i m) = Some seen \<and>
         message_to_json cdc edited = Some wanted \<and> json_eq seen wanted)
       (gpr_messages delivered) (pr_messages result)"
proof -
  from assms have rej: "prompt_result_rejection acc payload = None"
    and resp: "prompt_result_response acc cdc original payload name i = Some delivered"
    by (auto simp: prompt_apply_payload_def ok_or_eq_Ok split: option.splits)
  from resp obtain result ms where r: "single_prompt_result acc payload = Some result"
      "length (pr_messages result) = length (gpr_messages original)" "delivered = original\<lparr>gpr_messages := ms\<rparr>"
      "collect_opt (\<lambda>(m, edited). edit_prompt_message cdc i m edited)
        (zip (gpr_messages original) (pr_messages result)) = Some ms"
    by (auto simp: prompt_result_response_def bind_eq_Some_conv split: if_splits)
  have edit: "edit_prompt_message cdc i m edited = Some m' \<Longrightarrow>
      \<exists>seen wanted. message_to_json cdc (cmf_prompt_message i m') = Some seen \<and>
         message_to_json cdc edited = Some wanted \<and> json_eq seen wanted" for m edited m'
    by (auto simp: edit_prompt_message_def bind_eq_Some_conv split: if_splits)
  from r(2,4) have "list_all2 (\<lambda>m edited. \<exists>seen wanted. message_to_json cdc (cmf_prompt_message i m) = Some seen \<and>
         message_to_json cdc edited = Some wanted \<and> json_eq seen wanted) ms (pr_messages result)"
    unfolding collect_opt_Some_iff list_all2_conv_all_nth using edit by (auto simp: list_all2_conv_all_nth)
  moreover from rej r(1) have "\<not> pr_is_error result" by (auto simp: prompt_result_rejection_def)
  ultimately show ?thesis using r(1,3) by auto
qed

definition sample_edit :: cmf_message where
  "sample_edit = prompt_result_payload sample_access (sample_prompt ''redacted'') ''n'' ''i''"

theorem prompt_edits_applied_witness:
  "prompt_apply_payload sample_access sample_codec (sample_prompt ''secret'') sample_edit ''n'' ''i'' =
     Ok (sample_prompt ''redacted'') \<and>
   (\<exists>result. single_prompt_result sample_access sample_edit = Some result \<and> \<not> pr_is_error result)"
proof -
  have e: "prompt_apply_payload sample_access sample_codec (sample_prompt ''secret'') sample_edit ''n'' ''i'' =
      Ok (sample_prompt ''redacted'')" by code_simp
  from prompt_edits_applied [OF e] e show ?thesis by blast
qed

definition shows_resource ::
  "(string \<Rightarrow> string option) \<Rightarrow> resource_contents \<Rightarrow> content_part \<Rightarrow> bool" where
  "shows_resource b64d c part \<longleftrightarrow> (\<exists>res. part = ResourcePart res \<and>
     rc_uri c = cr_uri res \<and> rc_mime c = cr_mime_type res \<and>
     (case c of
        TextResourceContents u m text mt \<Rightarrow> cr_content res = Some text
      | BlobResourceContents u m blob mt \<Rightarrow> cr_content res = None \<and> cr_blob res = b64d blob \<and> b64d blob \<noteq> None
      | OtherResourceContents \<Rightarrow> False))"

lemma edit_resource_shows:
  assumes "\<And>b. b64d (b64e b) = Some b" "edit_resource b64d b64e c part = Some c'"
  shows "shows_resource b64d c' part \<and> rc_meta c' = rc_meta c"
  using assms(2)
  by (auto simp: edit_resource_def shows_resource_def Let_def assms(1)
      split: content_part.splits resource_contents.splits option.splits if_splits)

text \<open>
  Resource edits are never lost: when the gateway accepts a plugin's edit of a
  resource, every content the client gets has the URI, the media type and the text or the bytes of
  the plugin's part, and the metadata of the backend's content.
\<close>

theorem resource_edits_applied:
  assumes "\<And>b. b64d (b64e b) = Some b"
    and "resource_apply_payload b64d b64e original payload name i = Ok delivered"
  shows "list_all2 (shows_resource b64d) (rrr_contents delivered) (msg_content payload) \<and>
     list_all2 (\<lambda>c c'. rc_meta c' = rc_meta c) (rrr_contents original) (rrr_contents delivered)"
proof -
  from assms(2) obtain cs where cs: "length (msg_content payload) = length (rrr_contents original)"
      "delivered = original\<lparr>rrr_contents := cs\<rparr>"
      "list_all2 (\<lambda>(o1, m) c. edit_resource b64d b64e o1 m = Some c) (zip (rrr_contents original) (msg_content payload)) cs"
    by (auto simp: resource_apply_payload_def resource_result_response_def ok_or_eq_Ok
        collect_opt_Some_iff case_prod_unfold split: if_splits)
  then show ?thesis
    using edit_resource_shows [of b64d b64e, OF assms(1)] by (auto simp: list_all2_conv_all_nth)
qed

theorem resource_edits_applied_witness:
  "resource_apply_payload Some (\<lambda>b. b) (sample_read ''secret'')
     (message_payload sample_access AssistantRole [ResourcePart (plain_cmf_resource ''i'' ''u'' (Some ''red'') None None)])
     ''n'' ''i'' = Ok (sample_read ''red'') \<and>
   list_all2 (shows_resource Some) (rrr_contents (sample_read ''red''))
     [ResourcePart (plain_cmf_resource ''i'' ''u'' (Some ''red'') None None)]"
proof -
  let ?p = "message_payload sample_access AssistantRole [ResourcePart (plain_cmf_resource ''i'' ''u'' (Some ''red'') None None)]"
  have e: "resource_apply_payload Some (\<lambda>b. b) (sample_read ''secret'') ?p ''n'' ''i'' = Ok (sample_read ''red'')"
    by code_simp
  have law: "Some ((\<lambda>b. b) b) = Some b" for b :: string by simp
  from resource_edits_applied [OF law e] e show ?thesis by (simp add: message_payload_def)
qed

end
