(* ===== verification/PluginRegistry.thy ===== *)
theory PluginRegistry
  imports HookResponses
begin

text \<open>
  The plugin runtime registry (\<open>contextforge-data-plane-cpex/src/config.rs\<close>, \<open>factory.rs\<close>,
  \<open>registry\<close>): the configuration document in Redis, the shared runtime that calls use, and the
  watcher that reloads it. The record \<open>document_env\<close> holds the connection and the decoders of the
  crates \<open>redis\<close>, \<open>serde_json\<close> and \<open>rmp_serde\<close>; connections have type \<open>'c\<close>.
\<close>

section \<open>Definitions\<close>

definition RUNTIME_PLUGIN_CONFIG_KEY :: string where
  "RUNTIME_PLUGIN_CONFIG_KEY = ''ContextForgeGatewayRuntimePluginConfig''"

definition RUNTIME_PLUGIN_CONFIG_VERSION :: nat where
  "RUNTIME_PLUGIN_CONFIG_VERSION = 1"

record runtime_plugin_document =
  doc_version :: nat
  doc_cpex :: cpex_config

record loaded_config =
  loaded_document :: runtime_plugin_document
  fingerprint :: string

record ('c, 'w) document_env =
  document_from_json :: "string \<Rightarrow> runtime_plugin_document option"
  document_from_rmp :: "string \<Rightarrow> runtime_plugin_document option"
  new_connection :: "'w \<Rightarrow> 'w \<times> 'c option"
  query_get :: "'c \<Rightarrow> string \<Rightarrow> 'w \<Rightarrow> 'w \<times> string option option"

definition decode_config_document ::
  "('c, 'w) document_env \<Rightarrow> string \<Rightarrow> (runtime_plugin_document, runtime_error) result" where
  "decode_config_document env config =
     (case document_from_json env config of
        Some d \<Rightarrow> Ok d
      | None \<Rightarrow> ok_or ConfigWrongFormat (document_from_rmp env config))"

definition loaded_decode ::
  "('c, 'w) document_env \<Rightarrow> string \<Rightarrow> (loaded_config, runtime_error) result" where
  "loaded_decode env config =
     bind_res (decode_config_document env config)
       (\<lambda>d. Ok \<lparr>loaded_document = d, fingerprint = config\<rparr>)"

definition cpex_config_of :: "runtime_plugin_document \<Rightarrow> (cpex_config, runtime_error) result" where
  "cpex_config_of document =
     (if doc_version document \<noteq> RUNTIME_PLUGIN_CONFIG_VERSION then Err ConfigWrongFormat
      else Ok (doc_cpex document))"

text \<open>\<open>RedisRuntimePluginConfigStore\<close>: its state is the connection, made at first use.\<close>

definition store_connection ::
  "('c, 'w) document_env \<Rightarrow> 'c option \<Rightarrow> 'w \<Rightarrow> 'w \<times> 'c option \<times> ('c, runtime_error) result" where
  "store_connection env conn w =
     (case conn of
        Some c \<Rightarrow> (w, conn, Ok c)
      | None \<Rightarrow>
          (case new_connection env w of
             (w, None) \<Rightarrow> (w, None, Err ConfigStoreUnavailable)
           | (w, Some c) \<Rightarrow> (w, Some c, Ok c)))"

definition store_get_document ::
  "('c, 'w) document_env \<Rightarrow> 'c option \<Rightarrow> 'w \<Rightarrow> 'w \<times> 'c option \<times> (loaded_config option, runtime_error) result"
  where
  "store_get_document env conn w =
     (case store_connection env conn w of
        (w, conn, Err e) \<Rightarrow> (w, conn, Err e)
      | (w, conn, Ok c) \<Rightarrow>
          (case query_get env c RUNTIME_PLUGIN_CONFIG_KEY w of
             (w, None) \<Rightarrow> (w, conn, Err ConfigStoreUnavailable)
           | (w, Some None) \<Rightarrow> (w, conn, Ok None)
           | (w, Some (Some config)) \<Rightarrow>
               (w, conn, bind_res (loaded_decode env config) (\<lambda>l. Ok (Some l)))))"

text \<open>\<open>CmfPluginFactory::create\<close>: one handler per declared supported hook, at least one.\<close>

definition factory_create ::
  "(cpex_plugin \<Rightarrow> 'p) \<Rightarrow> cpex_plugin \<Rightarrow> ('p \<times> string list, string) result" where
  "factory_create build config =
     (let plugin = build config;
          handlers = List.map_filter supported_cmf_hook_name (plugin_hooks config)
      in if handlers = [] then Err (''plugin '' @ [CHR 39] @ plugin_name config @ [CHR 39] @
             '' does not declare supported CMF hooks'')
         else Ok (plugin, handlers))"

text \<open>
  The registry: the shared runtime, the connection of its store (\<open>None\<close> in \<open>reg_store\<close> when the
  registry has no store), the factories, whether the watcher runs and shares the factories, and the
  interval. \<open>reg_world\<close> is the world that plugins and Redis live in.
\<close>

record ('m, 'f, 'c, 'w) registry =
  reg_runtime :: "'m runtime_state"
  reg_store :: "'c option option"
  reg_factories :: 'f
  reg_watching :: bool
  reg_interval :: int
  reg_world :: "'w plugin_world"

definition DEFAULT_CONFIG_WATCHER_INTERVAL :: int where
  "DEFAULT_CONFIG_WATCHER_INTERVAL = 10 * 60"

definition default_registry ::
  "('m, 'f, 't, 'w) plugin_env \<Rightarrow> 'f \<Rightarrow> 'w plugin_world \<Rightarrow> ('m, 'f, 'c, 'w) registry" where
  "default_registry env factories w =
     \<lparr>reg_runtime = Active (default_runtime env), reg_store = None, reg_factories = factories,
      reg_watching = False, reg_interval = DEFAULT_CONFIG_WATCHER_INTERVAL, reg_world = w\<rparr>"

definition with_redis_config ::
  "('m, 'f, 't, 'w) plugin_env \<Rightarrow> 'f \<Rightarrow> 'w plugin_world \<Rightarrow> ('m, 'f, 'c, 'w) registry" where
  "with_redis_config env factories w = (default_registry env factories w)\<lparr>reg_store := Some None\<rparr>"

definition register_factory ::
  "('f \<Rightarrow> string \<Rightarrow> 'g \<Rightarrow> 'f) \<Rightarrow> string \<Rightarrow> 'g \<Rightarrow> ('m, 'f, 'c, 'w) registry
    \<Rightarrow> ('m, 'f, 'c, 'w) registry \<times> (unit, runtime_error) result" where
  "register_factory register kind factory r =
     (if reg_watching r then (r, Err FactoryRegistryShared)
      else (r\<lparr>reg_factories := register (reg_factories r) kind factory\<rparr>, Ok ()))"

definition apply_runtime_config ::
  "('m, 'f, 't, 'w) plugin_env \<Rightarrow> cpex_config option \<Rightarrow> ('m, 'f, 'c, 'w) registry
    \<Rightarrow> ('m, 'f, 'c, 'w) registry \<times> (unit, runtime_error) result" where
  "apply_runtime_config env config r =
     (case config of
        None \<Rightarrow> (r\<lparr>reg_runtime := Active (default_runtime env)\<rparr>, Ok ())
      | Some config \<Rightarrow>
          (case runtime_from_config env (reg_factories r) config (reg_world r) of
             (w, Err e) \<Rightarrow> (r\<lparr>reg_world := w\<rparr>, Err e)
           | (w, Ok rt) \<Rightarrow> (r\<lparr>reg_world := w, reg_runtime := Active rt\<rparr>, Ok ())))"

definition set_runtime_failed :: "runtime_error \<Rightarrow> ('m, 'f, 'c, 'w) registry \<Rightarrow> ('m, 'f, 'c, 'w) registry" where
  "set_runtime_failed e r = r\<lparr>reg_runtime := Failed (runtime_error_text e)\<rparr>"

text \<open>The inner block of \<open>reload_runtime\<close>, and the function that marks a failure.\<close>

definition try_reload ::
  "('m, 'f, 't, 'w) plugin_env \<Rightarrow> ('c, 'w plugin_world) document_env \<Rightarrow> 'c option \<Rightarrow> string option
    \<Rightarrow> ('m, 'f, 'c, 'w) registry \<Rightarrow> ('m, 'f, 'c, 'w) registry \<times> (string option, runtime_error) result" where
  "try_reload env denv conn last_applied r =
     (case store_get_document denv conn (reg_world r) of
        (w, conn, fetched) \<Rightarrow>
          (let r = r\<lparr>reg_world := w, reg_store := Some conn\<rparr> in
           case bind_res fetched (ok_or ConfigMissing) of
             Err e \<Rightarrow> (r, Err e)
           | Ok config \<Rightarrow>
               if last_applied = Some (fingerprint config) then (r, Ok None)
               else (case cpex_config_of (loaded_document config) of
                 Err e \<Rightarrow> (r, Err e)
               | Ok cpex \<Rightarrow>
                   (case apply_runtime_config env (Some cpex) r of
                      (r, Err e) \<Rightarrow> (r, Err e)
                    | (r, Ok _) \<Rightarrow> (r, Ok (Some (fingerprint config)))))))"

definition reload_runtime ::
  "('m, 'f, 't, 'w) plugin_env \<Rightarrow> ('c, 'w plugin_world) document_env \<Rightarrow> string option
    \<Rightarrow> ('m, 'f, 'c, 'w) registry \<Rightarrow> ('m, 'f, 'c, 'w) registry \<times> (string option, runtime_error) result" where
  "reload_runtime env denv last_applied r =
     (case reg_store r of
        None \<Rightarrow> (r, Ok None)
      | Some conn \<Rightarrow>
          (case try_reload env denv conn last_applied r of
             (r, Err e) \<Rightarrow> (set_runtime_failed e r, Err e)
           | (r, Ok x) \<Rightarrow> (r, Ok x)))"

definition reload ::
  "('m, 'f, 't, 'w) plugin_env \<Rightarrow> ('c, 'w plugin_world) document_env \<Rightarrow> ('m, 'f, 'c, 'w) registry
    \<Rightarrow> ('m, 'f, 'c, 'w) registry \<times> (unit, runtime_error) result" where
  "reload env denv r =
     (case reload_runtime env denv None r of (r, x) \<Rightarrow> (r, bind_res x (\<lambda>_. Ok ())))"

text \<open>
  \<open>CpexRuntimeRegistry::apply_config\<close>, and what a handle reads: it shares the cell of the runtime, so it sees
  the state of the registry at the time of the call.
\<close>

definition apply_config ::
  "('m, 'f, 't, 'w) plugin_env \<Rightarrow> cpex_config option \<Rightarrow> ('m, 'f, 'c, 'w) registry
    \<Rightarrow> ('m, 'f, 'c, 'w) registry \<times> (unit, runtime_error) result" where
  "apply_config env config r = apply_runtime_config env config r"

definition handle_current :: "('m, 'f, 'c, 'w) registry \<Rightarrow> ('m plugin_runtime, error_data) result" where
  "handle_current r = current_runtime (reg_runtime r)"

text \<open>\<open>start_config_watcher\<close>: the returned value is the watcher's variable \<open>last_applied_config\<close>.\<close>

definition start_config_watcher ::
  "string option \<Rightarrow> ('m, 'f, 'c, 'w) registry \<Rightarrow> ('m, 'f, 'c, 'w) registry \<times> string option option" where
  "start_config_watcher initial r =
     (if reg_store r = None then (r, None)
      else if reg_watching r then (r, None)
      else (r\<lparr>reg_watching := True\<rparr>, Some initial))"

definition initialize_registry ::
  "('m, 'f, 't, 'w) plugin_env \<Rightarrow> ('c, 'w plugin_world) document_env \<Rightarrow> ('m, 'f, 'c, 'w) registry
    \<Rightarrow> ('m, 'f, 'c, 'w) registry \<times> (string option option, runtime_error) result" where
  "initialize_registry env denv r =
     (case reload_runtime env denv None r of
        (r, Err e) \<Rightarrow> (r, Err e)
      | (r, Ok initial) \<Rightarrow> (case start_config_watcher initial r of (r, watcher) \<Rightarrow> (r, Ok watcher)))"

text \<open>One turn of the watcher's loop, after its sleep.\<close>

definition watcher_turn ::
  "('m, 'f, 't, 'w) plugin_env \<Rightarrow> ('c, 'w plugin_world) document_env \<Rightarrow> string option
    \<Rightarrow> ('m, 'f, 'c, 'w) registry \<Rightarrow> ('m, 'f, 'c, 'w) registry \<times> string option" where
  "watcher_turn env denv last_applied r =
     (case reload_runtime env denv last_applied r of
        (r, Ok (Some fp)) \<Rightarrow> (r, Some fp)
      | (r, Ok None) \<Rightarrow> (r, last_applied)
      | (r, Err e) \<Rightarrow> (r, None))"

section \<open>Reloading\<close>

definition built ::
  "('m, 'f, 't, 'w) plugin_env \<Rightarrow> 'f \<Rightarrow> cpex_config \<Rightarrow> 'm plugin_runtime \<Rightarrow> bool" where
  "built env factories config rt \<longleftrightarrow>
     (\<exists>w w'. runtime_from_config env factories config w = (w', Ok rt))"

definition built_from ::
  "('m, 'f, 't, 'w) plugin_env \<Rightarrow> ('c, 'w plugin_world) document_env \<Rightarrow> 'f \<Rightarrow> string
    \<Rightarrow> 'm plugin_runtime \<Rightarrow> bool" where
  "built_from env denv factories fp rt \<longleftrightarrow>
     (\<exists>d config. decode_config_document denv fp = Ok d \<and> cpex_config_of d = Ok config \<and>
        built env factories config rt)"

lemma store_get_document_Ok:
  assumes "store_get_document denv conn w = (w', conn', Ok (Some l))"
  shows "decode_config_document denv (fingerprint l) = Ok (loaded_document l)"
  using assms
  by (auto simp: store_get_document_def loaded_decode_def bind_res_eq_Ok
      split: prod.splits sum.splits option.splits)

lemma apply_runtime_config_cases:
  obtains e w where "runtime_from_config env (reg_factories r) config (reg_world r) = (w, Err e)"
      "apply_runtime_config env (Some config) r = (r\<lparr>reg_world := w\<rparr>, Err e)"
  | rt w where "built env (reg_factories r) config rt"
      "runtime_from_config env (reg_factories r) config (reg_world r) = (w, Ok rt)"
      "apply_runtime_config env (Some config) r = (r\<lparr>reg_world := w, reg_runtime := Active rt\<rparr>, Ok ())"
proof -
  obtain w x where x: "runtime_from_config env (reg_factories r) config (reg_world r) = (w, x)" by fastforce
  show ?thesis
  proof (cases x)
    case (Inl e)
    with x that(1) show ?thesis by (simp add: apply_runtime_config_def)
  next
    case (Inr rt)
    with x that(2) show ?thesis by (fastforce simp: apply_runtime_config_def built_def)
  qed
qed

text \<open>The outcomes of a reload of a registry with a store.\<close>

definition reload_outcome ::
  "('m, 'f, 't, 'w) plugin_env \<Rightarrow> ('c, 'w plugin_world) document_env \<Rightarrow> string option
    \<Rightarrow> ('m, 'f, 'c, 'w) registry \<Rightarrow> ('m, 'f, 'c, 'w) registry \<Rightarrow> (string option, runtime_error) result \<Rightarrow> bool"
  where
  "reload_outcome env denv last_applied r r' x \<longleftrightarrow>
     reg_factories r' = reg_factories r \<and> reg_watching r' = reg_watching r \<and> reg_store r' \<noteq> None \<and>
     (case x of
        Err e \<Rightarrow> reg_runtime r' = Failed (runtime_error_text e)
      | Ok None \<Rightarrow> last_applied \<noteq> None \<and> reg_runtime r' = reg_runtime r
      | Ok (Some fp) \<Rightarrow> \<exists>rt. reg_runtime r' = Active rt \<and> built_from env denv (reg_factories r) fp rt)"

lemma reload_runtime_outcome:
  assumes "reg_store r = Some conn" "reload_runtime env denv last_applied r = (r', x)"
  shows "reload_outcome env denv last_applied r r' x"
proof -
  obtain w conn' fetched where g: "store_get_document denv conn (reg_world r) = (w, conn', fetched)"
    using prod_cases3 by blast
  let ?r = "r\<lparr>reg_world := w, reg_store := Some conn'\<rparr>"
  show ?thesis
  proof (cases "bind_res fetched (ok_or ConfigMissing)")
    case (Inl e)
    with g assms show ?thesis
      by (auto simp: reload_runtime_def try_reload_def Let_def set_runtime_failed_def reload_outcome_def)
  next
    case (Inr l)
    then have "fetched = Ok (Some l)" by (auto simp: bind_res_eq_Ok ok_or_eq_Ok)
    with g have d: "decode_config_document denv (fingerprint l) = Ok (loaded_document l)"
      by (intro store_get_document_Ok) simp
    show ?thesis
    proof (cases "cpex_config_of (loaded_document l)")
      case (Inl e)
      with Inr g assms show ?thesis
        by (auto simp: reload_runtime_def try_reload_def Let_def set_runtime_failed_def reload_outcome_def
            split: if_splits)
    next
      case c: (Inr config)
      show ?thesis
        using Inr g assms c d
        by (cases rule: apply_runtime_config_cases [of env ?r config])
          (auto simp: reload_runtime_def try_reload_def Let_def set_runtime_failed_def reload_outcome_def
            built_from_def split: if_splits)
    qed
  qed
qed

section \<open>The watcher as a state machine\<close>

text \<open>
  A registry with a store starts with \<open>initialize\<close>; afterwards the watcher takes its turns while
  the world changes in any way between them (calls run plugins, the control plane publishes).
\<close>

inductive watched ::
  "('m, 'f, 't, 'w) plugin_env \<Rightarrow> ('c, 'w plugin_world) document_env \<Rightarrow> ('m, 'f, 'c, 'w) registry
    \<Rightarrow> string option \<Rightarrow> bool"
  for env :: "('m, 'f, 't, 'w) plugin_env" and denv :: "('c, 'w plugin_world) document_env" where
  started: "reg_store r \<noteq> None \<Longrightarrow> initialize_registry env denv r = (r', Ok (Some last_applied)) \<Longrightarrow>
     watched env denv r' last_applied"
| turn: "watched env denv r last_applied \<Longrightarrow> watcher_turn env denv last_applied r = (r', last') \<Longrightarrow>
     watched env denv r' last'"
| world: "watched env denv r last_applied \<Longrightarrow> watched env denv (r\<lparr>reg_world := w\<rparr>) last_applied"

definition watch_inv ::
  "('m, 'f, 't, 'w) plugin_env \<Rightarrow> ('c, 'w plugin_world) document_env \<Rightarrow> ('m, 'f, 'c, 'w) registry
    \<Rightarrow> string option \<Rightarrow> bool" where
  "watch_inv env denv r last_applied \<longleftrightarrow> reg_store r \<noteq> None \<and> reg_watching r \<and>
     (case reg_runtime r of
        Active rt \<Rightarrow> \<exists>fp. last_applied = Some fp \<and> built_from env denv (reg_factories r) fp rt
      | Failed _ \<Rightarrow> last_applied = None)"

lemma watched_inv: "watched env denv r last_applied \<Longrightarrow> watch_inv env denv r last_applied"
proof (induction rule: watched.induct)
  case (started r r' last_applied)
  from started(1) obtain conn where conn: "reg_store r = Some conn" by auto
  from started(2) obtain r1 initial where i: "reload_runtime env denv None r = (r1, Ok initial)"
      "start_config_watcher initial r1 = (r', Some last_applied)"
    by (auto simp: initialize_registry_def split: prod.splits sum.splits)
  from reload_runtime_outcome [OF conn i(1)] i(2) show ?case
    by (cases initial) (auto simp: reload_outcome_def watch_inv_def start_config_watcher_def split: if_splits)
next
  case (turn r last_applied r' last')
  then obtain conn where conn: "reg_store r = Some conn" by (auto simp: watch_inv_def)
  obtain r1 x where x: "reload_runtime env denv last_applied r = (r1, x)" by fastforce
  from reload_runtime_outcome [OF conn x] x turn show ?case
    by (auto simp: reload_outcome_def watch_inv_def watcher_turn_def
        split: sum.splits option.splits runtime_state.splits)
next
  case (world r last_applied w)
  then show ?case by (auto simp: watch_inv_def split: runtime_state.splits)
qed

text \<open>
  A configuration that is applied by hand and refused leaves the calls with the runtime they had; a reload that
  fails takes it from them.
\<close>

lemma apply_config_handle:
  "apply_config env config r = (r', Ok u) \<Longrightarrow> \<exists>rt. handle_current r' = Ok rt"
  "apply_config env config r = (r', Err e) \<Longrightarrow> handle_current r' = handle_current r"
  by (auto simp: apply_config_def apply_runtime_config_def handle_current_def current_runtime_def
      split: option.splits prod.splits sum.splits)

lemma reload_failed_handle:
  "reload env denv r = (r', Err e) \<Longrightarrow> \<exists>d. handle_current r' = Err d"
  by (auto simp: reload_def reload_runtime_def set_runtime_failed_def handle_current_def current_runtime_def
      split: option.splits prod.splits sum.splits)

text \<open>
  Property C22 (fail closed): once the watcher runs, the shared runtime is either built from the
  document the watcher applied last, or it has failed; and while it has failed every hooked call is
  refused with an internal error before any plugin runs: neither the plugins' world nor the
  correlation counter changes.
\<close>

theorem watched_fails_closed:
  assumes "watched env denv r last_applied"
  shows "(\<exists>rt fp. reg_runtime r = Active rt \<and> last_applied = Some fp \<and>
            built_from env denv (reg_factories r) fp rt) \<or>
     (last_applied = None \<and>
      before_tool_call penv acc (reg_runtime r) call_request tool backend w =
        (w, Err (error_data INTERNAL_ERROR ''Runtime plugin reload failed'')) \<and>
      before_get_prompt penv acc (reg_runtime r) prompt_request prompt backend w =
        (w, Err (error_data INTERNAL_ERROR ''Runtime plugin reload failed'')) \<and>
      before_read_resource penv acc (reg_runtime r) uri w =
        (w, Err (error_data INTERNAL_ERROR ''Runtime plugin reload failed'')))"
  using watched_inv [OF assms]
  by (auto simp: watch_inv_def before_tool_call_def before_get_prompt_def before_read_resource_def
      current_runtime_def bind_sm_def split: runtime_state.splits)

text \<open>
  Property C23 (convergence): whatever happened before, a turn of the watcher that reads a valid
  document (it decodes, has the right version and yields a runtime) leaves the shared runtime active
  and built from that document's configuration: a failed runtime recovers, and an
  unchanged document is skipped only when it is the one already applied.
\<close>

theorem watcher_turn_converges:
  assumes "watched env denv r last_applied"
    and "reg_store r = Some conn"
    and "store_get_document denv conn (reg_world r) = (w, conn', Ok (Some l))"
    and "cpex_config_of (loaded_document l) = Ok config"
    and "runtime_from_config env (reg_factories r) config w = (w', Ok rt)"
    and "watcher_turn env denv last_applied r = (r', last')"
  shows "last' = Some (fingerprint l) \<and>
     (\<exists>rt'. reg_runtime r' = Active rt' \<and> built env (reg_factories r) config rt')"
proof (cases "last_applied = Some (fingerprint l)")
  case True
  with assms have r': "r' = r\<lparr>reg_world := w, reg_store := Some conn'\<rparr>" "last' = last_applied"
    by (auto simp: watcher_turn_def reload_runtime_def try_reload_def ok_or_def)
  from watched_inv [OF assms(1)] True obtain rt' where rt': "reg_runtime r = Active rt'"
      "built_from env denv (reg_factories r) (fingerprint l) rt'"
    by (auto simp: watch_inv_def split: runtime_state.splits)
  with store_get_document_Ok [OF assms(3)] assms(4) True r' show ?thesis by (auto simp: built_from_def)
next
  case False
  moreover have "built env (reg_factories r) config rt" unfolding built_def using assms(5) by blast
  ultimately show ?thesis
    using assms by (auto simp: watcher_turn_def reload_runtime_def try_reload_def ok_or_def apply_runtime_config_def)
qed

text \<open>A store that holds one valid document, and a registry that starts with it.\<close>

definition sample_docs :: "(unit, nat plugin_world) document_env" where
  "sample_docs = \<lparr>document_from_json = \<lambda>b. if b = ''v1'' then Some \<lparr>doc_version = 1, doc_cpex = sample_config\<rparr> else None,
     document_from_rmp = \<lambda>b. None, new_connection = \<lambda>w. (w, Some ()),
     query_get = \<lambda>c k w. (w, Some (Some ''v1''))\<rparr>"

definition sample_world :: "nat plugin_world" where
  "sample_world = \<lparr>correlation_id = 1, outside = 0\<rparr>"

definition sample_runtime :: "nat plugin_runtime" where
  "sample_runtime = \<lparr>manager = 1, runtime_hooks = \<lambda>op. \<lparr>pre_hook = declares sample_config (fst (operation_hooks op)),
     post_hook = declares sample_config (snd (operation_hooks op))\<rparr>\<rparr>"

definition sample_registry :: "(nat, unit, unit, nat) registry" where
  "sample_registry = (with_redis_config sample_plugins () sample_world)\<lparr>reg_store := Some (Some ()),
     reg_watching := True, reg_runtime := Active sample_runtime\<rparr>"

lemma sample_supported: "validate_gateway_supported_config sample_config = Ok ()"
  by code_simp

lemma sample_built: "runtime_from_config sample_plugins () sample_config w = (w, Ok sample_runtime)"
  by (simp add: runtime_from_config_def sample_supported sample_plugins_def Let_def sample_runtime_def)
    (simp add: sample_config_def)

lemma sample_fetch:
  "store_get_document sample_docs conn w =
     (w, Some (), Ok (Some \<lparr>loaded_document = \<lparr>doc_version = 1, doc_cpex = sample_config\<rparr>, fingerprint = ''v1''\<rparr>))"
  by (cases conn) (simp_all add: store_get_document_def store_connection_def sample_docs_def loaded_decode_def
      decode_config_document_def)

lemma sample_initialized:
  "initialize_registry sample_plugins sample_docs (with_redis_config sample_plugins () sample_world) =
     (sample_registry, Ok (Some (Some ''v1'')))"
  by (simp add: initialize_registry_def reload_runtime_def try_reload_def sample_fetch sample_built
      with_redis_config_def default_registry_def apply_runtime_config_def cpex_config_of_def
      RUNTIME_PLUGIN_CONFIG_VERSION_def ok_or_def start_config_watcher_def sample_registry_def)

lemma sample_watched: "watched sample_plugins sample_docs sample_registry (Some ''v1'')"
  by (rule watched.started [OF _ sample_initialized]) (simp add: with_redis_config_def)

theorem watched_fails_closed_witness:
  "watched sample_plugins sample_docs sample_registry (Some ''v1'') \<and>
   (\<exists>rt fp. reg_runtime sample_registry = Active rt \<and> built_from sample_plugins sample_docs () fp rt)"
  using watched_fails_closed [OF sample_watched] sample_watched by auto

theorem watcher_turn_converges_witness:
  "\<exists>r'. watcher_turn sample_plugins sample_docs (Some ''v1'') sample_registry = (r', Some ''v1'') \<and>
     (\<exists>rt'. reg_runtime r' = Active rt' \<and> built sample_plugins () sample_config rt')"
proof -
  have st: "reg_store sample_registry = Some (Some ())" "reg_factories sample_registry = ()"
    by (simp_all add: sample_registry_def)
  have c: "cpex_config_of (loaded_document \<lparr>loaded_document = \<lparr>doc_version = 1, doc_cpex = sample_config\<rparr>,
      fingerprint = ''v1''\<rparr>) = Ok sample_config"
    by (simp add: cpex_config_of_def RUNTIME_PLUGIN_CONFIG_VERSION_def)
  obtain r' l' where t: "watcher_turn sample_plugins sample_docs (Some ''v1'') sample_registry = (r', l')" by fastforce
  from watcher_turn_converges [OF sample_watched st(1) sample_fetch c _ t, unfolded st, OF sample_built] t
  show ?thesis by auto
qed

end
