(* ===== verification/SecretsConfig.thy ===== *)
theory SecretsConfig
  imports Json
begin

text \<open>
  The configuration of the secrets detection plugin (\<open>cpex-secrets-detection/src/config.rs\<close> and the
  table of \<open>patterns.rs\<close>): which patterns are enabled, what happens on a detection, and which fields
  of a payload are scanned. The derived \<open>Deserialize\<close> of the raw configuration is a parameter.
\<close>

section \<open>Definitions\<close>

text \<open>
  The keys of the pattern table. The compiled regular expression of a key belongs to the \<open>regex\<close>
  library: the scanner gets the matches of a key on a text as a parameter.
\<close>

definition PATTERNS :: "string list" where
  "PATTERNS = [''aws_access_key_id'', ''aws_secret_access_key'', ''google_api_key'', ''github_token'',
     ''stripe_secret_key'', ''generic_api_key_assignment'', ''slack_token'', ''private_key_block'',
     ''jwt_like'', ''hex_secret_32'', ''base64_24'']"

definition CAPTURE_PATTERNS :: "string list" where
  "CAPTURE_PATTERNS = [''base64_24'']"

definition BROAD_PATTERNS :: "string list" where
  "BROAD_PATTERNS = [''generic_api_key_assignment'', ''jwt_like'', ''hex_secret_32'', ''base64_24'']"

type_synonym field_path = "string list"

record secrets_detection_config =
  enabled :: "string \<rightharpoonup> bool"
  redact :: bool
  redaction_text :: string
  block_on_detection :: bool
  min_findings_to_block :: nat
  field_allowlist :: "field_path list"
  field_denylist :: "field_path list"

text \<open>A \<open>ConfigError\<close> with the field name and path that its message shows.\<close>

datatype config_error =
    EmptyEntry string
  | OuterDot string string
  | BlankSegment string string
  | NotAPathList string
  | InvalidSecretsConfig string

record raw_secrets_detection_config =
  raw_enabled :: "(string \<times> bool) list option"
  raw_redact :: "bool option"
  raw_redaction_text :: "string option"
  raw_block_on_detection :: "bool option"
  raw_min_findings_to_block :: "nat option"
  raw_field_allowlist :: "json option"
  raw_field_denylist :: "json option"

definition default_raw_config :: raw_secrets_detection_config where
  "default_raw_config = \<lparr>raw_enabled = None, raw_redact = None, raw_redaction_text = None,
     raw_block_on_detection = None, raw_min_findings_to_block = None, raw_field_allowlist = None,
     raw_field_denylist = None\<rparr>"

definition field_path_parse :: "string \<Rightarrow> string \<Rightarrow> (field_path, config_error) result" where
  "field_path_parse path field_name =
     (if trim path = [] then Err (EmptyEntry field_name)
      else if take 1 path = ''.'' \<or> take 1 (rev path) = ''.'' then Err (OuterDot field_name path)
      else
        let segments = split_on (CHR ''.'') path in
        if list_ex (\<lambda>segment. trim segment = []) segments then Err (BlankSegment field_name path)
        else Ok segments)"

definition path_starts_with :: "string list \<Rightarrow> string list \<Rightarrow> bool" where
  "path_starts_with path prefx \<longleftrightarrow>
     length prefx \<le> length path \<and> list_all (\<lambda>(left, right). left = right) (zip path prefx)"

definition matches_path_or_descendant :: "field_path \<Rightarrow> string list \<Rightarrow> bool" where
  "matches_path_or_descendant fp path = path_starts_with path fp"

definition can_be_reached_from :: "field_path \<Rightarrow> string list \<Rightarrow> bool" where
  "can_be_reached_from fp path = path_starts_with fp path"

definition parse_field_paths :: "json option \<Rightarrow> string \<Rightarrow> (field_path list, config_error) result" where
  "parse_field_paths value field_name =
     (case value of
        None \<Rightarrow> Ok []
      | Some v \<Rightarrow>
          bind_res (ok_or (NotAPathList field_name) (as_array v))
            (collect_res (\<lambda>entry. bind_res (ok_or (NotAPathList field_name) (as_str entry))
               (\<lambda>path. field_path_parse path field_name))))"

definition default_enabled_map :: "string \<rightharpoonup> bool" where
  "default_enabled_map name =
     (if name \<in> set PATTERNS then Some (name \<notin> set BROAD_PATTERNS) else None)"

definition merge_enabled_map :: "(string \<times> bool) list \<Rightarrow> string \<rightharpoonup> bool" where
  "merge_enabled_map overrides = default_enabled_map ++ map_of overrides"

definition unwrap_or :: "'a option \<Rightarrow> 'a \<Rightarrow> 'a" where
  "unwrap_or v d = (case v of Some x \<Rightarrow> x | None \<Rightarrow> d)"

definition config_from_value ::
  "(json \<Rightarrow> (raw_secrets_detection_config, string) result) \<Rightarrow> json option
    \<Rightarrow> (secrets_detection_config, config_error) result" where
  "config_from_value decode value =
     bind_res (case value of
         None \<Rightarrow> Ok default_raw_config
       | Some v \<Rightarrow> if is_null v then Ok default_raw_config else map_err InvalidSecretsConfig (decode v))
     (\<lambda>raw. bind_res (parse_field_paths (raw_field_allowlist raw) ''field_allowlist'')
     (\<lambda>allow. bind_res (parse_field_paths (raw_field_denylist raw) ''field_denylist'')
     (\<lambda>deny. Ok \<lparr>enabled = (case raw_enabled raw of None \<Rightarrow> default_enabled_map | Some m \<Rightarrow> merge_enabled_map m),
         redact = unwrap_or (raw_redact raw) False,
         redaction_text = unwrap_or (raw_redaction_text raw) ''***REDACTED***'',
         block_on_detection = unwrap_or (raw_block_on_detection raw) True,
         min_findings_to_block = unwrap_or (raw_min_findings_to_block raw) 1,
         field_allowlist = allow, field_denylist = deny\<rparr>)))"

definition default_secrets_config :: secrets_detection_config where
  "default_secrets_config = \<lparr>enabled = default_enabled_map, redact = False, redaction_text = ''***REDACTED***'',
     block_on_detection = True, min_findings_to_block = 1, field_allowlist = [], field_denylist = []\<rparr>"

definition is_enabled :: "secrets_detection_config \<Rightarrow> string \<Rightarrow> bool" where
  "is_enabled config name = unwrap_or (enabled config name) False"

definition path_is_denied :: "secrets_detection_config \<Rightarrow> string list \<Rightarrow> bool" where
  "path_is_denied config path = list_ex (\<lambda>deny. matches_path_or_descendant deny path) (field_denylist config)"

definition should_scan_field_path :: "secrets_detection_config \<Rightarrow> string list \<Rightarrow> bool \<Rightarrow> bool" where
  "should_scan_field_path config path direct_scalar_root =
     (if direct_scalar_root \<and> path = [] then True
      else if path_is_denied config path then False
      else field_allowlist config = [] \<or>
        list_ex (\<lambda>allow. matches_path_or_descendant allow path) (field_allowlist config))"

definition should_traverse_field_path :: "secrets_detection_config \<Rightarrow> string list \<Rightarrow> bool" where
  "should_traverse_field_path config path =
     (if path = [] then True
      else if path_is_denied config path then False
      else field_allowlist config = [] \<or>
        list_ex (\<lambda>allow. matches_path_or_descendant allow path \<or> can_be_reached_from allow path)
          (field_allowlist config))"

section \<open>Field paths\<close>

lemma path_starts_with_iff: "path_starts_with path prefx \<longleftrightarrow> take (length prefx) path = prefx"
proof -
  have "list_all (\<lambda>(l, r). l = r) (zip path prefx) \<longleftrightarrow> take (length prefx) path = prefx"
    if "length prefx \<le> length path" using that
  proof (induction prefx arbitrary: path)
    case (Cons p ps)
    then show ?case by (cases path) auto
  qed simp
  then show ?thesis unfolding path_starts_with_def by (metis length_take min.absorb_iff2 nat_le_linear)
qed

lemma path_starts_with_append: "path_starts_with path prefx \<Longrightarrow> path_starts_with (path @ rest) prefx"
  unfolding path_starts_with_iff by (metis append_eq_conv_conj append_take_drop_id append.assoc)

lemma path_starts_with_appendD:
  assumes "path_starts_with (path @ rest) prefx"
  shows "path_starts_with path prefx \<or> path_starts_with prefx path"
  using assms by (cases "length prefx \<le> length path") (auto simp: path_starts_with_iff, metis append_eq_conv_conj)

text \<open>Nothing below a field that is not traversed would be scanned, so skipping it loses nothing.\<close>

lemma untraversed_unscanned:
  assumes "\<not> should_traverse_field_path config path"
  shows "\<not> should_scan_field_path config (path @ rest) root"
proof -
  from assms have path: "path \<noteq> []" by (auto simp: should_traverse_field_path_def)
  show ?thesis
  proof (cases "path_is_denied config path")
    case True
    then have "path_is_denied config (path @ rest)"
      by (auto simp: path_is_denied_def list_ex_iff matches_path_or_descendant_def intro: path_starts_with_append)
    with path show ?thesis by (simp add: should_scan_field_path_def)
  next
    case False
    with assms path have "field_allowlist config \<noteq> []"
      "\<forall>allow \<in> set (field_allowlist config). \<not> path_starts_with path allow \<and> \<not> path_starts_with allow path"
      by (auto simp: should_traverse_field_path_def list_ex_iff matches_path_or_descendant_def can_be_reached_from_def)
    with path show ?thesis
      by (auto simp: should_scan_field_path_def list_ex_iff matches_path_or_descendant_def
          dest!: path_starts_with_appendD)
  qed
qed

lemma trim_Nil_no_dot: "trim s = [] \<Longrightarrow> CHR ''.'' \<notin> set s"
proof -
  assume "trim s = []"
  then have "set s \<subseteq> \<Union> (set ` set white_space)"
    using strip_all_chars [of "rev (strip_all white_space s)" "map rev white_space"] strip_all_chars [of s white_space]
    by (auto simp: trim_def)
  moreover have "is_graphic (CHR ''.'')" by (simp add: is_graphic_def byte_def)
  then have "list_all (\<lambda>w. CHR ''.'' \<notin> set w) white_space" using white_space_not_graphic by (auto simp: list_all_iff)
  ultimately show "CHR ''.'' \<notin> set s" by (auto simp: list_all_iff)
qed

lemma hd_split: "take 1 path = [c] \<Longrightarrow> [] \<in> set (split_on c path)"
  by (cases path) auto

lemma split_on_snoc: "split_on c (xs @ [c]) = split_on c xs @ [[]]"
  by (induction xs) (auto split: list.splits)

lemma last_split: "take 1 (rev path) = [c] \<Longrightarrow> [] \<in> set (split_on c path)"
  by (cases path rule: rev_cases) (auto simp: split_on_snoc)

text \<open>
  Field paths: an entry of an allow or deny list is accepted exactly when it is the
  dotted form of a non-empty list of segments, none of them blank, and then it means those segments.
\<close>

theorem field_path_parse_iff:
  "field_path_parse path field_name = Ok segs \<longleftrightarrow>
     segs \<noteq> [] \<and> path = join_with ''.'' segs \<and> list_all (\<lambda>s. trim s \<noteq> [] \<and> CHR ''.'' \<notin> set s) segs"
proof
  assume "field_path_parse path field_name = Ok segs"
  then have segs: "segs = split_on (CHR ''.'') path" "list_all (\<lambda>s. trim s \<noteq> []) segs"
    by (auto simp: field_path_parse_def Let_def list_ex_iff list_all_iff split: if_splits)
  then show "segs \<noteq> [] \<and> path = join_with ''.'' segs \<and> list_all (\<lambda>s. trim s \<noteq> [] \<and> CHR ''.'' \<notin> set s) segs"
    by (auto simp: join_split_on list_all_iff dest: split_on_no_sep)
next
  assume r: "segs \<noteq> [] \<and> path = join_with ''.'' segs \<and> list_all (\<lambda>s. trim s \<noteq> [] \<and> CHR ''.'' \<notin> set s) segs"
  then have split: "split_on (CHR ''.'') path = segs" by (simp add: split_join list_all_iff)
  have nonblank: "\<forall>s \<in> set segs. trim s \<noteq> []" using r by (simp add: list_all_iff)
  then have "[] \<notin> set segs" by auto
  then have "take 1 path \<noteq> ''.''" "take 1 (rev path) \<noteq> ''.''" using split hd_split last_split by metis+
  moreover have "trim path \<noteq> []"
  proof
    assume blank: "trim path = []"
    then have "segs = [path]" using split split_on_single trim_Nil_no_dot by metis
    with nonblank blank show False by simp
  qed
  ultimately show "field_path_parse path field_name = Ok segs"
    using nonblank by (auto simp: field_path_parse_def split list_ex_iff)
qed

end
