(* ===== verification/SecretsScanner.thy ===== *)
theory SecretsScanner
  imports SecretsConfig "HOL-Library.Product_Lexorder" "HOL-Library.List_Lexorder" "HOL-Library.Char_ord"
    "HOL-Library.Multiset"
begin

text \<open>
  The scanner of the secrets detection plugin (\<open>cpex-secrets-detection/src/scanner.rs\<close>): the matches
  of the enabled patterns on a text, the choice among overlapping ones, the redaction, and the
  traversal of JSON values. The matches of the \<open>regex\<close> library and the iteration order of the hash
  map of patterns are parameters; a byte range that is no slice of the text is \<open>None\<close> (a panic).
\<close>

section \<open>Definitions\<close>

record finding =
  pii_type :: string
  preview :: string

record scan_report =
  report_count :: nat
  report_redacted :: json
  report_findings :: "finding list"

record match_candidate =
  mc_name :: string
  mc_start :: nat
  mc_end :: nat
  mc_text :: string

record regex_env =
  pattern_order :: "string list"
  find_iter :: "string \<Rightarrow> string \<Rightarrow> (nat \<times> nat) list"
  captures_iter :: "string \<Rightarrow> string \<Rightarrow> (nat \<times> nat) option list"

text \<open>\<open>&text[a..b]\<close>\<close>

definition is_char_boundary :: "string \<Rightarrow> nat \<Rightarrow> bool" where
  "is_char_boundary text i \<longleftrightarrow> i = 0 \<or> i = length text \<or> i < length text \<and> is_char_start (text ! i)"

definition str_slice :: "string \<Rightarrow> nat \<Rightarrow> nat \<Rightarrow> string option" where
  "str_slice text a b =
     (if a \<le> b \<and> b \<le> length text \<and> is_char_boundary text a \<and> is_char_boundary text b
      then Some (take (b - a) (drop a text)) else None)"

definition pattern_specificity :: "string \<Rightarrow> nat" where
  "pattern_specificity name =
     (if name = ''generic_api_key_assignment'' \<or> name = ''jwt_like'' then 1
      else if name = ''hex_secret_32'' then 2
      else if name = ''base64_24'' then 3
      else 0)"

definition is_base64_boundary_char :: "char option \<Rightarrow> bool" where
  "is_base64_boundary_char ch =
     (case ch of None \<Rightarrow> False | Some c \<Rightarrow> is_ascii_alphanumeric c \<or> c \<in> set ''+/='')"

definition candidate_of :: "string \<Rightarrow> string \<Rightarrow> nat \<times> nat \<Rightarrow> match_candidate" where
  "candidate_of name text span =
     \<lparr>mc_name = name, mc_start = fst span, mc_end = snd span,
      mc_text = take (snd span - fst span) (drop (fst span) text)\<rparr>"

definition capture_candidates :: "string \<Rightarrow> string \<Rightarrow> (nat \<times> nat) option \<Rightarrow> match_candidate list option" where
  "capture_candidates name text captured =
     (case captured of
        None \<Rightarrow> Some []
      | Some span \<Rightarrow>
          Option.bind (str_slice text (snd span) (length text))
            (\<lambda>rest. if is_base64_boundary_char (case rest of [] \<Rightarrow> None | c # _ \<Rightarrow> Some c) then Some []
                    else Some [candidate_of name text span]))"

definition pattern_candidates ::
  "regex_env \<Rightarrow> secrets_detection_config \<Rightarrow> string \<Rightarrow> string \<Rightarrow> match_candidate list option" where
  "pattern_candidates env config text name =
     (if \<not> is_enabled config name then Some []
      else if name \<in> set CAPTURE_PATTERNS
        then map_option concat (collect_opt (capture_candidates name text) (captures_iter env name text))
      else Some (map (candidate_of name text) (find_iter env name text)))"

definition collect_candidates ::
  "regex_env \<Rightarrow> secrets_detection_config \<Rightarrow> string \<Rightarrow> match_candidate list option" where
  "collect_candidates env config text =
     map_option concat (collect_opt (pattern_candidates env config text) (pattern_order env))"

text \<open>The order of \<open>candidates.sort_by\<close>: by start, specificity, falling length and name.\<close>

definition candidate_key :: "match_candidate \<Rightarrow> nat \<times> nat \<times> int \<times> string" where
  "candidate_key c =
     (mc_start c, pattern_specificity (mc_name c), - int (mc_end c - mc_start c), mc_name c)"

text \<open>The selection loop; \<open>current\<close> is \<open>selected.last_mut()\<close>.\<close>

definition merge_candidate :: "match_candidate \<Rightarrow> match_candidate \<Rightarrow> match_candidate" where
  "merge_candidate current candidate =
     (let candidate_specificity = pattern_specificity (mc_name candidate);
          current_specificity = pattern_specificity (mc_name current);
          candidate_len = mc_end candidate - mc_start candidate;
          current_len = mc_end current - mc_start current;
          current =
            (if candidate_specificity < current_specificity \<or>
                candidate_specificity = current_specificity \<and> candidate_len > current_len
             then current\<lparr>mc_name := mc_name candidate, mc_text := mc_text candidate\<rparr> else current)
      in if mc_end candidate > mc_end current then current\<lparr>mc_end := mc_end candidate\<rparr> else current)"

fun select_from :: "match_candidate \<Rightarrow> match_candidate list \<Rightarrow> match_candidate list" where
  "select_from current [] = [current]"
| "select_from current (candidate # candidates) =
     (if mc_start candidate \<ge> mc_end current then current # select_from candidate candidates
      else select_from (merge_candidate current candidate) candidates)"

fun select_candidates :: "match_candidate list \<Rightarrow> match_candidate list" where
  "select_candidates [] = []"
| "select_candidates (candidate # candidates) = select_from candidate candidates"

definition finding_of :: "match_candidate \<Rightarrow> finding" where
  "finding_of matched =
     \<lparr>pii_type = mc_name matched,
      preview = (if chars_count (mc_text matched) > 8 then chars_take 8 (mc_text matched) @ ''...''
                 else mc_text matched)\<rparr>"

fun redact_from :: "string \<Rightarrow> string \<Rightarrow> nat \<Rightarrow> match_candidate list \<Rightarrow> string option" where
  "redact_from text replacement cursor [] = str_slice text cursor (length text)"
| "redact_from text replacement cursor (matched # selected) =
     Option.bind (str_slice text cursor (mc_start matched))
       (\<lambda>before. map_option (\<lambda>rest. before @ replacement @ rest)
          (redact_from text replacement (mc_end matched) selected))"

definition detect_and_redact ::
  "regex_env \<Rightarrow> secrets_detection_config \<Rightarrow> string \<Rightarrow> (finding list \<times> string) option" where
  "detect_and_redact env config text =
     Option.bind (collect_candidates env config text)
       (\<lambda>candidates.
          let selected = select_candidates (sort_key candidate_key candidates) in
          map_option (Pair (map finding_of selected))
            (if redact config \<and> selected \<noteq> [] then redact_from text (redaction_text config) 0 selected
             else Some text))"

definition clean_report :: "json \<Rightarrow> scan_report" where
  "clean_report value = \<lparr>report_count = 0, report_redacted = value, report_findings = []\<rparr>"

definition text_report :: "finding list \<times> string \<Rightarrow> scan_report" where
  "text_report r = \<lparr>report_count = length (fst r), report_redacted = JString (snd r), report_findings = fst r\<rparr>"

text \<open>The loops over the items and the entries return the sum, the redacted values and the findings.\<close>

fun scan_json_value_inner ::
  "regex_env \<Rightarrow> secrets_detection_config \<Rightarrow> string list \<Rightarrow> bool \<Rightarrow> json \<Rightarrow> scan_report option"
  and scan_items ::
  "regex_env \<Rightarrow> secrets_detection_config \<Rightarrow> string list \<Rightarrow> json list \<Rightarrow> (nat \<times> json list \<times> finding list) option"
  and scan_entries ::
  "regex_env \<Rightarrow> secrets_detection_config \<Rightarrow> string list \<Rightarrow> json_object \<Rightarrow> (nat \<times> json_object \<times> finding list) option"
  where
  "scan_json_value_inner env config path root (JString text) =
     (if \<not> should_scan_field_path config path root then Some (clean_report (JString text))
      else map_option text_report (detect_and_redact env config text))"
| "scan_json_value_inner env config path root (JArray items) =
     (if \<not> should_traverse_field_path config path then Some (clean_report (JArray items))
      else map_option (\<lambda>(total, redacted, fs).
          \<lparr>report_count = total, report_redacted = JArray redacted, report_findings = fs\<rparr>)
        (scan_items env config path items))"
| "scan_json_value_inner env config path root (JObject entries) =
     (if \<not> should_traverse_field_path config path then Some (clean_report (JObject entries))
      else map_option (\<lambda>(total, redacted, fs).
          \<lparr>report_count = total, report_redacted = JObject redacted, report_findings = fs\<rparr>)
        (scan_entries env config path entries))"
| "scan_json_value_inner env config path root value = Some (clean_report value)"
| "scan_items env config path [] = Some (0, [], [])"
| "scan_items env config path (item # items) =
     Option.bind (scan_json_value_inner env config path False item)
       (\<lambda>child. map_option (\<lambda>(total, redacted, fs).
          (report_count child + total, report_redacted child # redacted, report_findings child @ fs))
        (scan_items env config path items))"
| "scan_entries env config path [] = Some (0, [], [])"
| "scan_entries env config path ((key, value) # entries) =
     Option.bind (scan_json_value_inner env config (path @ [key]) False value)
       (\<lambda>child. map_option (\<lambda>(total, redacted, fs).
          (report_count child + total, (key, report_redacted child) # redacted, report_findings child @ fs))
        (scan_entries env config path entries))"

definition scan_json_value :: "regex_env \<Rightarrow> secrets_detection_config \<Rightarrow> json \<Rightarrow> scan_report option" where
  "scan_json_value env config value = scan_json_value_inner env config [] True value"

definition scan_direct_text :: "regex_env \<Rightarrow> secrets_detection_config \<Rightarrow> string \<Rightarrow> scan_report option" where
  "scan_direct_text env config text = map_option text_report (detect_and_redact env config text)"

section \<open>Matches\<close>

text \<open>
  What \<open>regex\<close> documents: a match is a range of the text whose ends are character boundaries; and the
  iteration visits every key of the map once.
\<close>

definition span_ok :: "string \<Rightarrow> nat \<times> nat \<Rightarrow> bool" where
  "span_ok text span \<longleftrightarrow> fst span \<le> snd span \<and> snd span \<le> length text \<and>
     is_char_boundary text (fst span) \<and> is_char_boundary text (snd span)"

definition regex_laws :: "regex_env \<Rightarrow> bool" where
  "regex_laws env \<longleftrightarrow>
     mset (pattern_order env) = mset PATTERNS \<and>
     (\<forall>name text. list_all (span_ok text) (find_iter env name text) \<and>
        list_all (pred_option (span_ok text)) (captures_iter env name text))"

definition candidate_ok :: "string \<Rightarrow> match_candidate \<Rightarrow> bool" where
  "candidate_ok text c \<longleftrightarrow> span_ok text (mc_start c, mc_end c) \<and>
     c = candidate_of (mc_name c) text (mc_start c, mc_end c)"

lemma candidate_of_ok: "span_ok text span \<Longrightarrow> candidate_ok text (candidate_of name text span)"
  by (simp add: candidate_ok_def candidate_of_def)

lemma is_char_boundary_ends [simp]: "is_char_boundary text 0" "is_char_boundary text (length text)"
  by (simp_all add: is_char_boundary_def)

lemma collect_opt_concat:
  assumes "\<And>x. x \<in> set xs \<Longrightarrow> \<exists>ys. f x = Some ys \<and> list_all P ys"
  shows "\<exists>ys. map_option concat (collect_opt f xs) = Some ys \<and> list_all P ys"
  using assms
proof (induction xs)
  case (Cons x xs)
  then obtain zs where "collect_opt f xs = Some zs" "list_all P (concat zs)" by auto
  moreover from Cons.prems obtain ys where "f x = Some ys" "list_all P ys" by auto
  ultimately show ?case by simp
qed simp

lemma capture_candidates_ok:
  assumes "pred_option (span_ok text) captured"
  shows "\<exists>cs. capture_candidates name text captured = Some cs \<and> list_all (candidate_ok text) cs"
proof (cases captured)
  case (Some span)
  with assms have "span_ok text span" by simp
  then have "str_slice text (snd span) (length text) = Some (drop (snd span) text)"
    by (simp add: str_slice_def span_ok_def)
  then show ?thesis using Some candidate_of_ok [OF \<open>span_ok text span\<close>]
    by (cases "is_base64_boundary_char (case drop (snd span) text of [] \<Rightarrow> None | c # _ \<Rightarrow> Some c)")
      (simp_all add: capture_candidates_def)
qed (simp add: capture_candidates_def)

lemma pattern_candidates_ok:
  assumes "regex_laws env"
  shows "\<exists>cs. pattern_candidates env config text name = Some cs \<and> list_all (candidate_ok text) cs"
proof -
  have "\<exists>cs. map_option concat (collect_opt (capture_candidates name text) (captures_iter env name text)) = Some cs \<and>
      list_all (candidate_ok text) cs"
    using assms by (intro collect_opt_concat capture_candidates_ok) (auto simp: regex_laws_def list_all_iff)
  moreover have "list_all (candidate_ok text) (map (candidate_of name text) (find_iter env name text))"
    using assms by (auto simp: regex_laws_def list_all_iff intro: candidate_of_ok)
  ultimately show ?thesis by (simp add: pattern_candidates_def)
qed

lemma collect_candidates_ok:
  assumes "regex_laws env"
  obtains cs where "collect_candidates env config text = Some cs" "list_all (candidate_ok text) cs"
  using collect_opt_concat [of "pattern_order env" "pattern_candidates env config text"]
    pattern_candidates_ok [OF assms] unfolding collect_candidates_def by blast

section \<open>Selection\<close>

definition covered :: "match_candidate list \<Rightarrow> nat \<Rightarrow> bool" where
  "covered cs i \<longleftrightarrow> list_ex (\<lambda>c. mc_start c \<le> i \<and> i < mc_end c) cs"

lemma covered_simps [simp]:
  "covered [] i \<longleftrightarrow> False"
  "covered (c # cs) i \<longleftrightarrow> mc_start c \<le> i \<and> i < mc_end c \<or> covered cs i"
  by (simp_all add: covered_def)

lemma covered_cong: "set cs = set ds \<Longrightarrow> covered cs = covered ds"
  by (simp add: covered_def list_ex_iff fun_eq_iff)

lemma merge_candidate_span [simp]:
  "mc_start (merge_candidate cur c) = mc_start cur"
  "mc_end (merge_candidate cur c) = max (mc_end cur) (mc_end c)"
  by (auto simp: merge_candidate_def Let_def)

text \<open>Ranges of the text, one after the other.\<close>

fun consecutive :: "string \<Rightarrow> nat \<Rightarrow> match_candidate list \<Rightarrow> bool" where
  "consecutive text cursor [] \<longleftrightarrow> cursor \<le> length text \<and> is_char_boundary text cursor"
| "consecutive text cursor (c # cs) \<longleftrightarrow>
     cursor \<le> mc_start c \<and> is_char_boundary text cursor \<and> span_ok text (mc_start c, mc_end c) \<and>
     consecutive text (mc_end c) cs"

lemma select_from_covered:
  assumes "sorted (map mc_start (cur # cs))"
  shows "covered (select_from cur cs) i \<longleftrightarrow> covered (cur # cs) i"
  using assms
proof (induction cs arbitrary: cur)
  case (Cons c cs)
  show ?case
  proof (cases "mc_start c \<ge> mc_end cur")
    case True
    with Cons show ?thesis by simp
  next
    case False
    then have "covered (select_from cur (c # cs)) i \<longleftrightarrow> covered (merge_candidate cur c # cs) i"
      using Cons by auto
    also have "\<dots> \<longleftrightarrow> covered (cur # c # cs) i" using False Cons.prems by (auto simp: max_def)
    finally show ?thesis .
  qed
qed simp

lemma span_ok_max:
  "span_ok text (a, b) \<Longrightarrow> span_ok text (c, d) \<Longrightarrow> a \<le> c \<Longrightarrow> span_ok text (a, max b d)"
  by (auto simp: span_ok_def max_def)

lemma select_from_consecutive:
  assumes "sorted (map mc_start (cur # cs))" "list_all (\<lambda>c. span_ok text (mc_start c, mc_end c)) (cur # cs)"
    and "cursor \<le> mc_start cur" "is_char_boundary text cursor"
  shows "consecutive text cursor (select_from cur cs)"
  using assms
proof (induction cs arbitrary: cur cursor)
  case Nil
  then show ?case by (simp add: span_ok_def)
next
  case (Cons c cs)
  show ?case
  proof (cases "mc_start c \<ge> mc_end cur")
    case True
    with Cons show ?thesis by (simp add: span_ok_def)
  next
    case False
    with Cons.prems show ?thesis by (auto intro!: Cons.IH span_ok_max)
  qed
qed

section \<open>Redaction\<close>

text \<open>\<open>interleave pieces between\<close>: the pieces with one of the other texts between every two of them.\<close>

fun interleave :: "'a list list \<Rightarrow> 'a list list \<Rightarrow> 'a list" where
  "interleave (p # ps) (b # bs) = p @ b @ interleave ps bs"
| "interleave ps bs = concat ps"

lemma consecutive_uncovered: "consecutive text cursor cs \<Longrightarrow> i < cursor \<Longrightarrow> \<not> covered cs i"
proof (induction cs arbitrary: cursor)
  case (Cons c cs)
  then have "consecutive text (mc_end c) cs" "i < mc_end c" "i < mc_start c" by (auto simp: span_ok_def)
  with Cons.IH show ?case by simp
qed simp

lemma map_upt_const: "(\<And>i. a \<le> i \<Longrightarrow> i < b \<Longrightarrow> f i = v) \<Longrightarrow> map f [a..<b] = map (\<lambda>_. v) (take (b - a) (drop a xs))"
  if "b \<le> length xs"
  by (rule nth_equalityI) (use that in auto)

lemma redact_from_exact:
  assumes "consecutive text cursor cs"
  shows "\<exists>pieces secrets. length secrets = length cs \<and> length pieces = Suc (length cs) \<and>
    drop cursor text = interleave pieces secrets \<and>
    redact_from text replacement cursor cs = Some (interleave pieces (map (\<lambda>_. replacement) secrets)) \<and>
    map (covered cs) [cursor..<length text] =
      interleave (map (map (\<lambda>_. False)) pieces) (map (map (\<lambda>_. True)) secrets)"
  using assms
proof (induction cs arbitrary: cursor)
  case Nil
  then show ?case
    by (intro exI [of _ "[drop cursor text]"] exI [of _ "[]"])
      (simp add: str_slice_def map_upt_const [of "length text" "text" cursor "\<lambda>_. False" False])
next
  case (Cons c cs)
  let ?a = "mc_start c" and ?b = "mc_end c"
  from Cons.prems have ok: "cursor \<le> ?a" "?a \<le> ?b" "?b \<le> length text" and tail: "consecutive text ?b cs"
    and sl: "str_slice text cursor ?a = Some (take (?a - cursor) (drop cursor text))"
    by (auto simp: span_ok_def str_slice_def)
  from Cons.IH [OF tail] obtain ps ss where IH: "length ss = length cs" "length ps = Suc (length cs)"
    "drop ?b text = interleave ps ss"
    "redact_from text replacement ?b cs = Some (interleave ps (map (\<lambda>_. replacement) ss))"
    "map (covered cs) [?b..<length text] = interleave (map (map (\<lambda>_. False)) ps) (map (map (\<lambda>_. True)) ss)"
    by blast
  let ?p = "take (?a - cursor) (drop cursor text)" and ?s = "take (?b - ?a) (drop ?a text)"
  have un: "i < ?b \<Longrightarrow> \<not> covered cs i" for i using consecutive_uncovered [OF tail] .
  have "drop cursor text = ?p @ drop ?a text" using ok(1)
    by (metis append_take_drop_id drop_drop le_add_diff_inverse2)
  also have "drop ?a text = ?s @ drop ?b text" using ok(2)
    by (metis append_take_drop_id drop_drop le_add_diff_inverse2)
  finally have whole: "drop cursor text = interleave (?p # ps) (?s # ss)" by (simp add: IH(3))
  have "[cursor..<length text] = [cursor..<?a] @ [?a..<?b] @ [?b..<length text]" using ok
    by (metis le_Suc_ex upt_add_eq_append add.assoc le_add1)
  moreover have "map (covered (c # cs)) [cursor..<?a] = map (\<lambda>_. False) ?p"
    using ok un by (intro map_upt_const) auto
  moreover have "map (covered (c # cs)) [?a..<?b] = map (\<lambda>_. True) ?s"
    using ok by (intro map_upt_const) auto
  moreover have "map (covered (c # cs)) [?b..<length text] = map (covered cs) [?b..<length text]" by auto
  ultimately have mask: "map (covered (c # cs)) [cursor..<length text] =
      interleave (map (map (\<lambda>_. False)) (?p # ps)) (map (map (\<lambda>_. True)) (?s # ss))" by (simp add: IH(5))
  have "redact_from text replacement cursor (c # cs) =
      Some (interleave (?p # ps) (map (\<lambda>_. replacement) (?s # ss)))" by (simp add: sl IH(4))
  with whole mask IH(1,2) show ?case by (metis length_Cons)
qed

lemma selected_consecutive:
  assumes "list_all (candidate_ok text) cs"
  shows "consecutive text 0 (select_candidates (sort_key candidate_key cs))"
    and "covered (select_candidates (sort_key candidate_key cs)) = covered cs"
proof -
  let ?s = "sort_key candidate_key cs"
  have "sorted (map candidate_key ?s)" by simp
  then have "sorted (map fst (map candidate_key ?s))"
    by (rule sorted_map_mono) (auto intro!: mono_onI simp: less_eq_prod_def)
  then have s: "sorted (map mc_start ?s)" by (simp add: candidate_key_def comp_def)
  have ok: "list_all (\<lambda>c. span_ok text (mc_start c, mc_end c)) ?s"
    using assms by (simp add: list_all_iff candidate_ok_def)
  have cov: "covered ?s = covered cs" by (rule covered_cong) simp
  show "consecutive text 0 (select_candidates ?s)"
    using s ok by (cases ?s) (auto intro!: select_from_consecutive)
  have "covered (select_candidates ?s) = covered ?s"
    using s by (cases ?s) (auto simp: fun_eq_iff select_from_covered)
  with cov show "covered (select_candidates ?s) = covered cs" by simp
qed

text \<open>
  Property C21 (redaction is exact): with redaction on, a text is cut into pieces and secrets so that a
  byte lies in a secret exactly when a match of an enabled pattern covers it. The redacted text has
  the pieces unchanged and the redaction text in place of every secret, there is one finding per
  secret, and no slice is out of range.
\<close>

theorem redaction_exact:
  assumes "regex_laws env" and "redact config"
  shows "\<exists>cs fs pieces secrets. collect_candidates env config text = Some cs \<and>
    length fs = length secrets \<and> length pieces = Suc (length secrets) \<and>
    text = interleave pieces secrets \<and>
    detect_and_redact env config text =
      Some (fs, interleave pieces (map (\<lambda>_. redaction_text config) secrets)) \<and>
    map (covered cs) [0..<length text] =
      interleave (map (map (\<lambda>_. False)) pieces) (map (map (\<lambda>_. True)) secrets)"
proof -
  obtain cs where cs: "collect_candidates env config text = Some cs" "list_all (candidate_ok text) cs"
    using collect_candidates_ok [OF assms(1)] .
  let ?s = "select_candidates (sort_key candidate_key cs)"
  from redact_from_exact [OF selected_consecutive(1) [OF cs(2)], of "redaction_text config"]
  obtain ps ss where e: "length ss = length ?s" "length ps = Suc (length ?s)" "text = interleave ps ss"
    "redact_from text (redaction_text config) 0 ?s = Some (interleave ps (map (\<lambda>_. redaction_text config) ss))"
    "map (covered cs) [0..<length text] = interleave (map (map (\<lambda>_. False)) ps) (map (map (\<lambda>_. True)) ss)"
    unfolding selected_consecutive(2) [OF cs(2)] by auto
  have "detect_and_redact env config text =
      Some (map finding_of ?s, interleave ps (map (\<lambda>_. redaction_text config) ss))"
  proof (cases "?s = []")
    case True
    with e have "interleave ps (map (\<lambda>_. redaction_text config) ss) = text" by simp
    with True show ?thesis by (simp add: detect_and_redact_def cs)
  next
    case False
    then show ?thesis using assms(2) e(4) by (simp add: detect_and_redact_def cs)
  qed
  with cs e show ?thesis
    by (intro exI [of _ cs] exI [of _ "map finding_of ?s"] exI [of _ ps] exI [of _ ss]) simp
qed

text \<open>A sorted list is determined by its elements when equal keys mean equal elements.\<close>

lemma sort_key_mset:
  assumes "mset xs = mset ys" "\<And>x y. x \<in> set xs \<Longrightarrow> y \<in> set xs \<Longrightarrow> f x = f y \<Longrightarrow> x = y"
  shows "sort_key f xs = sort_key f ys"
proof (rule properties_for_sort_key)
  show "mset (sort_key f ys) = mset xs" using assms(1) by simp
  show "sorted (map f (sort_key f ys))" by simp
  fix k
  assume "k \<in> set (sort_key f ys)"
  then have k: "k \<in> set xs" using mset_eq_setD [OF assms(1)] by simp
  have eq: "filter (\<lambda>x. f k = f x) zs = replicate (count (mset zs) k) k" if "set zs \<subseteq> set xs" for zs
    using that
  proof (induction zs)
    case (Cons z zs)
    then have "f k = f z \<longleftrightarrow> z = k" using assms(2) [OF k, of z] by auto
    with Cons show ?case by auto
  qed simp
  show "filter (\<lambda>x. f k = f x) (sort_key f ys) = filter (\<lambda>x. f k = f x) xs"
    using eq [of xs] eq [of "sort_key f ys"] mset_eq_setD [OF assms(1)] assms(1) by simp
qed

lemma collect_opt_mset:
  assumes "mset xs = mset ys" "\<And>x. f x \<noteq> None"
  shows "\<exists>as bs. map_option concat (collect_opt f xs) = Some as \<and>
    map_option concat (collect_opt f ys) = Some bs \<and> mset as = mset bs"
proof -
  have "\<exists>as. map_option concat (collect_opt f zs) = Some as \<and> mset as = (\<Sum>z\<in>#mset zs. mset (the (f z)))" for zs
  proof (induction zs)
    case (Cons z zs)
    from assms(2) obtain a where "f z = Some a" by blast
    with Cons show ?case by auto
  qed simp
  from this [of xs] this [of ys] assms(1) show ?thesis by auto
qed

lemma candidate_key_inj:
  assumes "candidate_ok text c" "candidate_ok text d" "candidate_key c = candidate_key d"
  shows "c = d"
proof -
  from assms have "mc_name c = mc_name d" "mc_start c = mc_start d" "mc_end c = mc_end d"
    by (auto simp: candidate_key_def candidate_ok_def span_ok_def)
  with assms show ?thesis unfolding candidate_ok_def by metis
qed

text \<open>
  Property C36 (detection does not depend on the map's order): the patterns are iterated in the
  arbitrary order of a hash map; findings and redaction are the same for every order.
\<close>

theorem detection_order_independent:
  assumes "regex_laws env" and "mset names = mset PATTERNS"
  shows "detect_and_redact (env\<lparr>pattern_order := names\<rparr>) config text = detect_and_redact env config text"
proof -
  let ?env = "env\<lparr>pattern_order := names\<rparr>"
  have p: "pattern_candidates ?env config text = pattern_candidates env config text"
    by (simp add: pattern_candidates_def fun_eq_iff)
  have "pattern_candidates env config text x \<noteq> None" for x using pattern_candidates_ok [OF assms(1)] by (metis option.distinct(1))
  moreover have "mset names = mset (pattern_order env)" using assms by (simp add: regex_laws_def)
  ultimately obtain as bs where ab: "collect_candidates ?env config text = Some as"
    "collect_candidates env config text = Some bs" "mset as = mset bs"
    using collect_opt_mset [of names "pattern_order env" "pattern_candidates env config text"]
    by (auto simp: collect_candidates_def p)
  obtain cs where "collect_candidates env config text = Some cs" "list_all (candidate_ok text) cs"
    using collect_candidates_ok [OF assms(1)] .
  with ab have "list_all (candidate_ok text) as" using mset_eq_setD [OF ab(3)] by (simp add: list_all_iff)
  then have "sort_key candidate_key as = sort_key candidate_key bs"
    by (intro sort_key_mset [OF ab(3)]) (auto simp: list_all_iff intro: candidate_key_inj)
  with ab show ?thesis by (simp add: detect_and_redact_def)
qed

definition sample_regex :: regex_env where
  "sample_regex = \<lparr>pattern_order = PATTERNS,
     find_iter = (\<lambda>name text. if text = ''id AKIA, no'' \<and> name = ''aws_access_key_id'' then [(3, 7)]
       else if text = ''id AKIA, no'' \<and> name = ''slack_token'' then [(4, 6)] else []),
     captures_iter = (\<lambda>name text. [])\<rparr>"

definition sample_redacting :: secrets_detection_config where
  "sample_redacting = default_secrets_config\<lparr>redact := True, redaction_text := ''#'', block_on_detection := False\<rparr>"

lemma sample_regex_laws: "regex_laws sample_regex"
proof -
  have "list_all (span_ok ''id AKIA, no'') [(3, 7), (4, 6)]" by code_simp
  then show ?thesis by (auto simp: regex_laws_def sample_regex_def)
qed

theorem redaction_exact_witness:
  "regex_laws sample_regex \<and> redact sample_redacting \<and>
   detect_and_redact sample_regex sample_redacting ''id AKIA, no'' =
     Some ([\<lparr>pii_type = ''aws_access_key_id'', preview = ''AKIA''\<rparr>], ''id #, no'') \<and>
   (\<exists>cs fs pieces secrets. collect_candidates sample_regex sample_redacting ''id AKIA, no'' = Some cs \<and>
    length fs = length secrets \<and> length pieces = Suc (length secrets) \<and>
    ''id AKIA, no'' = interleave pieces secrets \<and>
    detect_and_redact sample_regex sample_redacting ''id AKIA, no'' =
      Some (fs, interleave pieces (map (\<lambda>_. redaction_text sample_redacting) secrets)) \<and>
    map (covered cs) [0..<length ''id AKIA, no''] =
      interleave (map (map (\<lambda>_. False)) pieces) (map (map (\<lambda>_. True)) secrets))"
proof -
  have r: "redact sample_redacting" by (simp add: sample_redacting_def)
  have "detect_and_redact sample_regex sample_redacting ''id AKIA, no'' =
     Some ([\<lparr>pii_type = ''aws_access_key_id'', preview = ''AKIA''\<rparr>], ''id #, no'')" by code_simp
  with r sample_regex_laws redaction_exact [OF sample_regex_laws r, of "''id AKIA, no''"] show ?thesis by blast
qed

theorem detection_order_independent_witness:
  "regex_laws sample_regex \<and> mset (rev PATTERNS) = mset PATTERNS \<and>
   detect_and_redact (sample_regex\<lparr>pattern_order := rev PATTERNS\<rparr>) sample_redacting ''id AKIA, no'' =
     detect_and_redact sample_regex sample_redacting ''id AKIA, no''"
proof -
  have r: "mset (rev PATTERNS) = mset PATTERNS" by simp
  from r sample_regex_laws detection_order_independent [OF sample_regex_laws r] show ?thesis by blast
qed

section \<open>Scanning JSON values\<close>

text \<open>
  The string leaves of a value with the names of the fields on the way to them (array positions do
  not count), and a value with its string leaves replaced.
\<close>

fun string_leaves :: "string list \<Rightarrow> json \<Rightarrow> (string list \<times> string) list"
  and item_leaves :: "string list \<Rightarrow> json list \<Rightarrow> (string list \<times> string) list"
  and entry_leaves :: "string list \<Rightarrow> json_object \<Rightarrow> (string list \<times> string) list" where
  "string_leaves path (JString s) = [(path, s)]"
| "string_leaves path (JArray items) = item_leaves path items"
| "string_leaves path (JObject entries) = entry_leaves path entries"
| "string_leaves path v = []"
| "item_leaves path [] = []"
| "item_leaves path (v # vs) = string_leaves path v @ item_leaves path vs"
| "entry_leaves path [] = []"
| "entry_leaves path ((k, v) # kvs) = string_leaves (path @ [k]) v @ entry_leaves path kvs"

fun map_leaves :: "(string list \<Rightarrow> string \<Rightarrow> string) \<Rightarrow> string list \<Rightarrow> json \<Rightarrow> json"
  and map_items :: "(string list \<Rightarrow> string \<Rightarrow> string) \<Rightarrow> string list \<Rightarrow> json list \<Rightarrow> json list"
  and map_entries :: "(string list \<Rightarrow> string \<Rightarrow> string) \<Rightarrow> string list \<Rightarrow> json_object \<Rightarrow> json_object" where
  "map_leaves f path (JString s) = JString (f path s)"
| "map_leaves f path (JArray items) = JArray (map_items f path items)"
| "map_leaves f path (JObject entries) = JObject (map_entries f path entries)"
| "map_leaves f path v = v"
| "map_items f path [] = []"
| "map_items f path (v # vs) = map_leaves f path v # map_items f path vs"
| "map_entries f path [] = []"
| "map_entries f path ((k, v) # kvs) = (k, map_leaves f (path @ [k]) v) # map_entries f path kvs"

definition text_findings :: "regex_env \<Rightarrow> secrets_detection_config \<Rightarrow> string \<Rightarrow> finding list" where
  "text_findings env config s = (case detect_and_redact env config s of Some (fs, _) \<Rightarrow> fs | None \<Rightarrow> [])"

definition text_redacted :: "regex_env \<Rightarrow> secrets_detection_config \<Rightarrow> string \<Rightarrow> string" where
  "text_redacted env config s = (case detect_and_redact env config s of Some (_, t) \<Rightarrow> t | None \<Rightarrow> s)"

definition leaf_findings :: "regex_env \<Rightarrow> secrets_detection_config \<Rightarrow> (string list \<times> string) list \<Rightarrow> finding list" where
  "leaf_findings env config leaves =
     concat (map (\<lambda>(path, s). if should_scan_field_path config path False then text_findings env config s else []) leaves)"

definition leaf_redacted :: "regex_env \<Rightarrow> secrets_detection_config \<Rightarrow> string list \<Rightarrow> string \<Rightarrow> string" where
  "leaf_redacted env config path s =
     (if should_scan_field_path config path False then text_redacted env config s else s)"

lemma detect_total:
  assumes "regex_laws env"
  shows "detect_and_redact env config s = Some (text_findings env config s, text_redacted env config s)"
proof -
  obtain cs where cs: "collect_candidates env config s = Some cs" "list_all (candidate_ok s) cs"
    using collect_candidates_ok [OF assms] .
  from redact_from_exact [OF selected_consecutive(1) [OF cs(2)], of "redaction_text config"]
  have "detect_and_redact env config s \<noteq> None" by (auto simp: detect_and_redact_def cs Let_def)
  then show ?thesis by (auto simp: text_findings_def text_redacted_def)
qed

lemma leaf_findings_simps [simp]:
  "leaf_findings env config [] = []"
  "leaf_findings env config (a @ b) = leaf_findings env config a @ leaf_findings env config b"
  "leaf_findings env config [(path, s)] =
     (if should_scan_field_path config path False then text_findings env config s else [])"
  by (simp_all add: leaf_findings_def)

lemma untraversed_clean:
  assumes "\<not> should_traverse_field_path config path"
  shows "leaf_findings env config (string_leaves (path @ ext) v) = [] \<and>
      map_leaves (leaf_redacted env config) (path @ ext) v = v"
    and "leaf_findings env config (item_leaves (path @ ext) vs) = [] \<and>
      map_items (leaf_redacted env config) (path @ ext) vs = vs"
    and "leaf_findings env config (entry_leaves (path @ ext) kvs) = [] \<and>
      map_entries (leaf_redacted env config) (path @ ext) kvs = kvs"
proof (induction "path @ ext" v and "path @ ext" vs and "path @ ext" kvs arbitrary: ext and ext and ext
    rule: string_leaves_item_leaves_entry_leaves.induct)
  case (8 k v kvs)
  from 8(1) [of "ext @ [k]"] 8(2) show ?case by simp
qed (use untraversed_unscanned [OF assms] in \<open>simp_all add: leaf_redacted_def\<close>)

definition leaf_report :: "regex_env \<Rightarrow> secrets_detection_config \<Rightarrow> string list \<Rightarrow> json \<Rightarrow> scan_report" where
  "leaf_report env config path v =
     \<lparr>report_count = length (leaf_findings env config (string_leaves path v)),
      report_redacted = map_leaves (leaf_redacted env config) path v,
      report_findings = leaf_findings env config (string_leaves path v)\<rparr>"

lemma scan_spec:
  assumes "regex_laws env"
  shows "\<not> root \<or> \<not> (\<exists>s. v = JString s) \<Longrightarrow> scan_json_value_inner env config path root v = Some (leaf_report env config path v)"
    and "scan_items env config path vs = Some (length (leaf_findings env config (item_leaves path vs)),
      map_items (leaf_redacted env config) path vs, leaf_findings env config (item_leaves path vs))"
    and "scan_entries env config path kvs = Some (length (leaf_findings env config (entry_leaves path kvs)),
      map_entries (leaf_redacted env config) path kvs, leaf_findings env config (entry_leaves path kvs))"
  using assms
proof (induction env config path root v and env config path vs and env config path kvs
    rule: scan_json_value_inner_scan_items_scan_entries.induct)
  case (1 env config path root s)
  then show ?case
    by (simp add: detect_total leaf_report_def leaf_redacted_def clean_report_def text_report_def)
next
  case (2 env config path root items)
  then show ?case
    using untraversed_clean(2) [of config path env "[]" items] by (simp add: leaf_report_def clean_report_def)
next
  case (3 env config path root entries)
  then show ?case
    using untraversed_clean(3) [of config path env "[]" entries] by (simp add: leaf_report_def clean_report_def)
qed (simp_all add: leaf_report_def clean_report_def)

text \<open>
  Property C37 (a scan reads exactly the permitted fields): the pruned traversal of a JSON value finds
  and redacts the same as looking at every string of the value and scanning those whose field path
  is not denied and, when there is an allow list, lies below an allowed path. Everything else of the
  value is kept, the count is the number of findings, and a text at the root is always scanned.
\<close>

theorem scan_json_value_spec:
  assumes "regex_laws env"
  shows "scan_json_value env config v = Some
    (case v of
       JString s \<Rightarrow> \<lparr>report_count = length (text_findings env config s),
         report_redacted = JString (text_redacted env config s), report_findings = text_findings env config s\<rparr>
     | _ \<Rightarrow> \<lparr>report_count = length (leaf_findings env config (string_leaves [] v)),
         report_redacted = map_leaves (leaf_redacted env config) [] v,
         report_findings = leaf_findings env config (string_leaves [] v)\<rparr>)"
proof (cases "\<exists>s. v = JString s")
  case True
  then show ?thesis
    by (auto simp: scan_json_value_def should_scan_field_path_def detect_total [OF assms] text_report_def)
next
  case False
  then show ?thesis using scan_spec(1) [OF assms, of True v config "[]"]
    by (cases v) (simp_all add: scan_json_value_def leaf_report_def)
qed

theorem scan_json_value_spec_witness:
  "regex_laws sample_regex \<and>
   scan_json_value sample_regex (sample_redacting\<lparr>field_denylist := [[''skip'']]\<rparr>)
     (JObject [(''a'', JArray [JString ''id AKIA, no'']), (''skip'', JString ''id AKIA, no'')]) =
   Some \<lparr>report_count = 1,
     report_redacted = JObject [(''a'', JArray [JString ''id #, no'']), (''skip'', JString ''id AKIA, no'')],
     report_findings = [\<lparr>pii_type = ''aws_access_key_id'', preview = ''AKIA''\<rparr>]\<rparr>"
proof -
  let ?c = "sample_redacting\<lparr>field_denylist := [[''skip'']]\<rparr>"
  have d: "detect_and_redact sample_regex ?c ''id AKIA, no'' =
     Some ([\<lparr>pii_type = ''aws_access_key_id'', preview = ''AKIA''\<rparr>], ''id #, no'')" by code_simp
  have p: "should_scan_field_path ?c [''a''] False" "\<not> should_scan_field_path ?c [''skip''] False" by code_simp+
  show ?thesis
    using sample_regex_laws scan_json_value_spec [OF sample_regex_laws, of ?c
        "JObject [(''a'', JArray [JString ''id AKIA, no'']), (''skip'', JString ''id AKIA, no'')]"]
    by (simp add: leaf_findings_def leaf_redacted_def text_findings_def text_redacted_def d p)
qed

end
