(* ===== verification/SecretsPlugin.thy ===== *)
theory SecretsPlugin
  imports SecretsScanner Cmf
begin

text \<open>
  The plugin itself (\<open>cpex-secrets-detection/src/lib.rs\<close>): its factory, the handler of each stage, the
  violation and the metrics. Plugin results, violations and the request extensions belong to the CPEX
  library; the model has the fields that the plugin sets or reads. An \<open>unreachable!\<close> is \<open>None\<close>, like
  a slice that panics.
\<close>

section \<open>Definitions\<close>

definition KIND :: string where "KIND = ''validator/secrets-detection''"
definition VIOLATION_CODE :: string where "VIOLATION_CODE = ''SECRETS_DETECTED''"
definition MAX_SECRET_TYPES :: nat where "MAX_SECRET_TYPES = 32"

record secrets_detection_core =
  core_plugin :: cpex_plugin
  scanner_config :: secrets_detection_config

definition secrets_core_new ::
  "(json \<Rightarrow> (raw_secrets_detection_config, string) result) \<Rightarrow> cpex_plugin
    \<Rightarrow> (secrets_detection_core, config_error) result" where
  "secrets_core_new decode config =
     bind_res (config_from_value decode (plugin_config config))
       (\<lambda>sc. Ok \<lparr>core_plugin = config, scanner_config = sc\<rparr>)"

definition should_block :: "secrets_detection_core \<Rightarrow> nat \<Rightarrow> bool" where
  "should_block core n \<longleftrightarrow>
     block_on_detection (scanner_config core) \<and> n \<ge> min_findings_to_block (scanner_config core)"

datatype stage = PromptPreFetch | ToolPreInvoke | ToolPostInvoke | ResourcePostFetch

definition block_description :: "stage \<Rightarrow> string" where
  "block_description st =
     (case st of
        PromptPreFetch \<Rightarrow> ''Potential secrets detected in prompt arguments''
      | ToolPreInvoke \<Rightarrow> ''Potential secrets detected in tool arguments''
      | ToolPostInvoke \<Rightarrow> ''Potential secrets detected in tool result''
      | ResourcePostFetch \<Rightarrow> ''Potential secrets detected in resource content'')"

record plugin_violation =
  violation_code :: string
  violation_reason :: string
  violation_description :: string
  violation_details :: "(string \<times> json) list"

record hook_result =
  hr_violation :: "plugin_violation option"
  hr_modified :: "cmf_message option"
  hr_metadata :: "json option"

record part_scan_report =
  part_count :: nat
  part_findings :: "finding list"
  part_redacted :: bool

record payload_scan =
  scan_count :: nat
  scan_findings :: "finding list"
  scan_modified :: "cmf_message option"

datatype detection_outcome = Masked | Blocked | NoOutcome

text \<open>One arm of \<open>scan_content_part\<close>: \<open>put\<close> writes the redacted value into the part.\<close>

definition scan_value_part ::
  "regex_env \<Rightarrow> secrets_detection_config \<Rightarrow> scan_report option \<Rightarrow> content_part \<Rightarrow> (json \<Rightarrow> content_part option)
    \<Rightarrow> (content_part \<times> part_scan_report option) option" where
  "scan_value_part env config scanned part put =
     Option.bind scanned (\<lambda>report.
       let redacted = redact config \<and> report_count report > 0 in
       map_option (\<lambda>part'. (part', Some \<lparr>part_count = report_count report,
           part_findings = report_findings report, part_redacted = redacted\<rparr>))
         (if redacted then put (report_redacted report) else Some part))"

definition scan_content_part ::
  "regex_env \<Rightarrow> secrets_detection_config \<Rightarrow> stage \<Rightarrow> content_part
    \<Rightarrow> (content_part \<times> part_scan_report option) option" where
  "scan_content_part env config st part =
     (case (st, part) of
        (PromptPreFetch, PromptRequestPart c) \<Rightarrow>
          scan_value_part env config (scan_json_value env config (JObject (pq_arguments c))) part
            (\<lambda>v. map_option (\<lambda>args. PromptRequestPart (c\<lparr>pq_arguments := args\<rparr>)) (as_object v))
      | (ToolPreInvoke, ToolCallPart c) \<Rightarrow>
          scan_value_part env config (scan_json_value env config (JObject (tc_arguments c))) part
            (\<lambda>v. map_option (\<lambda>args. ToolCallPart (c\<lparr>tc_arguments := args\<rparr>)) (as_object v))
      | (ToolPostInvoke, ToolResultPart c) \<Rightarrow>
          scan_value_part env config (scan_json_value env config (tr_content c)) part
            (\<lambda>v. Some (ToolResultPart (c\<lparr>tr_content := v\<rparr>)))
      | (ResourcePostFetch, ResourcePart c) \<Rightarrow>
          (case cr_content c of
             None \<Rightarrow> Some (part, None)
           | Some text \<Rightarrow>
               scan_value_part env config (scan_direct_text env config text) part
                 (\<lambda>v. map_option (\<lambda>t. ResourcePart (c\<lparr>cr_content := Some t\<rparr>)) (as_str v)))
      | _ \<Rightarrow> Some (part, None))"

text \<open>The loop of \<open>scan_payload\<close> over the parts: the new parts, the count, the findings, \<open>redacted_any\<close>.\<close>

fun scan_parts ::
  "regex_env \<Rightarrow> secrets_detection_config \<Rightarrow> stage \<Rightarrow> content_part list
    \<Rightarrow> (content_part list \<times> nat \<times> finding list \<times> bool) option" where
  "scan_parts env config st [] = Some ([], 0, [], False)"
| "scan_parts env config st (part # parts) =
     Option.bind (scan_content_part env config st part) (\<lambda>(part', report).
       map_option (\<lambda>(parts', n, fs, redacted_any).
           (part' # parts',
            case report of
              None \<Rightarrow> (n, fs, redacted_any)
            | Some r \<Rightarrow> (part_count r + n, part_findings r @ fs, redact config \<and> part_redacted r \<or> redacted_any)))
         (scan_parts env config st parts))"

fun with_content :: "cmf_message \<Rightarrow> content_part list \<Rightarrow> cmf_message" where
  "with_content (CmfMessage v role content channel) parts = CmfMessage v role parts channel"

definition scan_payload ::
  "regex_env \<Rightarrow> secrets_detection_core \<Rightarrow> stage \<Rightarrow> cmf_message \<Rightarrow> payload_scan option" where
  "scan_payload env core st payload =
     map_option (\<lambda>(parts, n, fs, redacted_any).
         \<lparr>scan_count = n, scan_findings = fs,
          scan_modified = (if redacted_any then Some (with_content payload parts) else None)\<rparr>)
       (scan_parts env (scanner_config core) st (msg_content payload))"

definition sanitized_findings :: "finding list \<Rightarrow> json" where
  "sanitized_findings fs = JArray (map (\<lambda>f. JObject [(''type'', JString (pii_type f))]) fs)"

definition build_violation :: "stage \<Rightarrow> nat \<Rightarrow> finding list \<Rightarrow> plugin_violation" where
  "build_violation st n fs =
     \<lparr>violation_code = VIOLATION_CODE, violation_reason = ''Secrets detected'',
      violation_description = block_description st,
      violation_details = [(''count'', JNumber (PosInt n)), (''examples'', sanitized_findings fs)]\<rparr>"

definition secret_types :: "finding list \<Rightarrow> string list" where
  "secret_types fs = take MAX_SECRET_TYPES (remdups_adj (sort (map pii_type fs)))"

definition build_metrics :: "string option \<Rightarrow> nat \<Rightarrow> finding list \<Rightarrow> detection_outcome \<Rightarrow> json option" where
  "build_metrics trace_id n fs outcome =
     (case trace_id of
        None \<Rightarrow> None
      | Some trace \<Rightarrow>
          if trace = [] \<or> n = 0 then None
          else
            let (masked, blocked) = (case outcome of Masked \<Rightarrow> (n, 0) | Blocked \<Rightarrow> (0, n) | NoOutcome \<Rightarrow> (0, 0)) in
            Some (JObject [(''secrets_detection'', JObject
              [(''total_detections'', JNumber (PosInt n)), (''total_masked'', JNumber (PosInt masked)),
               (''total_blocked'', JNumber (PosInt blocked)),
               (''secret_types'', JArray (map JString (secret_types fs)))])]))"

definition attach_metrics ::
  "hook_result \<Rightarrow> string option \<Rightarrow> nat \<Rightarrow> finding list \<Rightarrow> detection_outcome \<Rightarrow> hook_result" where
  "attach_metrics result trace_id n fs outcome =
     (case build_metrics trace_id n fs outcome of
        None \<Rightarrow> result
      | Some metadata \<Rightarrow> result\<lparr>hr_metadata := Some metadata\<rparr>)"

definition secrets_handle ::
  "regex_env \<Rightarrow> secrets_detection_core \<Rightarrow> stage \<Rightarrow> string option \<Rightarrow> cmf_message \<Rightarrow> hook_result option" where
  "secrets_handle env core st trace_id payload =
     map_option (\<lambda>scan.
       if should_block core (scan_count scan) then
         attach_metrics
           \<lparr>hr_violation = Some (build_violation st (scan_count scan) (scan_findings scan)),
            hr_modified = (case scan_modified scan of Some m \<Rightarrow> Some m | None \<Rightarrow> Some payload),
            hr_metadata = None\<rparr>
           trace_id (scan_count scan) (scan_findings scan) Blocked
       else
         (case scan_modified scan of
            Some m \<Rightarrow> attach_metrics \<lparr>hr_violation = None, hr_modified = Some m, hr_metadata = None\<rparr>
              trace_id (scan_count scan) (scan_findings scan) Masked
          | None \<Rightarrow>
              let result = \<lparr>hr_violation = None, hr_modified = None, hr_metadata = None\<rparr> in
              if scan_count scan > 0
              then attach_metrics result trace_id (scan_count scan) (scan_findings scan) NoOutcome else result))
     (scan_payload env core st payload)"

definition stage_of_hook :: "string \<Rightarrow> stage option" where
  "stage_of_hook hook =
     (if hook = ''cmf.prompt_pre_fetch'' then Some PromptPreFetch
      else if hook = ''cmf.tool_pre_invoke'' then Some ToolPreInvoke
      else if hook = ''cmf.tool_post_invoke'' then Some ToolPostInvoke
      else if hook = ''cmf.resource_post_fetch'' then Some ResourcePostFetch
      else None)"

text \<open>The factory: the instance is the core with the hooks and stages of its handlers.\<close>

definition secrets_factory_create ::
  "(json \<Rightarrow> (raw_secrets_detection_config, string) result) \<Rightarrow> cpex_plugin
    \<Rightarrow> (secrets_detection_core \<times> (string \<times> stage) list, config_error) result" where
  "secrets_factory_create decode config =
     bind_res (secrets_core_new decode config)
       (\<lambda>core. Ok (core, List.map_filter (\<lambda>hook. map_option (Pair hook) (stage_of_hook hook)) (plugin_hooks config)))"

section \<open>What a stage scans\<close>

definition scanned_value :: "stage \<Rightarrow> content_part \<Rightarrow> json option" where
  "scanned_value st part =
     (case (st, part) of
        (PromptPreFetch, PromptRequestPart c) \<Rightarrow> Some (JObject (pq_arguments c))
      | (ToolPreInvoke, ToolCallPart c) \<Rightarrow> Some (JObject (tc_arguments c))
      | (ToolPostInvoke, ToolResultPart c) \<Rightarrow> Some (tr_content c)
      | (ResourcePostFetch, ResourcePart c) \<Rightarrow> map_option JString (cr_content c)
      | _ \<Rightarrow> None)"

definition put_value :: "content_part \<Rightarrow> json \<Rightarrow> content_part" where
  "put_value part v =
     (case (part, v) of
        (PromptRequestPart c, JObject args) \<Rightarrow> PromptRequestPart (c\<lparr>pq_arguments := args\<rparr>)
      | (ToolCallPart c, JObject args) \<Rightarrow> ToolCallPart (c\<lparr>tc_arguments := args\<rparr>)
      | (ToolResultPart c, v) \<Rightarrow> ToolResultPart (c\<lparr>tr_content := v\<rparr>)
      | (ResourcePart c, JString t) \<Rightarrow> ResourcePart (c\<lparr>cr_content := Some t\<rparr>)
      | _ \<Rightarrow> part)"

definition value_findings :: "regex_env \<Rightarrow> secrets_detection_config \<Rightarrow> json \<Rightarrow> finding list" where
  "value_findings env config v =
     (case v of JString s \<Rightarrow> text_findings env config s | _ \<Rightarrow> leaf_findings env config (string_leaves [] v))"

definition value_redacted :: "regex_env \<Rightarrow> secrets_detection_config \<Rightarrow> json \<Rightarrow> json" where
  "value_redacted env config v =
     (case v of JString s \<Rightarrow> JString (text_redacted env config s) | _ \<Rightarrow> map_leaves (leaf_redacted env config) [] v)"

definition content_findings :: "regex_env \<Rightarrow> secrets_detection_config \<Rightarrow> stage \<Rightarrow> content_part \<Rightarrow> finding list" where
  "content_findings env config st part =
     (case scanned_value st part of None \<Rightarrow> [] | Some v \<Rightarrow> value_findings env config v)"

definition content_redacted :: "regex_env \<Rightarrow> secrets_detection_config \<Rightarrow> stage \<Rightarrow> content_part \<Rightarrow> content_part" where
  "content_redacted env config st part =
     (case scanned_value st part of
        None \<Rightarrow> part
      | Some v \<Rightarrow> if value_findings env config v = [] then part else put_value part (value_redacted env config v))"

lemma scan_json_value_total:
  assumes "regex_laws env"
  shows "scan_json_value env config v = Some \<lparr>report_count = length (value_findings env config v),
    report_redacted = value_redacted env config v, report_findings = value_findings env config v\<rparr>"
proof (cases "\<exists>s. v = JString s")
  case True
  then show ?thesis
    by (auto simp: scan_json_value_def should_scan_field_path_def detect_total [OF assms] text_report_def
        value_findings_def value_redacted_def)
next
  case False
  then show ?thesis using scan_spec(1) [OF assms, of True v config "[]"]
    by (cases v) (simp_all add: scan_json_value_def leaf_report_def value_findings_def value_redacted_def)
qed

lemma scan_direct_text_json: "scan_direct_text env config t = scan_json_value env config (JString t)"
  by (simp add: scan_direct_text_def scan_json_value_def should_scan_field_path_def)

text \<open>The shape of a scanned value is kept, so the unreachable branches are never taken.\<close>

lemma value_redacted_shape:
  "as_object (value_redacted env config (JObject kvs)) = Some (map_entries (leaf_redacted env config) [] kvs)"
  "as_str (value_redacted env config (JString t)) = Some (text_redacted env config t)"
  by (simp_all add: value_redacted_def)

lemma scan_content_part_spec:
  assumes "regex_laws env"
  shows "scan_content_part env config st part =
    Some (if redact config then content_redacted env config st part else part,
      map_option (\<lambda>v. \<lparr>part_count = length (value_findings env config v),
        part_findings = value_findings env config v,
        part_redacted = (redact config \<and> value_findings env config v \<noteq> [])\<rparr>) (scanned_value st part))"
  by (cases st; cases part)
    (auto simp: scan_content_part_def scan_value_part_def scan_direct_text_json scan_json_value_total [OF assms]
      scanned_value_def content_redacted_def put_value_def Let_def value_redacted_def split: option.splits)

lemma scan_parts_spec:
  assumes "regex_laws env"
  shows "scan_parts env config st parts =
    (let fs = concat (map (content_findings env config st) parts) in
     Some (if redact config then map (content_redacted env config st) parts else parts,
       length fs, fs, redact config \<and> fs \<noteq> []))"
proof (induction parts)
  case (Cons part parts)
  then show ?case
    by (cases "scanned_value st part")
      (auto simp: scan_content_part_spec [OF assms] content_findings_def Let_def)
qed simp

definition payload_findings ::
  "regex_env \<Rightarrow> secrets_detection_config \<Rightarrow> stage \<Rightarrow> cmf_message \<Rightarrow> finding list" where
  "payload_findings env config st payload = concat (map (content_findings env config st) (msg_content payload))"

definition payload_redacted ::
  "regex_env \<Rightarrow> secrets_detection_config \<Rightarrow> stage \<Rightarrow> cmf_message \<Rightarrow> cmf_message" where
  "payload_redacted env config st payload =
     with_content payload (map (content_redacted env config st) (msg_content payload))"

lemma scan_payload_spec:
  assumes "regex_laws env"
  shows "scan_payload env core st payload = Some
    \<lparr>scan_count = length (payload_findings env (scanner_config core) st payload),
     scan_findings = payload_findings env (scanner_config core) st payload,
     scan_modified = (if redact (scanner_config core) \<and> payload_findings env (scanner_config core) st payload \<noteq> []
       then Some (payload_redacted env (scanner_config core) st payload) else None)\<rparr>"
  by (simp add: scan_payload_def scan_parts_spec [OF assms] payload_findings_def payload_redacted_def Let_def)

lemma attach_metrics_simps [simp]:
  "hr_violation (attach_metrics r t n fs oc) = hr_violation r"
  "hr_modified (attach_metrics r t n fs oc) = hr_modified r"
  by (simp_all add: attach_metrics_def split: option.splits)

text \<open>
  Property C20 (verdict of the secrets plugin): the handler never panics. It denies exactly when blocking
  is on and the findings in the parts its stage looks at reach the threshold, and it hands out the
  payload with exactly those parts redacted when redaction is on and something was found.
\<close>

theorem secrets_verdict:
  assumes "regex_laws env"
  shows "\<exists>r. secrets_handle env core st trace_id payload = Some r \<and>
    hr_violation r =
      (let fs = payload_findings env (scanner_config core) st payload in
       if block_on_detection (scanner_config core) \<and> length fs \<ge> min_findings_to_block (scanner_config core)
       then Some (build_violation st (length fs) fs) else None) \<and>
    hr_modified r =
      (if redact (scanner_config core) \<and> payload_findings env (scanner_config core) st payload \<noteq> []
       then Some (payload_redacted env (scanner_config core) st payload)
       else if hr_violation r = None then None else Some payload)"
  by (auto simp: secrets_handle_def scan_payload_spec [OF assms] should_block_def Let_def)

definition sample_core :: secrets_detection_core where
  "sample_core = \<lparr>core_plugin = \<lparr>plugin_name = ''s'', plugin_kind = KIND, plugin_hooks = [''cmf.tool_pre_invoke''],
     plugin_conditions = [], plugin_config = None\<rparr>, scanner_config = sample_redacting\<rparr>"

definition sample_tool_payload :: "string \<Rightarrow> cmf_message" where
  "sample_tool_payload s = CmfMessage ''2.0'' AssistantRole [ToolCallPart \<lparr>tc_tool_call_id = ''1'', tc_name = ''t'',
     tc_arguments = [(''q'', JString s)], tc_namespace = None\<rparr>] None"

lemma sample_detected:
  "text_findings sample_regex sample_redacting ''id AKIA, no'' = [\<lparr>pii_type = ''aws_access_key_id'', preview = ''AKIA''\<rparr>]"
  "text_redacted sample_regex sample_redacting ''id AKIA, no'' = ''id #, no''"
proof -
  have "detect_and_redact sample_regex sample_redacting ''id AKIA, no'' =
     Some ([\<lparr>pii_type = ''aws_access_key_id'', preview = ''AKIA''\<rparr>], ''id #, no'')" by code_simp
  then show "text_findings sample_regex sample_redacting ''id AKIA, no'' = [\<lparr>pii_type = ''aws_access_key_id'', preview = ''AKIA''\<rparr>]"
    "text_redacted sample_regex sample_redacting ''id AKIA, no'' = ''id #, no''"
    by (simp_all add: text_findings_def text_redacted_def)
qed

lemma sample_payload_scan:
  "payload_findings sample_regex sample_redacting ToolPreInvoke (sample_tool_payload ''id AKIA, no'') =
     [\<lparr>pii_type = ''aws_access_key_id'', preview = ''AKIA''\<rparr>]"
  "payload_redacted sample_regex sample_redacting ToolPreInvoke (sample_tool_payload ''id AKIA, no'') =
     sample_tool_payload ''id #, no''"
proof -
  have p: "should_scan_field_path sample_redacting [''q''] False" by code_simp
  show "payload_findings sample_regex sample_redacting ToolPreInvoke (sample_tool_payload ''id AKIA, no'') =
      [\<lparr>pii_type = ''aws_access_key_id'', preview = ''AKIA''\<rparr>]"
    by (simp add: sample_tool_payload_def payload_findings_def content_findings_def scanned_value_def
        value_findings_def leaf_findings_def sample_detected p)
  show "payload_redacted sample_regex sample_redacting ToolPreInvoke (sample_tool_payload ''id AKIA, no'') =
      sample_tool_payload ''id #, no''"
    by (simp add: sample_tool_payload_def payload_redacted_def content_redacted_def scanned_value_def put_value_def
        value_redacted_def leaf_redacted_def value_findings_def leaf_findings_def sample_detected p)
qed

lemma sample_core_config [simp]:
  "scanner_config sample_core = sample_redacting" "\<not> block_on_detection sample_redacting" "redact sample_redacting"
  by (simp_all add: sample_core_def sample_redacting_def)

theorem secrets_verdict_witness:
  "regex_laws sample_regex \<and>
   (\<exists>r. secrets_handle sample_regex sample_core ToolPreInvoke None (sample_tool_payload ''id AKIA, no'') = Some r \<and>
      hr_violation r = None \<and> hr_modified r = Some (sample_tool_payload ''id #, no''))"
  using sample_payload_scan sample_regex_laws secrets_verdict [OF sample_regex_laws, of sample_core ToolPreInvoke None
      "sample_tool_payload ''id AKIA, no''"] by (simp add: Let_def)

lemma select_from_nonempty [simp]: "select_from c cs \<noteq> []"
  by (induction cs arbitrary: c) auto

lemma select_candidates_Nil: "select_candidates cs = [] \<longleftrightarrow> cs = []"
  by (cases cs) auto

lemma text_findings_Nil:
  assumes "regex_laws env" "text_findings env config s = []"
  shows "collect_candidates env config s = Some []"
proof -
  obtain cs where cs: "collect_candidates env config s = Some cs" using collect_candidates_ok [OF assms(1)] .
  with detect_total [OF assms(1), of config s] assms(2) have "select_candidates (sort_key candidate_key cs) = []"
    by (auto simp: detect_and_redact_def Let_def)
  then have "sort_key candidate_key cs = []" by (simp add: select_candidates_Nil)
  then have "cs = []" by (metis length_sort length_0_conv)
  with cs show ?thesis by simp
qed

lemma undenied_clean:
  assumes "regex_laws env" and "block_on_detection (scanner_config core)"
    and "min_findings_to_block (scanner_config core) \<le> 1"
    and "secrets_handle env core st trace_id payload = Some r" and "hr_violation r = None"
    and "part \<in> set (msg_content payload)" and "scanned_value st part = Some v"
    and "(path, s) \<in> set (string_leaves [] v)" and "should_scan_field_path (scanner_config core) path False"
  shows "collect_candidates env (scanner_config core) s = Some []"
proof -
  let ?config = "scanner_config core"
  have "payload_findings env ?config st payload = []"
  proof (rule ccontr)
    assume "payload_findings env ?config st payload \<noteq> []"
    then have "1 \<le> length (payload_findings env ?config st payload)" by (cases "payload_findings env ?config st payload") auto
    with assms(2,3) have "should_block core (length (payload_findings env ?config st payload))"
      by (simp add: should_block_def)
    with assms(4,5) show False by (auto simp: secrets_handle_def scan_payload_spec [OF assms(1)])
  qed
  then have v: "value_findings env ?config v = []"
    using assms(6,7) by (auto simp: payload_findings_def content_findings_def)
  have "text_findings env ?config s = []"
  proof (cases "\<exists>t. v = JString t")
    case True
    with v assms(8) show ?thesis by (auto simp: value_findings_def)
  next
    case False
    then have "leaf_findings env ?config (string_leaves [] v) = []" using v by (cases v) (simp_all add: value_findings_def)
    with assms(8,9) show ?thesis by (auto simp: leaf_findings_def)
  qed
  then show ?thesis by (rule text_findings_Nil [OF assms(1)])
qed

text \<open>
  Property C35 (what passes is clean): with blocking on and the default threshold (or none), a payload
  that the plugin does not deny has no match of an enabled pattern in any string that the
  configuration lets it scan, in any part that its stage looks at.
\<close>

theorem allowed_is_clean:
  assumes "regex_laws env" and "block_on_detection (scanner_config core)"
    and "min_findings_to_block (scanner_config core) \<le> 1"
    and "secrets_handle env core st trace_id payload = Some r" and "hr_violation r = None"
    and "part \<in> set (msg_content payload)" and "scanned_value st part = Some v"
    and "(path, s) \<in> set (string_leaves [] v)" and "should_scan_field_path (scanner_config core) path False"
  shows "collect_candidates env (scanner_config core) s = Some []"
  using assms by (rule undenied_clean)

theorem allowed_is_clean_witness:
  "regex_laws sample_regex \<and>
   (\<exists>r. secrets_handle sample_regex (sample_core\<lparr>scanner_config := default_secrets_config\<rparr>) ToolPreInvoke None
      (sample_tool_payload ''ok'') = Some r \<and> hr_violation r = None) \<and>
   collect_candidates sample_regex default_secrets_config ''ok'' = Some []"
proof -
  let ?core = "sample_core\<lparr>scanner_config := default_secrets_config\<rparr>"
  let ?r = "\<lparr>hr_violation = None, hr_modified = None, hr_metadata = None\<rparr>"
  have h: "secrets_handle sample_regex ?core ToolPreInvoke None (sample_tool_payload ''ok'') = Some ?r" by code_simp
  let ?part = "ToolCallPart \<lparr>tc_tool_call_id = ''1'', tc_name = ''t'',
     tc_arguments = [(''q'', JString ''ok'')], tc_namespace = None\<rparr>"
  have "collect_candidates sample_regex (scanner_config ?core) ''ok'' = Some []"
    by (rule allowed_is_clean [OF sample_regex_laws _ _ h, of ?part "JObject [(''q'', JString ''ok'')]" "[''q'']"])
      (simp_all add: default_secrets_config_def sample_tool_payload_def scanned_value_def should_scan_field_path_def
        path_is_denied_def)
  with h sample_regex_laws show ?thesis by simp
qed

lemma strict_sorted_remdups_adj: "sorted ys \<Longrightarrow> sorted_wrt (<) (remdups_adj ys)" for ys :: "'a :: linorder list"
proof (induction ys rule: remdups_adj.induct)
  case (3 x y ys)
  show ?case
  proof (cases "x = y")
    case False
    with 3(3) have lt: "\<forall>z \<in> set (remdups_adj (y # ys)). x < z" unfolding remdups_adj_set by force
    from False have "remdups_adj (x # y # ys) = x # remdups_adj (y # ys)" by simp
    then show ?thesis using lt 3 False by (metis sorted_wrt.simps(2))
  qed (use 3 in simp)
qed simp_all

lemma distinct_remdups_adj_sorted: "distinct (remdups_adj (sort xs))"
  using strict_sorted_remdups_adj [of "sort xs"] strict_sorted_iff by (metis sorted_sort)

text \<open>
  Reports name types only: the violation and the metrics of a detection do not depend on
  the found texts, only on the types of the findings; the listed types are sorted, without
  repetition, at most 32, and complete unless there are more.
\<close>

theorem reports_types_only:
  "build_violation st n fs = build_violation st n (map (\<lambda>f. f\<lparr>preview := []\<rparr>) fs) \<and>
   build_metrics trace_id n fs outcome = build_metrics trace_id n (map (\<lambda>f. f\<lparr>preview := []\<rparr>) fs) outcome \<and>
   sorted (secret_types fs) \<and> distinct (secret_types fs) \<and> length (secret_types fs) \<le> 32 \<and>
   set (secret_types fs) \<subseteq> pii_type ` set fs \<and>
   (length (secret_types fs) = 32 \<or> set (secret_types fs) = pii_type ` set fs)"
proof -
  have "map pii_type (map (\<lambda>f. f\<lparr>preview := []\<rparr>) fs) = map pii_type fs" by simp
  then have "secret_types (map (\<lambda>f. f\<lparr>preview := []\<rparr>) fs) = secret_types fs" unfolding secret_types_def by metis
  moreover have "set (take n xs) \<subseteq> set xs \<and> (length (take n xs) = n \<or> take n xs = xs)" for n and xs :: "string list"
    by (auto dest: in_set_takeD)
  from this [of MAX_SECRET_TYPES "remdups_adj (sort (map pii_type fs))"]
  have "set (secret_types fs) \<subseteq> pii_type ` set fs" "length (secret_types fs) = 32 \<or> set (secret_types fs) = pii_type ` set fs"
    by (auto simp: secret_types_def MAX_SECRET_TYPES_def)
  moreover have "sorted (secret_types fs)" "distinct (secret_types fs)" "length (secret_types fs) \<le> 32"
    by (simp_all add: secret_types_def sorted_wrt_take distinct_remdups_adj_sorted MAX_SECRET_TYPES_def)
  ultimately show ?thesis
    by (simp add: build_violation_def build_metrics_def sanitized_findings_def comp_def split: option.split)
qed

end
