(* ===== verification/Startup.thy ===== *)
theory Startup
  imports Observability ConfigStore Authorization Middleware PluginRegistry SecretsPlugin
begin

text \<open>
  Start-up (\<open>contextforge-data-plane/src/main.rs\<close>, \<open>lib.rs\<close>, \<open>transports\<close>, the global configuration
  store and the administration handlers of \<open>tools.rs\<close> that write configurations): from the command
  line to the listeners. Opening a Redis client, TLS material and the HTTP client for the key set are
  parameters; a started listener is its kind and address, what it does is the theory \<open>Listeners\<close>.
\<close>

section \<open>Definitions\<close>

text \<open>\<open>TryFrom<RedisConfig> for RedisClient\<close>: what is opened, with which client and root certificates.\<close>

datatype redis_target = RedisTcp string nat | RedisUrl string "(string \<times> string) option" string

definition rediss_url :: "string \<Rightarrow> nat \<Rightarrow> string" where
  "rediss_url host p = ''rediss://'' @ host @ '':'' @ show_int (int p)"

definition redis_target_of :: "redis_config \<Rightarrow> redis_target" where
  "redis_target_of c =
     (case c of
        PlainText host p \<Rightarrow> RedisTcp host p
      | Tls host p bundle \<Rightarrow> RedisUrl (rediss_url host p) None bundle
      | MTls host p bundle cert key \<Rightarrow> RedisUrl (rediss_url host p) (Some (cert, key)) bundle)"

record ('q, 'c, 'r, 'k, 'v) store_access =
  open_redis :: "redis_target \<Rightarrow> ('q, string) result"
  redis_manager :: "'q \<Rightarrow> int \<Rightarrow> 'r option"
  store_ops :: "('c, 'r, 'k, 'v) store_env"

text \<open>
  What goes wrong when a store is opened, with its text, and the boxed errors that \<open>main\<close> returns: one
  constructor for each type that is boxed, and the texts that the sources write themselves.
\<close>

datatype open_error = RedisFailure string | StoreFailure config_store_error

definition open_error_text :: "open_error \<Rightarrow> string" where
  "open_error_text e = (case e of RedisFailure text \<Rightarrow> text | StoreFailure e \<Rightarrow> config_store_error_text e)"

datatype boot_error =
    ConfigFailure startup_error | OpenFailure open_error | TelemetryFailure telemetry_error
  | AuthorizationFailure authorization_error | ExtractorFailure principal_error | PluginFailure runtime_error
  | TlsFailure string | TextFailure string

definition open_store ::
  "('q, 'c, 'r, 'k, 'v) store_access \<Rightarrow> int \<Rightarrow> redis_config \<Rightarrow> (('c, 'r) redis_store, open_error) result" where
  "open_store acc expiry c =
     bind_res (map_err RedisFailure (open_redis acc (redis_target_of c))) (\<lambda>client.
     map_err StoreFailure (new_store (store_ops acc) (redis_manager acc client) expiry))"

definition get_config_store ::
  "('q, 'c, 'r, user, user_config) store_access \<Rightarrow> 'a config \<Rightarrow> (('c, 'r) redis_store, boot_error) result" where
  "get_config_store acc config =
     map_err OpenFailure (open_store acc (user_config_cache_expiry_seconds config) (redis_cfg config))"

definition get_global_config ::
  "('q, 'c, 'r, unit, global_config) store_access \<Rightarrow> int \<Rightarrow> int \<Rightarrow> redis_config
    \<Rightarrow> (global_config, config_store_error) result" where
  "get_global_config acc t_check t_insert c =
     bind_res (map_err (\<lambda>e. InvalidConfiguration (open_error_text e)) (open_store acc 5 c)) (\<lambda>st.
     snd (store_get_config (store_ops acc) t_check t_insert () st))"

definition set_global_config ::
  "('q, 'c, 'r, unit, global_config) store_access \<Rightarrow> int \<Rightarrow> redis_config \<Rightarrow> global_config
    \<Rightarrow> ('r option \<times> (unit, config_store_error) result)" where
  "set_global_config acc t_insert c global =
     (case map_err (\<lambda>e. InvalidConfiguration (open_error_text e)) (open_store acc 5 c) of
        Err e \<Rightarrow> (None, Err e)
      | Ok st \<Rightarrow> (case store_set_config (store_ops acc) t_insert () global st of (st', r) \<Rightarrow> (Some (connection st'), r)))"

text \<open>The administration handlers \<open>configure_user\<close> and \<open>configure_dataplane\<close>.\<close>

definition admin_reply :: "bool \<Rightarrow> reply" where
  "admin_reply ok = Reply
     \<lparr>resp_status = (if ok then 202 else 500), resp_content_type = ''text/plain'',
      resp_body = (if ok then ''Added'' else ''Problem with encoding '')\<rparr>"

definition configure_user ::
  "('c, 'r, user, user_config) store_env \<Rightarrow> int \<Rightarrow> string \<Rightarrow> user_config \<Rightarrow> ('c, 'r) redis_store
    \<Rightarrow> ('c, 'r) redis_store \<times> reply" where
  "configure_user env t_insert user_id config st =
     (case store_set_config env t_insert (new_user user_id) config st of
        (st', r) \<Rightarrow> (st', admin_reply (case r of Ok _ \<Rightarrow> True | Err _ \<Rightarrow> False)))"

definition configure_dataplane ::
  "('q, 'c, 'r, unit, global_config) store_access \<Rightarrow> int \<Rightarrow> 'a config \<Rightarrow> global_config \<Rightarrow> 'r option \<times> reply" where
  "configure_dataplane acc t_insert config global =
     (case set_global_config acc t_insert (redis_cfg config) global of
        (conn, r) \<Rightarrow> (conn, admin_reply (case r of Ok _ \<Rightarrow> True | Err _ \<Rightarrow> False)))"

text \<open>\<open>streamable_http_server_config\<close>\<close>

record streamable_config =
  allowed_hosts :: "string list option"
  allowed_origins :: "string list"
  origin_validation :: bool

definition streamable_http_server_config ::
  "('a \<Rightarrow> string) \<Rightarrow> (url \<Rightarrow> string) \<Rightarrow> 'a config \<Rightarrow> streamable_config" where
  "streamable_http_server_config authority_str origin config =
     \<lparr>allowed_hosts = map_option (map authority_str) (mcp_allowed_hosts config),
      allowed_origins = map origin (case mcp_allowed_origins config of None \<Rightarrow> [] | Some urls \<Rightarrow> urls),
      origin_validation = True\<rparr>"

text \<open>Listeners: \<open>TryFrom<&Config> for Option<Tcp>\<close>, \<open>TryFrom<&DownstreamTransportConfig> for Option<DownstreamTls>\<close>.\<close>

datatype listener = TcpListener string | TlsListener string

record 'v tls_env =
  pem_file_certs :: "string \<Rightarrow> (string option list, string) result"
  pem_file_key :: "string \<Rightarrow> (string, string) result"
  single_cert :: "string list \<Rightarrow> string \<Rightarrow> ('v, string) result"

definition tcp_try_from :: "'a config \<Rightarrow> string option" where
  "tcp_try_from config = address config"

definition downstream_tls_try_from ::
  "'v tls_env \<Rightarrow> downstream_transport_config \<Rightarrow> ((string \<times> 'v) option, string) result" where
  "downstream_tls_try_from env config =
     (case (tls_address config, server_certificate config, server_private_key config) of
        (Some addr, Some certificate, Some private_key) \<Rightarrow>
          bind_res (pem_file_certs env certificate) (\<lambda>certs.
          bind_res (pem_file_key env private_key) (\<lambda>key.
          bind_res (single_cert env (List.map_filter (\<lambda>c. c) certs) key) (\<lambda>server.
          Ok (Some (addr, server)))))
      | (None, _, _) \<Rightarrow> Ok None
      | (Some _, _, _) \<Rightarrow> Err ''Invalid tls config... configuration missing '')"

definition select_listeners ::
  "string option \<Rightarrow> ((string \<times> 'v) option, string) result \<Rightarrow> (listener list, boot_error) result" where
  "select_listeners tcp tls =
     (case (tcp, tls) of
        (Some t, Ok (Some s)) \<Rightarrow> Ok [TcpListener t, TlsListener (fst s)]
      | (Some t, Ok None) \<Rightarrow> Ok [TcpListener t]
      | (None, Ok (Some s)) \<Rightarrow> Ok [TlsListener (fst s)]
      | (None, Ok None) \<Rightarrow> Err (TextFailure ''At least one listening address has to be provided '')
      | (_, Err e) \<Rightarrow> Err (TlsFailure e))"

text \<open>
  The gateway: \<open>into_router\<close> builds the store, the client for the backends and the principal extractor;
  the router keeps what the MCP route is made of.
\<close>

type_synonym extractor = "json \<Rightarrow> (authorized_principal, principal_error) result"

record ('c, 'r, 'h) router =
  router_store :: "('c, 'r) redis_store"
  router_client :: 'h
  router_limits :: standard_header_limits
  router_extractor :: extractor
  router_streamable :: streamable_config

record ('a, 'k, 'h, 'q, 'c, 'r, 'v, 'p, 'x) gateway_builder =
  gb_config_env :: "('a, 'k) config_env"
  gb_build_client :: "'k http_client \<Rightarrow> ('h, string) result"
  gb_users :: "('q, 'c, 'r, user, user_config) store_access"
  gb_tls :: "'v tls_env"
  gb_authority_str :: "'a \<Rightarrow> string"
  gb_origin :: "url \<Rightarrow> string"
  gb_cel_read :: "string \<Rightarrow> (string, string) result"
  gb_cel_compile :: "string \<Rightarrow> ('p, string) result"
  gb_cel_context :: "json \<Rightarrow> ('x, string) result"
  gb_cel_execute :: "'p \<Rightarrow> 'x \<Rightarrow> (cel_value, string) result"

definition into_router ::
  "('a, 'k, 'h, 'q, 'c, 'r, 'v, 'p, 'x) gateway_builder \<Rightarrow> 'a config
    \<Rightarrow> (('c, 'r, 'h) router, boot_error) result" where
  "into_router gb config =
     bind_res (get_config_store (gb_users gb) config) (\<lambda>st.
     bind_res (map_err ConfigFailure
       (upstream_client (gb_config_env gb) (gb_build_client gb) (upstream_transport config))) (\<lambda>client.
     bind_res (case cel_principal_extractor_path config of
         Some path \<Rightarrow> map_err ExtractorFailure
           (map_sum (\<lambda>e. e) (cel_extract (gb_cel_context gb) (gb_cel_execute gb))
             (cel_from_file (gb_cel_read gb) (gb_cel_compile gb) path))
       | None \<Rightarrow> Ok default_extract) (\<lambda>extractor.
     Ok \<lparr>router_store = st, router_client = client,
       router_limits = limits_from_config (mcp_standard_header_max_count config)
         (mcp_standard_header_max_value_bytes config) (mcp_standard_header_max_total_bytes config),
       router_extractor = extractor,
       router_streamable = streamable_http_server_config (gb_authority_str gb) (gb_origin gb) config\<rparr>)))"

definition run_gateway ::
  "('a, 'k, 'h, 'q, 'c, 'r, 'v, 'p, 'x) gateway_builder \<Rightarrow> 'a config
    \<Rightarrow> (('c, 'r, 'h) router \<times> listener list, boot_error) result" where
  "run_gateway gb config =
     bind_res (into_router gb config) (\<lambda>app.
     bind_res (select_listeners (tcp_try_from config)
       (downstream_tls_try_from (gb_tls gb) (downstream_transport config))) (\<lambda>handlers.
     Ok (app, handlers)))"

text \<open>
  \<open>main\<close>. \<open>jwks_access\<close> holds the parameters of \<open>from_jwks_url\<close>, which \<open>get_authorization_service\<close> calls. What
  has been started: the telemetry, the authorization service, the registry of the plugins, if they are enabled, and the router with the listeners,
  if the gateway could run; \<open>run_gateway\<close> of \<open>main.rs\<close> logs a failure of the gateway and returns.
\<close>

record ('y, 'n, 'jc) jwks_access =
  ja_scheme :: "url \<Rightarrow> string"
  ja_host :: "url \<Rightarrow> string option"
  ja_loopback :: "string \<Rightarrow> bool option"
  ja_read_file :: "string \<Rightarrow> string option"
  ja_pem_bundle :: "string \<Rightarrow> 'y list option"
  ja_build :: "'y list option \<Rightarrow> int \<Rightarrow> int \<Rightarrow> int \<Rightarrow> 'n option"
  ja_new_cache :: "int \<Rightarrow> 'jc"

definition get_authorization_service ::
  "('y, 'n, 'jc) jwks_access \<Rightarrow> jwks_config \<Rightarrow> (('jc, 'n) jwks, authorization_error) result" where
  "get_authorization_service acc config =
     from_jwks_url (ja_scheme acc) (ja_host acc) (ja_loopback acc) (ja_read_file acc) (ja_pem_bundle acc)
       (ja_build acc) (ja_new_cache acc) (jwks_config_url config) (ca_cert_path config)"

text \<open>
  The cargo features of the executable that decide which plugin factories are registered, and
  \<open>test_plugins::register\<close>; the factories of the test plugins come from another repository.
\<close>

record build_features =
  feature_test_plugins :: bool
  feature_plugins :: bool

definition register_test_plugins ::
  "('f \<Rightarrow> string \<Rightarrow> unit \<Rightarrow> 'f) \<Rightarrow> ('m, 'f, 'd, 'w) registry
    \<Rightarrow> ('m, 'f, 'd, 'w) registry \<times> (unit, runtime_error) result" where
  "register_test_plugins register r =
     (case register_factory register ''contextforge/payload-marker'' () r of
        (r, Err e) \<Rightarrow> (r, Err e)
      | (r, Ok _) \<Rightarrow>
          (case register_factory register ''contextforge/text-prefixer'' () r of
             (r, Err e) \<Rightarrow> (r, Err e)
           | (r, Ok _) \<Rightarrow> register_factory register ''contextforge/tool-namespace'' () r))"

definition register_builtin_factories ::
  "build_features \<Rightarrow> ('f \<Rightarrow> string \<Rightarrow> unit \<Rightarrow> 'f) \<Rightarrow> ('m, 'f, 'd, 'w) registry
    \<Rightarrow> ('m, 'f, 'd, 'w) registry \<times> (unit, runtime_error) result" where
  "register_builtin_factories features register r =
     (case (if feature_test_plugins features then register_test_plugins register r else (r, Ok ())) of
        (r, Err e) \<Rightarrow> (r, Err e)
      | (r, Ok _) \<Rightarrow> if feature_plugins features then register_factory register KIND () r else (r, Ok ()))"

record ('a, 'k, 'h, 'q, 'c, 'r, 'v, 'p, 'x, 'gc, 'y, 'n, 'jc, 'mk, 'mv, 'm, 'f, 't, 'w, 'd) boot_env =
  be_gateway :: "('a, 'k, 'h, 'q, 'c, 'r, 'v, 'p, 'x) gateway_builder"
  be_telemetry :: "('mk, 'mv, ('mk, 'mv) exporter) telemetry_env"
  be_global :: "('q, 'gc, 'r, unit, global_config) store_access"
  be_clock :: "int \<times> int"
  be_jwks :: "('y, 'n, 'jc) jwks_access"
  be_plugins :: "('m, 'f, 't, 'w) plugin_env"
  be_factories :: 'f
  be_register :: "'f \<Rightarrow> string \<Rightarrow> 'f"
  be_features :: build_features
  be_documents :: "('d, 'w plugin_world) document_env"
  be_world :: "'w plugin_world"

record ('c, 'r, 'h, 'n, 'jc, 'mk, 'mv, 'm, 'f, 'd, 'w) started =
  st_telemetry :: "('mk, 'mv) telemetry"
  st_registry :: "('m, 'f, 'd, 'w) registry option"
  st_service :: "('jc, 'n) jwks"
  st_gateway :: "(('c, 'r, 'h) router \<times> listener list) option"

definition boot_config ::
  "('a, 'k, 'h, 'q, 'c, 'r, 'v, 'p, 'x, 'gc, 'y, 'n, 'jc, 'mk, 'mv, 'm, 'f, 't, 'w, 'd) boot_env \<Rightarrow> cli_config
    \<Rightarrow> ('a config \<times> ('mk, 'mv) telemetry, boot_error) result" where
  "boot_config env cli =
     bind_res (map_err ConfigFailure (config_try_from (gb_config_env (be_gateway env)) cli)) (\<lambda>config.
     case init_tracing_logging (be_telemetry env) (observability config) fresh_telemetry of
       (telemetry, Err e) \<Rightarrow> Err (TelemetryFailure e)
     | (telemetry, Ok _) \<Rightarrow>
         bind_res (case get_global_config (be_global env) (fst (be_clock env)) (snd (be_clock env)) (redis_cfg config) of
             Ok global \<Rightarrow> map_err ConfigFailure (config_merge (gb_config_env (be_gateway env)) config global)
           | Err NoDataForKey \<Rightarrow> Ok config
           | Err e \<Rightarrow> Err (TextFailure (config_store_error_text e))) (\<lambda>config.
         Ok (config, telemetry)))"

definition plugin_runtime_from_config ::
  "('a, 'k, 'h, 'q, 'c, 'r, 'v, 'p, 'x, 'gc, 'y, 'n, 'jc, 'mk, 'mv, 'm, 'f, 't, 'w, 'd) boot_env \<Rightarrow> 'a config
    \<Rightarrow> (('m, 'f, 'd, 'w) registry, boot_error) result" where
  "plugin_runtime_from_config env config =
     bind_res (map_err (\<lambda>e. OpenFailure (RedisFailure e)) (open_redis (gb_users (be_gateway env)) (redis_target_of (redis_cfg config)))) (\<lambda>_.
     case register_builtin_factories (be_features env) (\<lambda>fs kind (_::unit). be_register env fs kind)
            (with_redis_config (be_plugins env) (be_factories env) (be_world env)) of
       (registry, Ok _) \<Rightarrow> Ok registry
     | (registry, Err e) \<Rightarrow> Err (PluginFailure e))"

definition initialize_cpex_runtime ::
  "('a, 'k, 'h, 'q, 'c, 'r, 'v, 'p, 'x, 'gc, 'y, 'n, 'jc, 'mk, 'mv, 'm, 'f, 't, 'w, 'd) boot_env
    \<Rightarrow> ('m, 'f, 'd, 'w) registry option \<Rightarrow> (('m, 'f, 'd, 'w) registry option, boot_error) result" where
  "initialize_cpex_runtime env registry =
     (case registry of
        None \<Rightarrow> Ok None
      | Some reg \<Rightarrow>
          (case initialize_registry (be_plugins env) (be_documents env) reg of
             (reg, Ok watcher) \<Rightarrow> Ok (Some reg)
           | (reg, Err e) \<Rightarrow> Err (PluginFailure e)))"

text \<open>\<open>run_gateway\<close> of \<open>main.rs\<close>: a failure of the gateway is logged, and the process ends without an error.\<close>

definition log_gateway :: "('g, boot_error) result \<Rightarrow> 'g option \<times> (unit, boot_error) result" where
  "log_gateway res = (case res of Ok g \<Rightarrow> (Some g, Ok ()) | Err e \<Rightarrow> (None, Ok ()))"

definition main ::
  "('a, 'k, 'h, 'q, 'c, 'r, 'v, 'p, 'x, 'gc, 'y, 'n, 'jc, 'mk, 'mv, 'm, 'f, 't, 'w, 'd) boot_env \<Rightarrow> cli_config
    \<Rightarrow> (('c, 'r, 'h, 'n, 'jc, 'mk, 'mv, 'm, 'f, 'd, 'w) started, boot_error) result" where
  "main env cli =
     bind_res (boot_config env cli) (\<lambda>(config, telemetry).
     bind_res (if or_default (runtime_plugins_enabled config) False
         then map_sum (\<lambda>e. e) Some (plugin_runtime_from_config env config) else Ok None) (\<lambda>registry.
     bind_res (map_err AuthorizationFailure
         (get_authorization_service (be_jwks env) (jwks_cfg config))) (\<lambda>service.
     bind_res (initialize_cpex_runtime env registry) (\<lambda>registry.
     let outcome = log_gateway (run_gateway (be_gateway env) config)
     in bind_res (snd outcome) (\<lambda>_.
     Ok \<lparr>st_telemetry = telemetry, st_registry = registry, st_service = service,
       st_gateway = fst outcome\<rparr>)))))"

lemma log_gateway_simps [simp]:
  "snd (log_gateway res) = Ok ()" "fst (log_gateway (Ok g)) = Some g" "fst (log_gateway (Err e)) = None"
  by (simp_all add: log_gateway_def split: sum.splits)

text \<open>The process ends without an error also when its gateway could not be started.\<close>

lemma failed_gateway_exits_ok:
  assumes "boot_config env cli = Ok (config, telemetry)" "\<not> or_default (runtime_plugins_enabled config) False"
    and "get_authorization_service (be_jwks env) (jwks_cfg config) = Ok service"
    and "run_gateway (be_gateway env) config = Err e"
  shows "main env cli = Ok \<lparr>st_telemetry = telemetry, st_registry = None, st_service = service, st_gateway = None\<rparr>"
  using assms by (simp add: main_def initialize_cpex_runtime_def Let_def)

section \<open>Listeners\<close>

text \<open>
  The listeners: the gateway listens exactly on the configured addresses, plain and TLS, and
  only if there is one; a TLS address without usable certificate and key is an error, never a plain
  listener.
\<close>

theorem listeners_iff:
  "run_gateway gb config = Ok (app, ls) \<longleftrightarrow>
     into_router gb config = Ok app \<and>
     (\<exists>tls. downstream_tls_try_from (gb_tls gb) (downstream_transport config) = Ok tls \<and>
        ls = (case address config of None \<Rightarrow> [] | Some a \<Rightarrow> [TcpListener a]) @
             (case tls_address (downstream_transport config) of None \<Rightarrow> [] | Some a \<Rightarrow> [TlsListener a]) \<and>
        (case tls_address (downstream_transport config) of
           None \<Rightarrow> tls = None
         | Some a \<Rightarrow> server_certificate (downstream_transport config) \<noteq> None \<and>
             server_private_key (downstream_transport config) \<noteq> None \<and> (\<exists>server. tls = Some (a, server)))) \<and>
     ls \<noteq> []"
proof -
  let ?d = "downstream_transport config"
  have tls: "downstream_tls_try_from env ?d = Ok tls \<Longrightarrow>
      (case tls_address ?d of None \<Rightarrow> tls = None
       | Some a \<Rightarrow> server_certificate ?d \<noteq> None \<and> server_private_key ?d \<noteq> None \<and> (\<exists>server. tls = Some (a, server)))"
    for env :: "'v tls_env" and tls
    by (auto simp: downstream_tls_try_from_def bind_res_eq_Ok split: option.splits)
  show ?thesis
  proof (cases "downstream_tls_try_from (gb_tls gb) ?d")
    case (Inl e)
    then show ?thesis
      by (auto simp: run_gateway_def bind_res_eq_Ok select_listeners_def split: option.splits)
  next
    case (Inr t)
    with tls [OF Inr] show ?thesis
      by (cases "address config"; cases "tls_address ?d")
        (auto simp: run_gateway_def bind_res_eq_Ok select_listeners_def tcp_try_from_def)
  qed
qed

section \<open>Starting with plugins\<close>

definition builtin_kinds :: "build_features \<Rightarrow> string list" where
  "builtin_kinds features =
     (if feature_test_plugins features
      then [''contextforge/payload-marker'', ''contextforge/text-prefixer'', ''contextforge/tool-namespace''] else []) @
     (if feature_plugins features then [KIND] else [])"

lemma register_builtin_factories_unwatched:
  "\<not> reg_watching r \<Longrightarrow> register_builtin_factories features (\<lambda>fs kind _. reg fs kind) r =
     (r\<lparr>reg_factories := foldl reg (reg_factories r) (builtin_kinds features)\<rparr>, Ok ())"
  by (simp add: register_builtin_factories_def register_test_plugins_def register_factory_def builtin_kinds_def)

lemma config_merge_plugins:
  "config_merge env config rhs = Ok merged \<Longrightarrow> runtime_plugins_enabled merged = runtime_plugins_enabled config"
  by (auto simp: config_merge_def bind_res_eq_Ok Let_def)

lemma boot_config_plugins:
  assumes "boot_config env cli = Ok (config, telemetry)"
  shows "runtime_plugins_enabled config = cli_runtime_plugins_enabled cli"
proof -
  from assms obtain config0 where c: "config_try_from (gb_config_env (be_gateway env)) cli = Ok config0"
    by (auto simp: boot_config_def bind_res_eq_Ok)
  obtain g r where i: "init_tracing_logging (be_telemetry env) (observability config0) fresh_telemetry = (g, r)"
    by fastforce
  from assms c i have b: "(case get_global_config (be_global env) (fst (be_clock env)) (snd (be_clock env)) (redis_cfg config0) of
       Ok global \<Rightarrow> map_err ConfigFailure (config_merge (gb_config_env (be_gateway env)) config0 global)
     | Err NoDataForKey \<Rightarrow> Ok config0
     | Err e \<Rightarrow> Err (TextFailure (config_store_error_text e))) = Ok config"
    by (cases r) (simp_all add: boot_config_def bind_res_eq_Ok)
  from c have "runtime_plugins_enabled config0 = cli_runtime_plugins_enabled cli"
    by (auto simp: config_try_from_def bind_res_eq_Ok)
  moreover from b have "runtime_plugins_enabled config = runtime_plugins_enabled config0"
    by (auto split: sum.splits config_store_error.splits dest: config_merge_plugins)
  ultimately show ?thesis by simp
qed

lemma initialize_registry_Ok:
  assumes "initialize_registry penv denv r = (r', Ok watcher)" "reg_store r = Some conn" "\<not> reg_watching r"
  shows "\<exists>rt fp. reg_runtime r' = Active rt \<and> built_from penv denv (reg_factories r) fp rt \<and> reg_watching r'"
proof -
  obtain r1 x where x: "reload_runtime penv denv None r = (r1, x)" by fastforce
  with assms(1) obtain initial where i: "x = Ok initial"
    by (cases x) (auto simp: initialize_registry_def)
  from reload_runtime_outcome [OF assms(2) x] i obtain rt fp where
    o: "reg_runtime r1 = Active rt" "built_from penv denv (reg_factories r) fp rt" "\<not> reg_watching r1"
      "reg_store r1 \<noteq> None"
    using assms(3) by (cases initial) (auto simp: reload_outcome_def)
  then have "start_config_watcher initial r1 = (r1\<lparr>reg_watching := True\<rparr>, Some initial)"
    by (simp add: start_config_watcher_def)
  with assms(1) x i have "r' = r1\<lparr>reg_watching := True\<rparr>" by (simp add: initialize_registry_def)
  with o show ?thesis by auto
qed


definition sample_store :: "(unit, (string \<Rightarrow> string option), 'k, 'v) store_env" where
  "sample_store = \<lparr>key_of = (\<lambda>_. []), encode_key = (\<lambda>_. Some []), encode_value = (\<lambda>_. Some []),
     decode_value = (\<lambda>_. None), lru_new = (\<lambda>_ _. ()), lru_get_mut = (\<lambda>_ c. (c, None)), lru_insert = (\<lambda>_ _ c. c),
     redis_get = (\<lambda>k r. (r, Some (r k))), redis_set = (\<lambda>k v r. (r(k \<mapsto> v), True))\<rparr>"

definition sample_access_to :: "(unit, unit, (string \<Rightarrow> string option), 'k, 'v) store_access" where
  "sample_access_to = \<lparr>open_redis = (\<lambda>_. Ok ()), redis_manager = (\<lambda>_ _. Some Map.empty), store_ops = sample_store\<rparr>"

definition sample_boot ::
  "(string, string, string http_client, unit, unit, (string \<Rightarrow> string option), unit, unit, unit, unit,
    unit, unit, unit, string, string, nat, unit, nat, nat, unit) boot_env" where
  "sample_boot = \<lparr>be_gateway = \<lparr>gb_config_env = sample_files, gb_build_client = Ok, gb_users = sample_access_to,
       gb_tls = \<lparr>pem_file_certs = (\<lambda>p. Ok [Some p]), pem_file_key = Ok, single_cert = (\<lambda>cs k. Ok ())\<rparr>,
       gb_authority_str = (\<lambda>a. a), gb_origin = (\<lambda>u. u), gb_cel_read = (\<lambda>_. Err []), gb_cel_compile = (\<lambda>_. Err []),
       gb_cel_context = (\<lambda>_. Err []), gb_cel_execute = (\<lambda>_ _. Err [])\<rparr>,
     be_telemetry = \<lparr>metadata_key = Some, metadata_value = Some, entries = (\<lambda>_. []), build_exporter = (\<lambda>_. Ok ()),
       env_var = (\<lambda>_. None)\<rparr>,
     be_global = sample_access_to, be_clock = (0, 0),
     be_jwks = \<lparr>ja_scheme = (\<lambda>_. ''https''), ja_host = (\<lambda>_. None), ja_loopback = (\<lambda>_. None), ja_read_file = (\<lambda>_. None),
       ja_pem_bundle = (\<lambda>_. None), ja_build = (\<lambda>_ _ _ _. Some ()), ja_new_cache = (\<lambda>_. ())\<rparr>,
     be_plugins = sample_plugins, be_factories = (), be_register = (\<lambda>f k. f),
     be_features = \<lparr>feature_test_plugins = False, feature_plugins = True\<rparr>, be_documents = sample_docs,
     be_world = sample_world\<rparr>"

definition sample_cli :: cli_config where
  "sample_cli = \<lparr>cli_address = Some ''0.0.0.0:80'', cli_jwks_url = ''https://idp'', cli_jwks_ca_cert_path = None,
     cli_enable_open_telemetry = None, cli_otlp_endpoint = None, cli_otlp_protocol = None, cli_otlp_headers = None,
     cli_otlp_service_name = None, cli_enable_otel_metrics = None, cli_otlp_metrics_endpoint = None,
     cli_runtime_plugins_enabled = Some True, cli_tls_address = None, cli_server_private_key = None,
     cli_server_certificate = None, cli_upstream_connection_mode = None, cli_upstream_private_key = None,
     cli_upstream_certificate = None, cli_upstream_trust_bundle = None, cli_redis_address = ''redis'',
     cli_redis_port = 6379, cli_redis_mode = RedisPlainText, cli_redis_tls_trust_bundle = None,
     cli_redis_tls_client_private_key = None, cli_redis_tls_client_certificate = None,
     cli_cel_principal_extractor_path = None\<rparr>"


end
