(* ===== verification/HeaderForwarding.thy ===== *)
theory HeaderForwarding
  imports Apis
begin

text \<open>
  The headers of an upstream connection (\<open>gateway/mcp_service/initialization.rs\<close>, and the trace
  context injection of \<open>contextforge-data-plane-observability/src/propagation.rs\<close>). The
  \<open>HashMap\<close> of upstream headers is a map from normalised names to values. Parameters: \<open>hn\<close> is
  \<open>HeaderName::from_bytes\<close>, \<open>hv\<close> is \<open>HeaderValue::from_str\<close>.
\<close>

section \<open>Definitions\<close>

type_synonym upstream_headers = "string \<rightharpoonup> string"

definition PROTECTED :: "string list" where
  "PROTECTED = [''host'', ''content-length'', ''content-type'', ''connection'', ''keep-alive'',
     ''proxy-authenticate'', ''proxy-authorization'', ''te'', ''trailer'', ''trailers'',
     ''transfer-encoding'', ''upgrade'', ''proxy-connection'', ''mcp-session-id'', ''accept'',
     ''last-event-id'']"

definition is_protected_header :: "string \<Rightarrow> bool" where
  "is_protected_header name \<longleftrightarrow>
     list_ex (\<lambda>p. eq_ignore_ascii_case name p) PROTECTED \<or> is_computed name"

text \<open>The four loops of \<open>apply_header_config\<close>, each as the step it folds.\<close>

definition pass_header ::
  "(string \<Rightarrow> string option) \<Rightarrow> header_map \<Rightarrow> upstream_headers \<Rightarrow> string \<Rightarrow> upstream_headers" where
  "pass_header hn downstream headers configured =
     (case hn configured of
        None \<Rightarrow> headers
      | Some name \<Rightarrow>
          if is_protected_header name then headers
          else case get_all downstream name of [] \<Rightarrow> headers | value # _ \<Rightarrow> headers(name \<mapsto> value))"

definition extend_params :: "header_map \<Rightarrow> upstream_headers \<Rightarrow> upstream_headers" where
  "extend_params downstream headers =
     foldl (\<lambda>h (name, value). h(name \<mapsto> value)) headers (filter (\<lambda>(name, value). is_param name) downstream)"

definition add_header ::
  "(string \<Rightarrow> string option) \<Rightarrow> (string \<Rightarrow> string option) \<Rightarrow> upstream_headers \<Rightarrow> string \<times> string
    \<Rightarrow> upstream_headers" where
  "add_header hn hv headers configured =
     (case (hn (fst configured), hv (snd configured)) of
        (Some name, Some value) \<Rightarrow> if is_protected_header name then headers else headers(name \<mapsto> value)
      | _ \<Rightarrow> headers)"

definition remove_header ::
  "(string \<Rightarrow> string option) \<Rightarrow> upstream_headers \<Rightarrow> string \<Rightarrow> upstream_headers" where
  "remove_header hn headers configured =
     (case hn configured of
        None \<Rightarrow> headers
      | Some name \<Rightarrow> if is_protected_header name then headers else headers(name := None))"

definition apply_header_config ::
  "(string \<Rightarrow> string option) \<Rightarrow> (string \<Rightarrow> string option) \<Rightarrow> backend_mcp_gateway \<Rightarrow> header_map option
    \<Rightarrow> upstream_headers \<Rightarrow> upstream_headers" where
  "apply_header_config hn hv backend downstream headers =
     (let headers = (case downstream of
            None \<Rightarrow> headers
          | Some ds \<Rightarrow> extend_params ds (foldl (pass_header hn ds) headers (passthrough_headers backend)));
          headers = foldl (add_header hn hv) headers (add_headers backend)
      in foldl (remove_header hn) headers (remove_headers backend))"

text \<open>
  The host header of \<open>connect_backend_for_request\<close>: only for an https backend, with an explicit port.
\<close>

record url_parts =
  url_scheme :: string
  url_host :: "string option"
  url_port :: "int option"

definition host_header :: "(string \<Rightarrow> string option) \<Rightarrow> url_parts \<Rightarrow> upstream_headers" where
  "host_header hv u =
     (case url_host u of
        Some host \<Rightarrow>
          if url_scheme u = ''https'' then
            (let authority = (case url_port u of
                 Some p \<Rightarrow> host @ '':'' @ show_int p | None \<Rightarrow> host)
             in case hv authority of Some value \<Rightarrow> [''host'' \<mapsto> value] | None \<Rightarrow> Map.empty)
          else Map.empty
      | None \<Rightarrow> Map.empty)"

text \<open>
  \<open>HeaderMapInjector::set\<close> and \<open>inject_current_context\<close>: the propagator's trace_fields of the current
  trace context are set, a field whose name or value is not a header is skipped.
\<close>

definition injector_set ::
  "(string \<Rightarrow> string option) \<Rightarrow> (string \<Rightarrow> string option) \<Rightarrow> upstream_headers \<Rightarrow> string \<times> string
    \<Rightarrow> upstream_headers" where
  "injector_set hn hv headers field =
     (case (hn (fst field), hv (snd field)) of
        (Some name, Some value) \<Rightarrow> headers(name \<mapsto> value)
      | _ \<Rightarrow> headers)"

text \<open>\<open>HeaderExtractor\<close>: the first value of a header, when it is visible ASCII, and all names.\<close>

definition visible_ascii :: "string \<Rightarrow> bool" where
  "visible_ascii s \<longleftrightarrow> list_all (\<lambda>c. byte c = 9 \<or> (32 \<le> byte c \<and> byte c \<le> 126)) s"

definition extractor_get :: "header_map \<Rightarrow> string \<Rightarrow> string option" where
  "extractor_get headers key =
     (case get_all headers (to_ascii_lowercase key) of
        [] \<Rightarrow> None
      | value # _ \<Rightarrow> if visible_ascii value then Some value else None)"

definition extractor_keys :: "header_map \<Rightarrow> string list" where
  "extractor_keys headers = remdups (map fst headers)"

text \<open>\<open>ExtractingMakeSpan::make_span\<close>: \<open>extract\<close> is the propagator reading through a \<open>HeaderExtractor\<close>.\<close>

record 'x request_span =
  span_name :: string
  span_fields :: "(string \<times> string) list"
  span_parent :: 'x

definition make_span ::
  "((string \<Rightarrow> string option) \<Rightarrow> string list \<Rightarrow> 'x) \<Rightarrow> string \<Rightarrow> string \<Rightarrow> string \<Rightarrow> header_map \<Rightarrow> 'x request_span" where
  "make_span extract method uri version headers =
     \<lparr>span_name = ''http-request'', span_fields = [(''method'', method), (''uri'', uri), (''version'', version)],
      span_parent = extract (extractor_get headers) (extractor_keys headers)\<rparr>"

definition inject_current_context ::
  "(string \<Rightarrow> string option) \<Rightarrow> (string \<Rightarrow> string option) \<Rightarrow> (string \<times> string) list \<Rightarrow> upstream_headers
    \<Rightarrow> upstream_headers" where
  "inject_current_context hn hv trace_fields headers = foldl (injector_set hn hv) headers trace_fields"

definition backend_headers ::
  "(string \<Rightarrow> string option) \<Rightarrow> (string \<Rightarrow> string option) \<Rightarrow> (url \<Rightarrow> url_parts) \<Rightarrow> (string \<times> string) list
    \<Rightarrow> backend_mcp_gateway \<Rightarrow> header_map option \<Rightarrow> upstream_headers" where
  "backend_headers hn hv url_of trace_fields backend downstream =
     inject_current_context hn hv trace_fields
       (apply_header_config hn hv backend downstream (host_header hv (url_of (backend_url backend))))"

section \<open>What the configuration can do to a header\<close>

lemma is_param_protected: "is_param name \<Longrightarrow> is_protected_header name"
  by (simp add: is_protected_header_def is_computed_def)

text \<open>The configured names of a list that denote \<open>n\<close>, and the configured additions for \<open>n\<close>.\<close>

definition names :: "(string \<Rightarrow> string option) \<Rightarrow> string list \<Rightarrow> string \<Rightarrow> bool" where
  "names hn configured n \<longleftrightarrow> list_ex (\<lambda>c. hn c = Some n) configured"

definition additions ::
  "(string \<Rightarrow> string option) \<Rightarrow> (string \<Rightarrow> string option) \<Rightarrow> (string \<times> string) list \<Rightarrow> string \<Rightarrow> string list"
  where
  "additions hn hv configured n =
     List.map_filter (\<lambda>(c, v). if hn c = Some n then hv v else None) configured"

definition last_or :: "'a option \<Rightarrow> 'a list \<Rightarrow> 'a option" where
  "last_or d xs = (if xs = [] then d else Some (last xs))"

lemma last_or_Cons: "last_or d (x # xs) = last_or (Some x) xs"
  by (simp add: last_or_def)

lemma pass_headers_lookup:
  "foldl (pass_header hn ds) h cs n =
     (if \<not> is_protected_header n \<and> names hn cs n \<and> get_all ds n \<noteq> []
      then Some (hd (get_all ds n)) else h n)"
proof (induction cs arbitrary: h)
  case (Cons c cs)
  have "pass_header hn ds h c n =
      (if \<not> is_protected_header n \<and> hn c = Some n \<and> get_all ds n \<noteq> [] then Some (hd (get_all ds n)) else h n)"
    by (auto simp: pass_header_def split: option.splits list.splits)
  then show ?case by (simp add: Cons.IH names_def)
qed (simp add: names_def)

lemma extend_params_lookup:
  "extend_params ds h n = (if is_param n then last_or (h n) (get_all ds n) else h n)"
  unfolding extend_params_def
proof (induction ds arbitrary: h)
  case (Cons d ds)
  then show ?case by (cases d) (auto simp: get_all_def last_or_Cons)
qed (simp add: get_all_def last_or_def)

lemma add_headers_lookup:
  "foldl (add_header hn hv) h cs n =
     (if is_protected_header n then h n else last_or (h n) (additions hn hv cs n))"
proof (induction cs arbitrary: h)
  case (Cons c cs)
  have "add_header hn hv h c n = (if is_protected_header n then h n else
      last_or (h n) (additions hn hv [c] n))"
    by (cases c) (auto simp: add_header_def additions_def last_or_def List.map_filter_simps split: option.splits)
  then show ?case
    by (cases c) (auto simp: Cons.IH additions_def List.map_filter_simps last_or_def split: option.splits)
qed (simp add: additions_def last_or_def List.map_filter_simps)

lemma remove_headers_lookup:
  "foldl (remove_header hn) h cs n =
     (if \<not> is_protected_header n \<and> names hn cs n then None else h n)"
proof (induction cs arbitrary: h)
  case (Cons c cs)
  have "remove_header hn h c n = (if \<not> is_protected_header n \<and> hn c = Some n then None else h n)"
    by (auto simp: remove_header_def split: option.splits)
  then show ?case by (simp add: Cons.IH names_def)
qed (simp add: names_def)

text \<open>
  Property C17 (upstream headers): the complete effect of a backend's header configuration on every
  upstream header. Removal wins over addition, addition over passthrough, passthrough over what
  was there; a passed-through header has its first downstream value. A protected header is out of
  reach of all three lists: it keeps its value, except that \<open>Mcp-Param-*\<close> headers of the
  downstream request are always forwarded.
\<close>

theorem apply_header_config_lookup:
  "apply_header_config hn hv backend (Some ds) headers n =
     (if is_param n then last_or (headers n) (get_all ds n)
      else if is_protected_header n then headers n
      else if names hn (remove_headers backend) n then None
      else last_or
        (if names hn (passthrough_headers backend) n \<and> get_all ds n \<noteq> []
         then Some (hd (get_all ds n)) else headers n)
        (additions hn hv (add_headers backend) n))"
  by (simp add: apply_header_config_def remove_headers_lookup add_headers_lookup extend_params_lookup
      pass_headers_lookup is_param_protected)

lemma inject_current_context_cong:
  "h n = h' n \<Longrightarrow> inject_current_context hn hv fs h n = inject_current_context hn hv fs h' n"
  unfolding inject_current_context_def
proof (induction fs arbitrary: h h')
  case (Cons f fs)
  have "injector_set hn hv h f n = injector_set hn hv h' f n"
    using Cons.prems by (auto simp: injector_set_def split: option.splits)
  with Cons.IH [of "injector_set hn hv h f" "injector_set hn hv h' f"] show ?case by simp
qed simp

text \<open>
  Property C33 (isolation of protected headers): no backend configuration can set, change or remove
  a protected header of the upstream connection: for two backends with the same URL, the headers
  that reach the transport agree on every protected name.
\<close>

theorem backend_headers_protected:
  assumes "is_protected_header n" and "backend_url b = backend_url b'"
  shows "backend_headers hn hv url_of trace_fields b downstream n = backend_headers hn hv url_of trace_fields b' downstream n"
proof -
  have "apply_header_config hn hv b downstream h n = apply_header_config hn hv b' downstream h n" for h
    using assms(1) by (cases downstream)
      (simp_all add: apply_header_config_def remove_headers_lookup add_headers_lookup extend_params_lookup
        pass_headers_lookup)
  then show ?thesis
    unfolding backend_headers_def assms(2) by (rule inject_current_context_cong)
qed

definition sample_backend :: backend_mcp_gateway where
  "sample_backend = \<lparr>backend_display_name = ''b'', backend_url = ''https://b:8443/mcp'',
     mcp_protocol_version = ''2026-07-28'', passthrough_headers = [''X-Tenant'', ''Host''],
     add_headers = [(''Mcp-Method'', ''wrong''), (''X-Key'', ''k'')], remove_headers = [''Mcp-Param-User''],
     completion_routes = [], tool_schemas = []\<rparr>"

theorem backend_headers_protected_witness:
  "is_protected_header ''mcp-method'' \<and>
   backend_headers lower_name Some (\<lambda>_. \<lparr>url_scheme = ''https'', url_host = Some ''b'', url_port = None\<rparr>) []
     sample_backend (Some [(''mcp-method'', ''tools/call'')]) ''mcp-method'' =
   backend_headers lower_name Some (\<lambda>_. \<lparr>url_scheme = ''https'', url_host = Some ''b'', url_port = None\<rparr>) []
     (sample_backend\<lparr>add_headers := []\<rparr>) (Some [(''mcp-method'', ''tools/call'')]) ''mcp-method''"
proof -
  have p: "is_protected_header ''mcp-method''" by code_simp
  with backend_headers_protected [OF p, of sample_backend "sample_backend\<lparr>add_headers := []\<rparr>"]
  show ?thesis by simp
qed

end
