(* ===== verification/BackendClient.thy ===== *)
theory BackendClient
  imports HookResponses
begin

text \<open>
  The client side of one backend connection (\<open>gateway/backend_client.rs\<close>): tool calls whose
  progress notifications are relayed downstream under the client's own token, and the wait for a
  tool result with cancellation. Peers have type \<open>'p\<close>; a shared \<open>ToolHookState\<close> is a reference
  (a number) into a store of call states, because the final response and every notification of a
  call update the same state behind one mutex.
\<close>

section \<open>Definitions\<close>

datatype service_error =
    McpError error_data | Cancelled "string option" | TransportClosed | UnexpectedResponse
  | OtherServiceError string

record 'p in_flight_call =
  downstream_progress_token :: string
  post_state :: "nat option"
  downstream_peer :: 'p

type_synonym 'p in_flight_calls = "string \<rightharpoonup> 'p in_flight_call"

record request_handle =
  handle_progress_token :: string
  handle_request_id :: int

text \<open>
  The initialize request that the gateway sends to a backend (its capabilities are the default ones),
  and the client of a connection, which answers \<open>get_info\<close> with that request.
\<close>

record initialize_request =
  client_name :: string
  client_version :: string
  client_protocol_version :: string

definition client_info :: "string \<Rightarrow> string \<Rightarrow> initialize_request" where
  "client_info package_version protocol_version =
     \<lparr>client_name = ''contextforge-data-plane'', client_version = package_version,
      client_protocol_version = protocol_version\<rparr>"

record 'p gateway_backend_client =
  client_request :: initialize_request
  client_calls :: "'p in_flight_calls"

definition fresh_calls :: "'p in_flight_calls" where
  "fresh_calls = Map.empty"

definition new_client :: "initialize_request \<Rightarrow> 'p gateway_backend_client" where
  "new_client request = \<lparr>client_request = request, client_calls = fresh_calls\<rparr>"

definition get_info :: "'p gateway_backend_client \<Rightarrow> initialize_request" where
  "get_info client = client_request client"

text \<open>\<open>start_tool_call\<close>; \<open>send\<close> is \<open>send_cancellable_request\<close> of the peer.\<close>

definition start_tool_call ::
  "(call_tool_request \<Rightarrow> 'w \<Rightarrow> 'w \<times> (request_handle, service_error) result) \<Rightarrow> call_tool_request
    \<Rightarrow> string option \<Rightarrow> 'p \<Rightarrow> nat option \<Rightarrow> 'p in_flight_calls \<Rightarrow> 'w
    \<Rightarrow> 'w \<times> 'p in_flight_calls \<times> (request_handle, service_error) result" where
  "start_tool_call send request token downstream post calls w =
     (case token of
        None \<Rightarrow> (case send request w of (w, r) \<Rightarrow> (w, calls, r))
      | Some t \<Rightarrow>
          (case send request w of
             (w, Err e) \<Rightarrow> (w, calls, Err e)
           | (w, Ok handle) \<Rightarrow>
               (w, calls(handle_progress_token handle \<mapsto>
                  \<lparr>downstream_progress_token = t, post_state = post, downstream_peer = downstream\<rparr>),
                Ok handle)))"

definition stop_tracking_tool_call :: "string \<Rightarrow> 'p in_flight_calls \<Rightarrow> 'p in_flight_calls" where
  "stop_tracking_tool_call token calls = calls(token := None)"

definition progress_call :: "'p in_flight_calls \<Rightarrow> string \<Rightarrow> 'p in_flight_call option" where
  "progress_call calls token = calls token"

record progress_notification =
  progress_token :: string
  progress_value :: json

text \<open>\<open>stream_event_post_hook\<close>: without hook state the event passes, a refused or denied one is dropped.\<close>

type_synonym ('m, 't) hook_store = "nat \<rightharpoonup> ('m, 't) call_state"

definition stream_event_post_hook ::
  "('m, 'f, 't, 'w) plugin_env \<Rightarrow> cmf_access \<Rightarrow> (progress_notification \<Rightarrow> json option)
    \<Rightarrow> (json \<Rightarrow> progress_notification option) \<Rightarrow> 'p in_flight_call \<Rightarrow> progress_notification
    \<Rightarrow> ('m, 't) hook_store \<Rightarrow> 'w plugin_world
    \<Rightarrow> 'w plugin_world \<times> ('m, 't) hook_store \<times> progress_notification option" where
  "stream_event_post_hook env acc to_json from_json call event hooks w =
     (case Option.bind (post_state call) (\<lambda>r. map_option (Pair r) (hooks r)) of
        None \<Rightarrow> (w, hooks, Some event)
      | Some (r, state) \<Rightarrow>
          (case after_stream_event env acc to_json from_json state event w of
             (w, state, Ok event) \<Rightarrow> (w, hooks(r \<mapsto> state), event)
           | (w, state, Err e) \<Rightarrow> (w, hooks(r \<mapsto> state), None)))"

text \<open>\<open>on_progress\<close>; the result is what is sent downstream, if anything.\<close>

definition on_progress ::
  "('m, 'f, 't, 'w) plugin_env \<Rightarrow> cmf_access \<Rightarrow> (progress_notification \<Rightarrow> json option)
    \<Rightarrow> (json \<Rightarrow> progress_notification option) \<Rightarrow> 'p in_flight_calls \<Rightarrow> progress_notification
    \<Rightarrow> ('m, 't) hook_store \<Rightarrow> 'w plugin_world
    \<Rightarrow> 'w plugin_world \<times> ('m, 't) hook_store \<times> ('p \<times> progress_notification) option" where
  "on_progress env acc to_json from_json calls progress hooks w =
     (case progress_call calls (progress_token progress) of
        None \<Rightarrow> (w, hooks, None)
      | Some call \<Rightarrow>
          (let progress = progress\<lparr>progress_token := downstream_progress_token call\<rparr> in
           case stream_event_post_hook env acc to_json from_json call progress hooks w of
             (w, hooks, None) \<Rightarrow> (w, hooks, None)
           | (w, hooks, Some progress) \<Rightarrow> (w, hooks, Some (downstream_peer call, progress))))"

text \<open>
  \<open>call_backend_tool\<close>: the race between the response and the cancellation has one of these outcomes;
  \<open>ChannelClosed\<close> is a dropped response channel.
\<close>

datatype server_result = CallToolResultResponse call_tool_result | OtherServerResult

datatype tool_race =
    Responded server_result | RespondedError service_error | ChannelClosed | CancelledFirst

definition CANCEL_REASON :: string where
  "CANCEL_REASON = ''tool call cancelled by the downstream client''"

definition call_backend_tool ::
  "(string \<Rightarrow> 'w \<Rightarrow> 'w \<times> bool) \<Rightarrow> tool_race \<Rightarrow> 'w \<Rightarrow> 'w \<times> (call_tool_result, service_error) result" where
  "call_backend_tool cancel race w =
     (case race of
        CancelledFirst \<Rightarrow>
          (case cancel CANCEL_REASON w of (w, _) \<Rightarrow> (w, Err (Cancelled (Some CANCEL_REASON))))
      | ChannelClosed \<Rightarrow> (w, Err TransportClosed)
      | RespondedError e \<Rightarrow> (w, Err e)
      | Responded (CallToolResultResponse r) \<Rightarrow> (w, Ok r)
      | Responded OtherServerResult \<Rightarrow> (w, Err UnexpectedResponse))"

section \<open>Progress under concurrency\<close>

text \<open>
  The phases of \<open>start_tool_call\<close> with a downstream token: the write lock is taken, the request is
  sent (from then on the backend knows the generated token and may notify at once), the mapping is
  inserted and the lock released. Looking a token up and removing one need the lock. Notifications
  wait in \<open>inbox\<close>; \<open>outcomes\<close> records what happened to each delivered one.
\<close>

datatype 'p writer = Idle | Locked string 'p "nat option" | Sent string string 'p "nat option"

record 'p progress_machine =
  writer :: "'p writer"
  mapped :: "'p in_flight_calls"
  generated :: "(string \<times> string) list"
  stopped :: "string list"
  inbox :: "string list"
  outcomes :: "(string \<times> string option) list"

definition initial_machine :: "'p progress_machine" where
  "initial_machine = \<lparr>writer = Idle, mapped = fresh_calls, generated = [], stopped = [], inbox = [], outcomes = []\<rparr>"

inductive progress_step :: "'p progress_machine \<Rightarrow> 'p progress_machine \<Rightarrow> bool" where
  lock: "writer m = Idle \<Longrightarrow> progress_step m (m\<lparr>writer := Locked token peer post\<rparr>)"
| send: "writer m = Locked token peer post \<Longrightarrow> backend_token \<notin> fst ` set (generated m) \<Longrightarrow>
     progress_step m (m\<lparr>writer := Sent backend_token token peer post,
       generated := (backend_token, token) # generated m\<rparr>)"
| send_failed: "writer m = Locked token peer post \<Longrightarrow> progress_step m (m\<lparr>writer := Idle\<rparr>)"
| publish: "writer m = Sent backend_token token peer post \<Longrightarrow>
     progress_step m (m\<lparr>writer := Idle, mapped := (mapped m)(backend_token \<mapsto>
       \<lparr>downstream_progress_token = token, post_state = post, downstream_peer = peer\<rparr>)\<rparr>)"
| notified: "(backend_token, token) \<in> set (generated m) \<Longrightarrow>
     progress_step m (m\<lparr>inbox := inbox m @ [backend_token]\<rparr>)"
| deliver: "writer m = Idle \<Longrightarrow> inbox m = backend_token # rest \<Longrightarrow>
     progress_step m (m\<lparr>inbox := rest, outcomes := (backend_token,
       map_option downstream_progress_token (progress_call (mapped m) backend_token)) # outcomes m\<rparr>)"
| stop: "writer m = Idle \<Longrightarrow> backend_token \<in> dom (mapped m) \<Longrightarrow>
     progress_step m (m\<lparr>mapped := stop_tracking_tool_call backend_token (mapped m),
       stopped := backend_token # stopped m\<rparr>)"

inductive progress_reachable :: "'p progress_machine \<Rightarrow> bool" where
  start: "progress_reachable initial_machine"
| step: "progress_reachable m \<Longrightarrow> progress_step m m' \<Longrightarrow> progress_reachable m'"

inductive_cases progress_stepE: "progress_step m m'"

definition mapping_of :: "'p progress_machine \<Rightarrow> string \<Rightarrow> string option" where
  "mapping_of m t = map_option downstream_progress_token (mapped m t)"

definition unpublished :: "'p progress_machine \<Rightarrow> string option" where
  "unpublished m = (case writer m of Sent b t p s \<Rightarrow> Some b | _ \<Rightarrow> None)"

definition progress_inv :: "'p progress_machine \<Rightarrow> bool" where
  "progress_inv m \<longleftrightarrow>
     distinct (map fst (generated m)) \<and>
     (\<forall>b t p s. writer m = Sent b t p s \<longrightarrow> (b, t) \<in> set (generated m) \<and> b \<notin> set (stopped m)) \<and>
     (\<forall>b t. (b, t) \<in> set (generated m) \<longrightarrow> unpublished m \<noteq> Some b \<longrightarrow>
        mapping_of m b = (if b \<in> set (stopped m) then None else Some t)) \<and>
     (\<forall>b. b \<notin> fst ` set (generated m) \<longrightarrow> mapped m b = None \<and> b \<notin> set (stopped m)) \<and>
     (\<forall>b. unpublished m = Some b \<longrightarrow> mapped m b = None) \<and>
     (\<forall>b \<in> set (inbox m). b \<in> fst ` set (generated m)) \<and>
     (\<forall>b d. (b, d) \<in> set (outcomes m) \<longrightarrow>
        (\<exists>t. (b, t) \<in> set (generated m) \<and> (d = Some t \<or> d = None \<and> b \<in> set (stopped m))))"

lemmas progress_defs = progress_inv_def mapping_of_def unpublished_def

lemma progress_step_inv: "progress_step m m' \<Longrightarrow> progress_inv m \<Longrightarrow> progress_inv m'"
proof (induction rule: progress_step.induct)
  case (lock m token peer post)
  then show ?case by (simp add: progress_defs)
next
  case (send m token peer post b)
  then have "mapped m b = None" "b \<notin> set (stopped m)" by (simp_all add: progress_inv_def)
  with send show ?case by (auto simp: progress_defs) blast
next
  case (send_failed m token peer post)
  then show ?case by (simp add: progress_defs)
next
  case (publish m b token peer post)
  then have g: "(b, token) \<in> set (generated m)" "b \<notin> set (stopped m)" "distinct (map fst (generated m))"
    by (simp_all add: progress_inv_def)
  then have token: "\<forall>t. (b, t) \<in> set (generated m) \<longleftrightarrow> t = token" by (auto dest: eq_key_imp_eq_value)
  have u: "unpublished m = Some b" using publish(1) by (simp add: unpublished_def)
  from publish(2) u have "\<forall>b' t. (b', t) \<in> set (generated m) \<longrightarrow> b' \<noteq> b \<longrightarrow>
      map_option downstream_progress_token (mapped m b') = (if b' \<in> set (stopped m) then None else Some t)"
    by (simp add: progress_inv_def mapping_of_def)
  moreover from publish(2) have "\<forall>b. b \<notin> fst ` set (generated m) \<longrightarrow> mapped m b = None \<and> b \<notin> set (stopped m)"
      "\<forall>b \<in> set (inbox m). b \<in> fst ` set (generated m)"
      "\<forall>b d. (b, d) \<in> set (outcomes m) \<longrightarrow>
        (\<exists>t. (b, t) \<in> set (generated m) \<and> (d = Some t \<or> d = None \<and> b \<in> set (stopped m)))"
    by (simp_all add: progress_inv_def)
  moreover have "b \<in> fst ` set (generated m)" using g(1) by (rule image_eqI [rotated]) simp
  ultimately show ?case using g(2,3) token by (simp add: progress_defs)
next
  case (notified b token m)
  then have "b \<in> fst ` set (generated m)" by (auto intro: rev_image_eqI)
  with notified(2) show ?case by (simp add: progress_defs)
next
  case (deliver m b rest)
  then obtain t where "(b, t) \<in> set (generated m)" by (force simp: progress_inv_def)
  with deliver have "mapping_of m b = (if b \<in> set (stopped m) then None else Some t)"
    by (auto simp: progress_inv_def unpublished_def)
  with deliver \<open>(b, t) \<in> set (generated m)\<close> show ?case
    by (auto simp: progress_defs progress_call_def split: if_splits)
next
  case (stop m b)
  then show ?case by (auto simp: progress_defs stop_tracking_tool_call_def) blast
qed

lemma progress_reachable_inv: "progress_reachable m \<Longrightarrow> progress_inv m"
proof (induction rule: progress_reachable.induct)
  case start
  then show ?case by (simp add: progress_defs initial_machine_def fresh_calls_def)
next
  case (step m m')
  then show ?case by (blast intro: progress_step_inv)
qed


definition sample_machine :: "unit progress_machine" where
  "sample_machine = \<lparr>writer = Idle, mapped = [''b1'' \<mapsto> \<lparr>downstream_progress_token = ''t1'', post_state = None,
     downstream_peer = ()\<rparr>], generated = [(''b1'', ''t1'')], stopped = [], inbox = [],
     outcomes = [(''b1'', Some ''t1'')]\<rparr>"

lemma sample_machine_reachable: "progress_reachable sample_machine"
proof -
  let ?m1 = "initial_machine\<lparr>writer := Locked ''t1'' () None\<rparr>"
  let ?m2 = "?m1\<lparr>writer := Sent ''b1'' ''t1'' () None, generated := [(''b1'', ''t1'')]\<rparr>"
  let ?m3 = "?m2\<lparr>inbox := [''b1'']\<rparr>"
  let ?m4 = "sample_machine\<lparr>inbox := [''b1''], outcomes := []\<rparr>"
  have "progress_reachable ?m1"
    by (rule progress_reachable.step [OF progress_reachable.start progress_step.lock]) (simp add: initial_machine_def)
  moreover have "progress_step ?m1 ?m2"
    using progress_step.send [of ?m1 "''t1''" "()" None "''b1''"] by (simp add: initial_machine_def)
  moreover have "progress_step ?m2 ?m3"
    using progress_step.notified [of "''b1''" "''t1''" ?m2] by (simp add: initial_machine_def)
  moreover have "progress_step ?m3 ?m4"
    using progress_step.publish [of ?m3 "''b1''" "''t1''" "()" None]
    by (simp add: initial_machine_def sample_machine_def fresh_calls_def)
  moreover have "progress_step ?m4 sample_machine"
    using progress_step.deliver [of ?m4 "''b1''" "[]"] by (simp add: sample_machine_def progress_call_def)
  ultimately show ?thesis by (meson progress_reachable.step)
qed


end
