(* ===== verification/Routing.thy ===== *)
theory Routing
  imports Middleware HeaderForwarding BackendClient
begin

text \<open>
  The MCP service (\<open>gateway/mcp_call_validator.rs\<close>, \<open>routing_error.rs\<close>, \<open>mcp_service\<close>): how an
  admitted request is routed to a backend, with the plugin hooks around it. The record
  \<open>gateway_env\<close> collects the parameters of the components below and the operations of a backend
  connection of \<open>rmcp\<close> (type \<open>'b\<close>). The state is the world of the plugins and the backends with, for
  the statements only, the list of what was done to backends and relayed from them, newest first.
\<close>

section \<open>Definitions\<close>

datatype event =
    Connected string upstream_headers
  | Called string string "json_object option"
  | Relayed progress_notification
  | ClosedBackend string

record 'w gateway_world =
  plugins :: "'w plugin_world"
  events :: "event list"

record read_resource_request = rq_uri :: string

datatype completion_ref = PromptRef string | ResourceRef string | OtherRef

record complete_request =
  cq_ref :: completion_ref
  cq_argument :: json

text \<open>\<open>ClientLifecycleMode::Auto\<close> of \<open>rmcp\<close>: the preferred versions and the version of a legacy handshake.\<close>

datatype lifecycle_mode = AutoLifecycle "string list" "string option"

record ('m, 'f, 't, 'b, 'w) gateway_env =
  g_plugins :: "('m, 'f, 't, 'w) plugin_env"
  g_access :: cmf_access
  g_codec :: rmcp_codec
  g_header_name :: "string \<Rightarrow> string option"
  g_header_value :: "string \<Rightarrow> string option"
  g_b64_decode :: "string \<Rightarrow> string option"
  g_b64_encode :: "string \<Rightarrow> string"
  g_sentinel :: "string \<times> string"
  g_url :: "url \<Rightarrow> url_parts"
  g_trace :: "(string \<times> string) list"
  g_standard_headers :: "string \<Rightarrow> bool"
  g_progress_json :: "progress_notification \<Rightarrow> json option"
  g_progress_parse :: "json \<Rightarrow> progress_notification option"
  g_package_version :: string
  g_connect :: "url \<Rightarrow> upstream_headers \<Rightarrow> unit gateway_backend_client \<Rightarrow> lifecycle_mode \<Rightarrow> 'w \<Rightarrow> 'w \<times> 'b option"
  g_close :: "'b \<Rightarrow> 'w \<Rightarrow> 'w \<times> bool"
  g_send_tool :: "'b \<Rightarrow> call_tool_request \<Rightarrow> 'w \<Rightarrow> 'w \<times> (request_handle, service_error) result"
  g_await_tool :: "'b \<Rightarrow> request_handle \<Rightarrow> 'w \<Rightarrow> 'w \<times> progress_notification list \<times> tool_race"
  g_late_progress :: "'b \<Rightarrow> request_handle \<Rightarrow> 'w \<Rightarrow> 'w \<times> progress_notification list"
  g_cancel_tool :: "'b \<Rightarrow> request_handle \<Rightarrow> string \<Rightarrow> 'w \<Rightarrow> 'w \<times> bool"
  g_get_prompt :: "'b \<Rightarrow> get_prompt_request \<Rightarrow> 'w \<Rightarrow> 'w \<times> (get_prompt_result, service_error) result"
  g_read_resource :: "'b \<Rightarrow> read_resource_request \<Rightarrow> 'w \<Rightarrow> 'w \<times> (read_resource_result, service_error) result"
  g_complete :: "'b \<Rightarrow> complete_request \<Rightarrow> 'w \<Rightarrow> 'w \<times> (json, service_error) result"

record request_context =
  cx_parts :: "http_request option"
  cx_protocol_version :: "string option"
  cx_progress_token :: "string option"

text \<open>\<open>AuthorizedCallValidator::validate_stateless\<close>\<close>

definition validate_stateless :: "request_context \<Rightarrow> (virtual_host \<times> json, error_data) result" where
  "validate_stateless cx =
     (let maybe_config = Option.bind (cx_parts cx) ext_user_config;
          maybe_claims = Option.bind (cx_parts cx) ext_claims;
          maybe_host = Option.bind (cx_parts cx) ext_virtual_host_id
      in case maybe_config of
           None \<Rightarrow> Err (error_data INTERNAL_ERROR ''Routing problem... user config not found'')
         | Some config \<Rightarrow>
             (case maybe_host of
                None \<Rightarrow> Err (error_data INTERNAL_ERROR ''Routing problem... virtual host not known'')
              | Some host \<Rightarrow>
                  (case map_of (virtual_hosts config) host of
                     None \<Rightarrow> Err (error_data RESOURCE_NOT_FOUND ''No configuration'')
                   | Some vh \<Rightarrow>
                       (case maybe_claims of
                          None \<Rightarrow> Err (error_data INTERNAL_ERROR ''Routing problem... claims not found'')
                        | Some claims \<Rightarrow> Ok (vh, claims)))))"

definition backend_forward_error :: "service_error \<Rightarrow> error_data" where
  "backend_forward_error e =
     (case e of
        McpError d \<Rightarrow> d
      | _ \<Rightarrow> error_data INTERNAL_ERROR ''Routing problem... got no responses from backends'')"

text \<open>Effects on the plugins' world and on a backend, lifted to the gateway's world.\<close>

definition on_plugins ::
  "('w plugin_world, 'e, 'a) sm \<Rightarrow> ('w gateway_world, 'e, 'a) sm" where
  "on_plugins f g = (case f (plugins g) of (w, r) \<Rightarrow> (g\<lparr>plugins := w\<rparr>, r))"

definition on_backend :: "('w \<Rightarrow> 'w \<times> 'a) \<Rightarrow> 'w gateway_world \<Rightarrow> 'w gateway_world \<times> 'a" where
  "on_backend f g =
     (case f (outside (plugins g)) of (w, r) \<Rightarrow> (g\<lparr>plugins := (plugins g)\<lparr>outside := w\<rparr>\<rparr>, r))"

definition record_event :: "event \<Rightarrow> 'w gateway_world \<Rightarrow> 'w gateway_world" where
  "record_event e g = g\<lparr>events := e # events g\<rparr>"

definition connect_backend_for_request ::
  "('m, 'f, 't, 'b, 'w) gateway_env \<Rightarrow> string \<Rightarrow> backend_mcp_gateway \<Rightarrow> request_context
    \<Rightarrow> ('w gateway_world, error_data, 'b) sm" where
  "connect_backend_for_request env name backend cx g =
     (let headers = backend_headers (g_header_name env) (g_header_value env) (g_url env) (g_trace env)
                      backend (map_option req_headers (cx_parts cx));
          version = mcp_protocol_version backend;
          client = new_client (client_info (g_package_version env) version)
      in case on_backend (g_connect env (backend_url backend) headers client
                (AutoLifecycle [version] (Some version))) g of
           (g, None) \<Rightarrow> (g, Err (error_data INTERNAL_ERROR ''Routing problem... backend unavailable''))
         | (g, Some b) \<Rightarrow> (record_event (Connected name headers) g, Ok b))"

definition close_backend ::
  "('m, 'f, 't, 'b, 'w) gateway_env \<Rightarrow> string \<Rightarrow> 'b \<Rightarrow> 'w gateway_world \<Rightarrow> 'w gateway_world" where
  "close_backend env name b g = record_event (ClosedBackend name) (fst (on_backend (g_close env b) g))"

definition find_backend :: "virtual_host \<Rightarrow> string \<Rightarrow> (backend_mcp_gateway, error_data) result" where
  "find_backend vh name =
     ok_or (error_data INVALID_PARAMS ''Routing problem... backend not found'') (map_of (backends vh) name)"

text \<open>The check of the \<open>Mcp-Param-*\<close> headers in \<open>call_tool\<close>.\<close>

definition check_tool_headers ::
  "('m, 'f, 't, 'b, 'w) gateway_env \<Rightarrow> backend_mcp_gateway \<Rightarrow> string \<Rightarrow> call_tool_request \<Rightarrow> request_context
    \<Rightarrow> (unit, error_data) result" where
  "check_tool_headers env backend tool_name request cx =
     (if (case cx_protocol_version cx of None \<Rightarrow> False | Some v \<Rightarrow> g_standard_headers env v) then
        (case map_of (tool_schemas backend) tool_name of
           None \<Rightarrow> Ok ()
         | Some schema \<Rightarrow>
             bind_res (ok_or (error_data INTERNAL_ERROR ''Routing problem... request headers not found'')
                 (map_option req_headers (cx_parts cx)))
               (\<lambda>headers. map_err
                  (\<lambda>e. \<lparr>err_code = HEADER_MISMATCH, err_message = HeaderMessage e, err_data = None\<rparr>)
                  (validate_tool_params (g_header_name env) (g_b64_decode env) (g_sentinel env)
                    headers (ct_arguments request) schema)))
      else Ok ())"

text \<open>The plugin runtime handle of the service is optional.\<close>

definition tool_pre_hook ::
  "('m, 'f, 't, 'b, 'w) gateway_env \<Rightarrow> 'm runtime_state option \<Rightarrow> call_tool_request \<Rightarrow> string \<Rightarrow> string
    \<Rightarrow> ('w gateway_world, error_data, ('m, 't) call_state pre_hook_result) sm" where
  "tool_pre_hook env runtime request tool_name backend =
     (case runtime of
        Some st \<Rightarrow> on_plugins (before_tool_call (g_plugins env) (g_access env) st request tool_name backend)
      | None \<Rightarrow> return_sm default_pre_hook_result)"

definition tool_post_hook ::
  "('m, 'f, 't, 'b, 'w) gateway_env \<Rightarrow> ('m, 't) call_state option \<Rightarrow> call_tool_result
    \<Rightarrow> ('w gateway_world, error_data, call_tool_result) sm" where
  "tool_post_hook env state response =
     (case state of
        Some call \<Rightarrow> on_plugins (after_tool_call (g_plugins env) (g_access env) (g_codec env) call response)
      | None \<Rightarrow> return_sm response)"

text \<open>
  While a tool call is awaited, the connection's client handles the progress notifications of the
  backend (\<open>on_progress\<close>); a relayed one is sent to the client of this request.
\<close>

fun relay_progress ::
  "('m, 'f, 't, 'b, 'w) gateway_env \<Rightarrow> unit in_flight_calls \<Rightarrow> progress_notification list
    \<Rightarrow> ('m, 't) hook_store \<Rightarrow> 'w gateway_world \<Rightarrow> 'w gateway_world \<times> ('m, 't) hook_store" where
  "relay_progress env calls [] hooks g = (g, hooks)"
| "relay_progress env calls (progress # rest) hooks g =
     (case on_progress (g_plugins env) (g_access env) (g_progress_json env) (g_progress_parse env)
             calls progress hooks (plugins g) of
        (w, hooks, sent) \<Rightarrow>
          relay_progress env calls rest hooks
            (case sent of
               None \<Rightarrow> g\<lparr>plugins := w\<rparr>
             | Some (_, n) \<Rightarrow> record_event (Relayed n) (g\<lparr>plugins := w\<rparr>)))"

text \<open>
  The backend part of \<open>call_tool\<close> on the client of a new connection: the call is started (a failure to
  start returns at once), awaited while its notifications are relayed, its token is no longer tracked,
  so that notifications that are handled later are dropped, and the connection is closed, whatever the
  response is. The hook state of the call is the entry 0 of the store it shares with the notifications.
\<close>

definition shared_state :: "('m, 't) call_state option \<Rightarrow> ('m, 't) hook_store" where
  "shared_state post = (case post of None \<Rightarrow> Map.empty | Some state \<Rightarrow> [0 \<mapsto> state])"

definition run_backend_tool ::
  "('m, 'f, 't, 'b, 'w) gateway_env \<Rightarrow> string \<Rightarrow> 'b \<Rightarrow> call_tool_request \<Rightarrow> request_context
    \<Rightarrow> ('m, 't) call_state option
    \<Rightarrow> ('w gateway_world, error_data, ('m, 't) call_state option \<times> call_tool_result) sm" where
  "run_backend_tool env name b request cx post g =
     (let g = record_event (Called name (ct_name request) (ct_arguments request)) g in
      case start_tool_call (g_send_tool env b) request (cx_progress_token cx) ()
             (map_option (\<lambda>_. 0) post) fresh_calls (outside (plugins g)) of
        (w, calls, Err e) \<Rightarrow> (g\<lparr>plugins := (plugins g)\<lparr>outside := w\<rparr>\<rparr>, Err (backend_forward_error e))
      | (w, calls, Ok handle) \<Rightarrow>
          (case on_backend (g_await_tool env b handle) (g\<lparr>plugins := (plugins g)\<lparr>outside := w\<rparr>\<rparr>) of
             (g, notifications, race) \<Rightarrow>
               (case relay_progress env calls notifications (shared_state post) g of
                  (g, hooks) \<Rightarrow>
                    (case on_backend (call_backend_tool (g_cancel_tool env b handle) race) g of
                       (g, response) \<Rightarrow>
                         (let calls = stop_tracking_tool_call (handle_progress_token handle) calls in
                          case on_backend (g_late_progress env b handle) g of
                            (g, late) \<Rightarrow>
                              (case relay_progress env calls late hooks g of
                                 (g, hooks) \<Rightarrow>
                                   (close_backend env name b g,
                                    map_sum backend_forward_error (Pair (hooks 0)) response)))))))"

definition call_tool ::
  "('m, 'f, 't, 'b, 'w) gateway_env \<Rightarrow> 'm runtime_state option \<Rightarrow> call_tool_request \<Rightarrow> request_context
    \<Rightarrow> ('w gateway_world, error_data, call_tool_result) sm" where
  "call_tool env runtime request cx =
     bind_sm (lift_sm (validate_stateless cx)) (\<lambda>(vh, claims).
     bind_sm (lift_sm (ok_or (error_data INVALID_PARAMS ''Routing problem... tool not found'')
       (map_of (vh_tools vh) (ct_name request)))) (\<lambda>route.
     bind_sm (lift_sm (find_backend vh (backend_name route))) (\<lambda>backend.
     bind_sm (lift_sm (check_tool_headers env backend (upstream_name route) request cx)) (\<lambda>_.
     bind_sm (tool_pre_hook env runtime request (upstream_name route) (backend_name route)) (\<lambda>pre.
     bind_sm (connect_backend_for_request env (backend_name route) backend cx) (\<lambda>b.
     bind_sm (run_backend_tool env (backend_name route) b
       \<lparr>ct_name = upstream_name route, ct_arguments = apply_to (pre_arguments pre) (ct_arguments request)\<rparr> cx
       (pre_state pre))
     (\<lambda>(post, response). tool_post_hook env post response)))))))"

definition get_prompt ::
  "('m, 'f, 't, 'b, 'w) gateway_env \<Rightarrow> 'm runtime_state option \<Rightarrow> get_prompt_request \<Rightarrow> request_context
    \<Rightarrow> ('w gateway_world, error_data, get_prompt_result) sm" where
  "get_prompt env runtime request cx =
     bind_sm (lift_sm (validate_stateless cx)) (\<lambda>(vh, claims).
     bind_sm (lift_sm (ok_or (error_data INVALID_PARAMS ''Routing problem... prompt not found'')
       (map_of (vh_prompts vh) (gp_name request)))) (\<lambda>route.
     bind_sm (lift_sm (find_backend vh (backend_name route))) (\<lambda>backend.
     bind_sm (case runtime of
         Some st \<Rightarrow> on_plugins (before_get_prompt (g_plugins env) (g_access env) st request
           (upstream_name route) (backend_name route))
       | None \<Rightarrow> return_sm default_pre_hook_result) (\<lambda>pre.
     bind_sm (connect_backend_for_request env (backend_name route) backend cx) (\<lambda>b.
     bind_sm (\<lambda>g.
       let routed = \<lparr>gp_name = upstream_name route, gp_arguments = apply_to (pre_arguments pre) (gp_arguments request)\<rparr>;
           g = record_event (Called (backend_name route) (gp_name routed) (gp_arguments routed)) g
       in case on_backend (g_get_prompt env b routed) g of
            (g, response) \<Rightarrow>
              (close_backend env (backend_name route) b g, map_err backend_forward_error response)) (\<lambda>response.
     case pre_state pre of
       Some call \<Rightarrow> on_plugins (after_get_prompt (g_plugins env) (g_access env) (g_codec env) call response)
     | None \<Rightarrow> return_sm response))))))"

text \<open>
  The target of a rewritten resource: the first route of the virtual host to that URI, unless
  another route to it names a different backend. The routes are iterated in the map's order.
\<close>

definition rewritten_route :: "virtual_host \<Rightarrow> string \<Rightarrow> (service_route, error_data) result" where
  "rewritten_route vh uri =
     (case filter (\<lambda>route. upstream_name route = uri) (map snd (vh_resources vh)) of
        [] \<Rightarrow> Err (error_data INVALID_PARAMS ''Plugin resource target is not available in this virtual host'')
      | rewritten # candidates \<Rightarrow>
          if list_ex (\<lambda>c. backend_name c \<noteq> backend_name rewritten) candidates
          then Err (error_data INVALID_PARAMS ''Plugin resource target is ambiguous'')
          else Ok rewritten)"

definition resource_target ::
  "virtual_host \<Rightarrow> service_route \<Rightarrow> ('m, 't) resource_hook_state option \<Rightarrow> (service_route, error_data) result"
  where
  "resource_target vh route hook =
     (case Option.bind hook rewritten_uri of
        None \<Rightarrow> Ok route
      | Some uri \<Rightarrow> if uri \<noteq> upstream_name route then rewritten_route vh uri else Ok route)"

definition read_resource ::
  "('m, 'f, 't, 'b, 'w) gateway_env \<Rightarrow> 'm runtime_state option \<Rightarrow> read_resource_request \<Rightarrow> request_context
    \<Rightarrow> ('w gateway_world, error_data, read_resource_result) sm" where
  "read_resource env runtime request cx =
     bind_sm (lift_sm (validate_stateless cx)) (\<lambda>(vh, claims).
     bind_sm (lift_sm (ok_or (error_data INVALID_PARAMS ''Routing problem... resource not found'')
       (map_of (vh_resources vh) (rq_uri request)))) (\<lambda>route.
     bind_sm (case runtime of
         Some st \<Rightarrow> bind_sm (on_plugins (before_read_resource (g_plugins env) (g_access env) st
             (upstream_name route))) (\<lambda>hook. return_sm (Some hook))
       | None \<Rightarrow> return_sm None) (\<lambda>hook.
     bind_sm (lift_sm (resource_target vh route hook)) (\<lambda>route.
     bind_sm (lift_sm (find_backend vh (backend_name route))) (\<lambda>backend.
     bind_sm (connect_backend_for_request env (backend_name route) backend cx) (\<lambda>b.
     bind_sm (\<lambda>g.
       let g = record_event (Called (backend_name route) (upstream_name route) None) g
       in case on_backend (g_read_resource env b (request\<lparr>rq_uri := upstream_name route\<rparr>)) g of
            (g, response) \<Rightarrow>
              (close_backend env (backend_name route) b g, map_err backend_forward_error response)) (\<lambda>response.
     case hook of
       Some h \<Rightarrow> on_plugins (after_read_resource (g_plugins env) (g_access env) (g_b64_decode env)
         (g_b64_encode env) h response)
     | None \<Rightarrow> return_sm response)))))))"

definition completion_route :: "virtual_host \<Rightarrow> completion_ref \<Rightarrow> service_route option" where
  "completion_route vh ref =
     (case ref of
        PromptRef name \<Rightarrow> map_of (vh_prompts vh) name
      | ResourceRef uri \<Rightarrow>
          option_or (map_of (vh_resource_templates vh) uri) (map_of (vh_resources vh) uri)
      | OtherRef \<Rightarrow> None)"

definition completion_target :: "string \<Rightarrow> completion_ref \<Rightarrow> completion_ref" where
  "completion_target name ref =
     (case ref of PromptRef _ \<Rightarrow> PromptRef name | ResourceRef _ \<Rightarrow> ResourceRef name | OtherRef \<Rightarrow> OtherRef)"

definition complete ::
  "('m, 'f, 't, 'b, 'w) gateway_env \<Rightarrow> complete_request \<Rightarrow> request_context \<Rightarrow> ('w gateway_world, error_data, json) sm"
  where
  "complete env request cx =
     bind_sm (lift_sm (validate_stateless cx)) (\<lambda>(vh, claims).
     bind_sm (lift_sm (ok_or (error_data INVALID_PARAMS ''Routing problem... completion not found'')
       (completion_route vh (cq_ref request)))) (\<lambda>route.
     bind_sm (lift_sm (find_backend vh (backend_name route))) (\<lambda>backend.
     bind_sm (connect_backend_for_request env (backend_name route) backend cx) (\<lambda>b.
     (\<lambda>g.
       let routed = request\<lparr>cq_ref := completion_target (upstream_name route) (cq_ref request)\<rparr>;
           g = record_event (Called (backend_name route) (upstream_name route) None) g
       in case on_backend (g_complete env b routed) g of
            (g, response) \<Rightarrow>
              (close_backend env (backend_name route) b g, map_err backend_forward_error response))))))"

text \<open>The other handlers of \<open>McpService\<close>.\<close>

definition fan_out_error :: error_data where
  "fan_out_error = error_data INVALID_REQUEST ''Fan out not supported at the moment. Go to control plane''"

definition list_tools :: "('w gateway_world, error_data, json) sm" where "list_tools = fail_sm fan_out_error"
definition list_resources :: "('w gateway_world, error_data, json) sm" where "list_resources = fail_sm fan_out_error"
definition list_resource_templates :: "('w gateway_world, error_data, json) sm" where
  "list_resource_templates = fail_sm fan_out_error"
definition list_prompts :: "('w gateway_world, error_data, json) sm" where "list_prompts = fail_sm fan_out_error"
definition subscribe :: "('w gateway_world, error_data, unit) sm" where "subscribe = fail_sm fan_out_error"
definition unsubscribe :: "('w gateway_world, error_data, unit) sm" where "unsubscribe = fail_sm fan_out_error"

text \<open>\<open>initialize\<close>; the capabilities and the protocol version of the result are the defaults of \<open>rmcp\<close>.\<close>

record initialize_result =
  server_name :: string
  server_version :: string
  server_instructions :: "string option"

definition initialize_mcp :: "string \<Rightarrow> (initialize_result, error_data) result" where
  "initialize_mcp protocol_version =
     (if protocol_version = ''2026-07-28''
      then Err (error_data INVALID_REQUEST ''Initialize not supported by this dataplane'')
      else Ok \<lparr>server_name = ''contextforge-dataplane-gateway'', server_version = ''0.1.0'',
        server_instructions = Some ''contextforge-dataplane-gateway''\<rparr>)"

text \<open>\<open>impl ServerHandler for McpService\<close>: one entry per MCP method.\<close>

datatype mcp_request =
    Initialize string | ListTools | CallTool call_tool_request | ListResources
  | ReadResource read_resource_request | ListResourceTemplates | Subscribe | Unsubscribe | ListPrompts
  | GetPrompt get_prompt_request | Complete complete_request

datatype mcp_response =
    Listing json | ToolResponse call_tool_result | ResourceResponse read_resource_result
  | PromptResponse get_prompt_result | CompletionResponse json | Done unit
  | Initialized initialize_result

definition map_sm :: "('a \<Rightarrow> 'b) \<Rightarrow> ('s, 'e, 'a) sm \<Rightarrow> ('s, 'e, 'b) sm" where
  "map_sm f m = bind_sm m (\<lambda>x. return_sm (f x))"

fun handle_request ::
  "('m, 'f, 't, 'b, 'w) gateway_env \<Rightarrow> 'm runtime_state option \<Rightarrow> mcp_request \<Rightarrow> request_context
    \<Rightarrow> ('w gateway_world, error_data, mcp_response) sm" where
  "handle_request env rt (Initialize v) cx = map_sm Initialized (lift_sm (initialize_mcp v))"
| "handle_request env rt ListTools cx = map_sm Listing list_tools"
| "handle_request env rt (CallTool r) cx = map_sm ToolResponse (call_tool env rt r cx)"
| "handle_request env rt ListResources cx = map_sm Listing list_resources"
| "handle_request env rt (ReadResource r) cx = map_sm ResourceResponse (read_resource env rt r cx)"
| "handle_request env rt ListResourceTemplates cx = map_sm Listing list_resource_templates"
| "handle_request env rt Subscribe cx = map_sm Done subscribe"
| "handle_request env rt Unsubscribe cx = map_sm Done unsubscribe"
| "handle_request env rt ListPrompts cx = map_sm Listing list_prompts"
| "handle_request env rt (GetPrompt r) cx = map_sm PromptResponse (get_prompt env rt r cx)"
| "handle_request env rt (Complete r) cx = map_sm CompletionResponse (complete env r cx)"

section \<open>What a handler does to backends\<close>

text \<open>
  \<open>appends P m\<close>: a computation only adds events, and each satisfies \<open>P\<close>. The rules follow the
  structure of the handlers.
\<close>

definition appends :: "(event \<Rightarrow> bool) \<Rightarrow> ('w gateway_world, 'e, 'a) sm \<Rightarrow> bool" where
  "appends P m \<longleftrightarrow> (\<forall>g. \<exists>new. events (fst (m g)) = new @ events g \<and> list_all P new)"

named_theorems appends_intros

lemma appends_return [appends_intros]: "appends P (return_sm x)"
  by (simp add: appends_def)

lemma appends_fail [appends_intros]: "appends P (fail_sm e)"
  by (simp add: appends_def)

lemma appends_lift [appends_intros]: "appends P (lift_sm r)"
  by (simp add: appends_def)

lemma appends_bind:
  assumes "appends P m" "\<And>g g' x. m g = (g', Inr x) \<Longrightarrow> appends P (f x)"
  shows "appends P (bind_sm m f)"
  unfolding appends_def
proof
  fix g
  obtain g' r where m: "m g = (g', r)" by fastforce
  from assms(1) m obtain new where new: "events g' = new @ events g" "list_all P new"
    unfolding appends_def by (metis fst_conv)
  show "\<exists>new. events (fst (bind_sm m f g)) = new @ events g \<and> list_all P new"
  proof (cases r)
    case (Inl e)
    with m new show ?thesis by (simp add: bind_sm_def)
  next
    case (Inr x)
    with assms(2) m obtain new' where "events (fst (f x g')) = new' @ events g'" "list_all P new'"
      unfolding appends_def by blast
    with m Inr new show ?thesis by (auto simp: bind_sm_def intro!: exI [of _ "new' @ new"])
  qed
qed

lemma appends_lift_bind [appends_intros]:
  assumes "\<And>x. r = Inr x \<Longrightarrow> appends P (f x)"
  shows "appends P (bind_sm (lift_sm r) f)"
  by (rule appends_bind) (auto intro: appends_lift assms)

lemma appends_on_plugins [appends_intros]: "appends P (on_plugins f)"
  by (simp add: appends_def on_plugins_def split: prod.splits)

lemma on_backend_events [simp]: "events (fst (on_backend f g)) = events g"
  by (simp add: on_backend_def split: prod.splits)

lemma record_event_events [simp]: "events (record_event e g) = e # events g"
  by (simp add: record_event_def)

lemma close_backend_events [simp]: "events (close_backend env name b g) = ClosedBackend name # events g"
  by (simp add: close_backend_def)

definition upstream_of :: "('m, 'f, 't, 'b, 'w) gateway_env \<Rightarrow> backend_mcp_gateway \<Rightarrow> request_context \<Rightarrow> upstream_headers"
  where
  "upstream_of env backend cx =
     backend_headers (g_header_name env) (g_header_value env) (g_url env) (g_trace env) backend
       (map_option req_headers (cx_parts cx))"

lemma connect_events:
  "(\<exists>b. snd (connect_backend_for_request env name backend cx g) = Ok b \<and>
      events (fst (connect_backend_for_request env name backend cx g)) =
        Connected name (upstream_of env backend cx) # events g) \<or>
   (\<exists>e. snd (connect_backend_for_request env name backend cx g) = Err e \<and>
      events (fst (connect_backend_for_request env name backend cx g)) = events g)"
proof -
  let ?v = "mcp_protocol_version backend"
  obtain g' r where c: "on_backend (g_connect env (backend_url backend) (upstream_of env backend cx)
      (new_client (client_info (g_package_version env) ?v)) (AutoLifecycle [?v] (Some ?v))) g = (g', r)" by fastforce
  have "events g' = events g" using on_backend_events c by (metis fst_conv)
  with c show ?thesis
    by (cases r) (simp_all add: connect_backend_for_request_def upstream_of_def Let_def)
qed

lemma appends_connect [appends_intros]:
  "P (Connected name (upstream_of env backend cx)) \<Longrightarrow>
   appends P (connect_backend_for_request env name backend cx)"
  unfolding appends_def
  by (metis append_Cons append_Nil connect_events list.pred_inject)

lemma appends_called:
  assumes "P (Called name upstream args)" "P (ClosedBackend name)"
  shows "appends P (\<lambda>g. case on_backend f (record_event (Called name upstream args) g) of
     (g, response) \<Rightarrow> (close_backend env name b g, h response))"
  unfolding appends_def
proof
  fix g
  obtain g' r where c: "on_backend f (record_event (Called name upstream args) g) = (g', r)" by fastforce
  then have "events g' = Called name upstream args # events g"
    using on_backend_events [of f "record_event (Called name upstream args) g"] by simp
  with c assms show "\<exists>new. events (fst (case on_backend f (record_event (Called name upstream args) g) of
     (g, response) \<Rightarrow> (close_backend env name b g, h response))) = new @ events g \<and> list_all P new"
    by (auto intro!: exI [of _ "[ClosedBackend name, Called name upstream args]"])
qed

lemma relay_progress_events:
  assumes "relay_progress env calls ns hooks g = (g', hooks')"
  shows "\<exists>relayed. events g' = map Relayed relayed @ events g"
  using assms
proof (induction ns arbitrary: hooks g)
  case (Cons n ns)
  obtain w hs sent where n: "on_progress (g_plugins env) (g_access env) (g_progress_json env)
      (g_progress_parse env) calls n hooks (plugins g) = (w, hs, sent)" using prod_cases3 by blast
  show ?case
  proof (cases sent)
    case None
    with Cons n show ?thesis by fastforce
  next
    case (Some m)
    with Cons.prems n have "relay_progress env calls ns hs (record_event (Relayed (snd m)) (g\<lparr>plugins := w\<rparr>)) = (g', hooks')"
      by (simp add: case_prod_beta)
    from Cons.IH [OF this] obtain r where "events g' = map Relayed r @ Relayed (snd m) # events g" by auto
    then show ?thesis by (intro exI [of _ "r @ [snd m]"]) simp
  qed
qed simp

lemma relay_progress_untracked:
  assumes "relay_progress env Map.empty ns hooks g = (g', hooks')"
  shows "events g' = events g \<and> hooks' = hooks"
  using assms by (induction ns arbitrary: g) (auto simp: on_progress_def progress_call_def)

lemma start_tool_call_untracked:
  assumes "start_tool_call send request None p post fresh_calls w = (w', calls, r)"
  shows "calls = Map.empty"
  using assms by (auto simp: start_tool_call_def fresh_calls_def split: prod.splits)

lemma stop_tracking_fresh:
  assumes "start_tool_call send request token p post fresh_calls w = (w', calls, Ok handle)"
  shows "stop_tracking_tool_call (handle_progress_token handle) calls = Map.empty"
  using assms by (auto simp: start_tool_call_def fresh_calls_def stop_tracking_tool_call_def
      split: prod.splits sum.splits option.splits)

text \<open>
  What a tool call does to its backend: the call, the relayed notifications (none unless the client
  gave a token) and the close; only a call that could not be started leaves without the close.
\<close>

lemma run_backend_tool_events:
  assumes "run_backend_tool env name b request cx post g = (g', r)"
  shows "\<exists>relayed. (relayed \<noteq> [] \<longrightarrow> cx_progress_token cx \<noteq> None) \<and>
     (events g' = ClosedBackend name # map Relayed relayed @
        Called name (ct_name request) (ct_arguments request) # events g \<or>
      events g' = Called name (ct_name request) (ct_arguments request) # events g \<and> isl r)"
proof -
  let ?g = "record_event (Called name (ct_name request) (ct_arguments request)) g"
  obtain w calls h where s: "start_tool_call (g_send_tool env b) request (cx_progress_token cx) ()
      (map_option (\<lambda>_. 0) post) fresh_calls (outside (plugins g)) = (w, calls, h)" using prod_cases3 by blast
  show ?thesis
  proof (cases h)
    case (Inl e)
    with s assms have "events g' = Called name (ct_name request) (ct_arguments request) # events g" "isl r"
      by (auto simp: run_backend_tool_def Let_def record_event_def)
    then show ?thesis by blast
  next
    case (Inr handle)
    let ?g' = "?g\<lparr>plugins := (plugins ?g)\<lparr>outside := w\<rparr>\<rparr>"
    obtain g1 ns race where a: "on_backend (g_await_tool env b handle) ?g' = (g1, ns, race)"
      using prod_cases3 by blast
    obtain g2 hooks where l: "relay_progress env calls ns (shared_state post) g1 = (g2, hooks)" by fastforce
    obtain g3 resp where c: "on_backend (call_backend_tool (g_cancel_tool env b handle) race) g2 = (g3, resp)"
      by fastforce
    obtain g4 late where d: "on_backend (g_late_progress env b handle) g3 = (g4, late)" by fastforce
    obtain g5 hooks' where m: "relay_progress env Map.empty late hooks g4 = (g5, hooks')" by fastforce
    have e1: "events g1 = Called name (ct_name request) (ct_arguments request) # events g"
      using on_backend_events [of "g_await_tool env b handle" ?g'] by (simp add: a)
    have e3: "events g5 = events g2"
      using on_backend_events c d relay_progress_untracked [OF m] by (metis fst_conv)
    from relay_progress_events [OF l] obtain rel where rel: "events g2 = map Relayed rel @ events g1" by blast
    have "rel \<noteq> [] \<longrightarrow> cx_progress_token cx \<noteq> None"
    proof (intro impI notI)
      assume "rel \<noteq> []" "cx_progress_token cx = None"
      then have "calls = Map.empty" using s start_tool_call_untracked by metis
      then have "events g2 = events g1" using l relay_progress_untracked by metis
      with rel \<open>rel \<noteq> []\<close> show False by simp
    qed
    moreover have "g' = close_backend env name b g5"
      using assms s Inr a l c d m stop_tracking_fresh [OF s [unfolded Inr]]
      by (auto simp: run_backend_tool_def Let_def record_event_def)
    ultimately show ?thesis using e1 e3 rel by (intro exI [of _ rel]) simp
  qed
qed

section \<open>The contract of an operation\<close>

text \<open>
  \<open>permitted env vh routes cx e\<close>: the event concerns a backend of the virtual host that one of the
  routes names, with the headers computed for that backend; what is called is the upstream name
  of a route; notifications are relayed only to a client that gave a token.
\<close>

definition permitted ::
  "('m, 'f, 't, 'b, 'w) gateway_env \<Rightarrow> virtual_host \<Rightarrow> service_route set \<Rightarrow> request_context \<Rightarrow> event \<Rightarrow> bool"
  where
  "permitted env vh routes cx e =
     (case e of
        Connected name headers \<Rightarrow>
          (\<exists>route \<in> routes. backend_name route = name) \<and>
          (\<exists>backend. map_of (backends vh) name = Some backend \<and> headers = upstream_of env backend cx)
      | Called name upstream _ \<Rightarrow>
          (\<exists>route \<in> routes. backend_name route = name \<and> upstream_name route = upstream)
      | ClosedBackend name \<Rightarrow> (\<exists>route \<in> routes. backend_name route = name)
      | Relayed _ \<Rightarrow> cx_progress_token cx \<noteq> None)"

locale mcp_operation =
  fixes env :: "('m, 'f, 't, 'b, 'w) gateway_env"
    and run :: "request_context \<Rightarrow> ('w gateway_world, error_data, 'r) sm"
    and routes :: "virtual_host \<Rightarrow> service_route set"
  assumes refused: "validate_stateless cx = Err e \<Longrightarrow> run cx g = (g, Err e)"
    and confined: "validate_stateless cx = Ok (vh, claims) \<Longrightarrow> appends (permitted env vh (routes vh) cx) (run cx)"
begin

definition concerns :: "request_context \<Rightarrow> event \<Rightarrow> bool" where
  "concerns cx e \<longleftrightarrow> (\<exists>vh claims. validate_stateless cx = Ok (vh, claims) \<and> permitted env vh (routes vh) cx e)"

lemma appends_concerns: "appends (concerns cx) (run cx)"
proof (cases "validate_stateless cx")
  case (Inl e)
  then show ?thesis using refused by (auto simp: appends_def)
next
  case (Inr v)
  then obtain vh claims where v: "validate_stateless cx = Ok (vh, claims)" by (cases v) auto
  then have "permitted env vh (routes vh) cx e \<Longrightarrow> concerns cx e" for e by (auto simp: concerns_def)
  with confined [OF v] show ?thesis unfolding appends_def by (metis list.pred_mono_strong)
qed

lemma runs_confined:
  "\<exists>new. events (fold (\<lambda>cx g. fst (run cx g)) cxs g) = new @ events g \<and>
     (\<forall>e \<in> set new. \<exists>cx \<in> set cxs. concerns cx e)"
proof (induction cxs arbitrary: g)
  case (Cons cx cxs)
  from appends_concerns [of cx] obtain new where new: "events (fst (run cx g)) = new @ events g"
    "list_all (concerns cx) new" unfolding appends_def by blast
  from Cons [of "fst (run cx g)"] obtain new' where
    "events (fold (\<lambda>cx g. fst (run cx g)) cxs (fst (run cx g))) = new' @ events (fst (run cx g))"
    "\<forall>e \<in> set new'. \<exists>cx \<in> set cxs. concerns cx e" by blast
  with new show ?case by (intro exI [of _ "new' @ new"]) (auto simp: list_all_iff)
qed simp

end

lemma permitted_simps [simp]:
  "permitted env vh routes cx (Called name upstream args) \<longleftrightarrow>
     (\<exists>route \<in> routes. backend_name route = name \<and> upstream_name route = upstream)"
  "permitted env vh routes cx (ClosedBackend name) \<longleftrightarrow> (\<exists>route \<in> routes. backend_name route = name)"
  "permitted env vh routes cx (Relayed n) \<longleftrightarrow> cx_progress_token cx \<noteq> None"
  by (simp_all add: permitted_def)

lemma permitted_connect:
  assumes "find_backend vh name = Ok backend" "\<exists>route \<in> routes. backend_name route = name"
  shows "permitted env vh routes cx (Connected name (upstream_of env backend cx))"
  using assms by (auto simp: permitted_def find_backend_def ok_or_def split: option.splits)

lemma appends_run_tool:
  assumes "P (Called name (ct_name request) (ct_arguments request))" "P (ClosedBackend name)"
    and "\<And>n. cx_progress_token cx \<noteq> None \<Longrightarrow> P (Relayed n)"
  shows "appends P (run_backend_tool env name b request cx post)"
  unfolding appends_def
proof
  fix g
  let ?c = "Called name (ct_name request) (ct_arguments request)"
  obtain g' r where rr: "run_backend_tool env name b request cx post g = (g', r)" by fastforce
  from run_backend_tool_events [OF this] obtain relayed where
    t: "relayed \<noteq> [] \<longrightarrow> cx_progress_token cx \<noteq> None" and
    e: "events g' = ClosedBackend name # map Relayed relayed @ ?c # events g \<or> events g' = ?c # events g" by blast
  from t assms(3) have rel: "list_all P (map Relayed relayed)" by (cases relayed) (auto simp: list_all_iff)
  from e show "\<exists>new. events (fst (run_backend_tool env name b request cx post g)) = new @ events g \<and> list_all P new"
  proof
    assume "events g' = ClosedBackend name # map Relayed relayed @ ?c # events g"
    then show ?thesis using rr rel assms(1,2)
      by (intro exI [of _ "ClosedBackend name # map Relayed relayed @ [?c]"]) simp
  next
    assume "events g' = ?c # events g"
    then show ?thesis using rr assms(1) by (intro exI [of _ "[?c]"]) simp
  qed
qed

lemma appends_run_backend_tool:
  assumes "route \<in> routes" "ct_name request = upstream_name route"
  shows "appends (permitted env vh routes cx) (run_backend_tool env (backend_name route) b request cx post)"
  using assms by (intro appends_run_tool) auto

lemma appends_tool_hooks [appends_intros]:
  "appends P (tool_pre_hook env rt request tool_name backend)"
  "appends P (tool_post_hook env state response)"
  by (auto simp: tool_pre_hook_def tool_post_hook_def intro: appends_intros split: option.splits)

lemma validate_refuses:
  assumes "validate_stateless cx = Err e"
  shows "call_tool env rt tool_request cx g = (g, Err e)" "get_prompt env rt prompt_request cx g = (g, Err e)"
    "read_resource env rt resource_request cx g = (g, Err e)" "complete env complete_request cx g = (g, Err e)"
  using assms by (simp_all add: call_tool_def get_prompt_def read_resource_def complete_def bind_sm_def)

lemma appends_connected:
  assumes "find_backend vh (backend_name route) = Ok backend" "route \<in> routes"
    and "\<And>b. appends (permitted env vh routes cx) (f b)"
  shows "appends (permitted env vh routes cx)
    (bind_sm (connect_backend_for_request env (backend_name route) backend cx) f)"
  using assms by (intro appends_bind appends_connect permitted_connect) auto

lemma call_tool_confined:
  assumes "validate_stateless cx = Ok (vh, claims)"
  shows "appends (permitted env vh {r. map_of (vh_tools vh) (ct_name request) = Some r} cx)
    (call_tool env rt request cx)"
  unfolding call_tool_def assms
  apply (rule appends_lift_bind, clarsimp simp: ok_or_eq_Ok)
  apply (rule appends_lift_bind, clarsimp simp: ok_or_eq_Ok)
  apply (rule appends_lift_bind, rule appends_lift_bind, rule appends_bind, rule appends_tool_hooks)
  apply (rule appends_connected, assumption, simp)
  apply (rule appends_bind, rule appends_run_backend_tool, simp, simp)
  apply (simp add: case_prod_beta appends_tool_hooks)
  done

lemma get_prompt_confined:
  assumes "validate_stateless cx = Ok (vh, claims)"
  shows "appends (permitted env vh {r. map_of (vh_prompts vh) (gp_name request) = Some r} cx)
    (get_prompt env rt request cx)"
  unfolding get_prompt_def assms Let_def
  apply (rule appends_lift_bind, clarsimp simp: ok_or_eq_Ok)
  apply (rule appends_lift_bind, clarsimp simp: ok_or_eq_Ok)
  apply (rule appends_lift_bind, rule appends_bind)
   apply (auto intro: appends_intros split: option.splits)[1]
  apply (rule appends_connected, assumption, simp)
  apply (rule appends_bind, rule appends_called, simp, simp)
  apply (auto intro: appends_intros split: option.splits)
  done

lemma complete_confined:
  assumes "validate_stateless cx = Ok (vh, claims)"
  shows "appends (permitted env vh {r. completion_route vh (cq_ref request) = Some r} cx)
    (complete env request cx)"
  unfolding complete_def assms Let_def
  apply (rule appends_lift_bind, clarsimp simp: ok_or_eq_Ok)
  apply (rule appends_lift_bind, clarsimp simp: ok_or_eq_Ok)
  apply (rule appends_lift_bind)
  apply (rule appends_connected, assumption, simp)
  apply (rule appends_called, simp, simp)
  done

lemma find_eq_filter: "find P xs = (case filter P xs of [] \<Rightarrow> None | x # _ \<Rightarrow> Some x)"
  by (induction xs) auto

lemma rewritten_route_Ok:
  "rewritten_route vh uri = Ok route \<longleftrightarrow>
     find (\<lambda>r. upstream_name r = uri) (map snd (vh_resources vh)) = Some route \<and>
     (\<forall>r \<in> snd ` set (vh_resources vh). upstream_name r = uri \<longrightarrow> backend_name r = backend_name route)"
proof (cases "filter (\<lambda>r. upstream_name r = uri) (map snd (vh_resources vh))")
  case Nil
  then show ?thesis by (simp add: rewritten_route_def find_eq_filter)
next
  case (Cons r rs)
  then have "find (\<lambda>r. upstream_name r = uri) (map snd (vh_resources vh)) = Some r"
    by (simp add: find_eq_filter)
  moreover have "(\<forall>r \<in> snd ` set (vh_resources vh). upstream_name r = uri \<longrightarrow> P r) \<longleftrightarrow> P r \<and> (\<forall>c \<in> set rs. P c)" for P
  proof -
    have "(\<forall>r \<in> snd ` set (vh_resources vh). upstream_name r = uri \<longrightarrow> P r) \<longleftrightarrow>
        (\<forall>r \<in> set (filter (\<lambda>r. upstream_name r = uri) (map snd (vh_resources vh))). P r)" by auto
    then show ?thesis unfolding Cons by simp
  qed
  ultimately show ?thesis unfolding rewritten_route_def Cons list_ex_iff
    by (simp del: ball_simps) (metis option.inject)
qed

lemma resource_target_route:
  assumes "map_of (vh_resources vh) name = Some route" "resource_target vh route hook = Ok target"
  shows "target \<in> snd ` set (vh_resources vh)"
proof -
  have "route \<in> snd ` set (vh_resources vh)" using assms(1) by (force dest: map_of_SomeD)
  moreover have "t \<in> snd ` set (vh_resources vh)" if "rewritten_route vh uri = Ok t" for uri t
  proof -
    from that obtain ts where "filter (\<lambda>r. upstream_name r = uri) (map snd (vh_resources vh)) = t # ts"
      by (auto simp: rewritten_route_Ok find_eq_filter split: list.splits)
    then have "t \<in> set (filter (\<lambda>r. upstream_name r = uri) (map snd (vh_resources vh)))" by simp
    then show ?thesis by auto
  qed
  ultimately show ?thesis using assms(2) by (auto simp: resource_target_def split: option.splits if_splits)
qed

lemma read_resource_confined:
  assumes "validate_stateless cx = Ok (vh, claims)"
  shows "appends (permitted env vh (snd ` set (vh_resources vh)) cx) (read_resource env rt request cx)"
  unfolding read_resource_def assms Let_def
  apply (rule appends_lift_bind, clarsimp simp: ok_or_eq_Ok)
  apply (rule appends_lift_bind, clarsimp simp: ok_or_eq_Ok)
  apply (rule appends_bind)
   apply (auto intro!: appends_intros appends_bind split: option.splits)[1]
  apply (rule appends_lift_bind, rule appends_lift_bind)
  apply (rule appends_connected, assumption, erule resource_target_route, assumption)
  apply (rule appends_bind, rule appends_called)
    apply (auto dest!: resource_target_route)[2]
  apply (auto intro: appends_intros split: option.splits)
  done

lemmas handlers_confined =
  call_tool_confined get_prompt_confined read_resource_confined complete_confined

interpretation tool_operation: mcp_operation env "call_tool env rt request"
  "\<lambda>vh. {r. map_of (vh_tools vh) (ct_name request) = Some r}" for env rt request
  by unfold_locales (rule validate_refuses handlers_confined, assumption)+

interpretation prompt_operation: mcp_operation env "get_prompt env rt request"
  "\<lambda>vh. {r. map_of (vh_prompts vh) (gp_name request) = Some r}" for env rt request
  by unfold_locales (rule validate_refuses handlers_confined, assumption)+

interpretation resource_operation: mcp_operation env "read_resource env rt request"
  "\<lambda>vh. snd ` set (vh_resources vh)" for env rt request
  by unfold_locales (rule validate_refuses handlers_confined, assumption)+

interpretation completion_operation: mcp_operation env "complete env request"
  "\<lambda>vh. {r. completion_route vh (cq_ref request) = Some r}" for env request
  by unfold_locales (rule validate_refuses handlers_confined, assumption)+

section \<open>Tenant isolation\<close>

definition host_routes :: "virtual_host \<Rightarrow> service_route set" where
  "host_routes vh = snd ` (set (vh_tools vh) \<union> set (vh_prompts vh) \<union> set (vh_resources vh) \<union> set (vh_resource_templates vh))"

lemma map_of_host_route:
  "map_of (vh_tools vh) k = Some r \<Longrightarrow> r \<in> host_routes vh"
  "map_of (vh_prompts vh) k = Some r \<Longrightarrow> r \<in> host_routes vh"
  "map_of (vh_resources vh) k = Some r \<Longrightarrow> r \<in> host_routes vh"
  "map_of (vh_resource_templates vh) k = Some r \<Longrightarrow> r \<in> host_routes vh"
  by (force simp: host_routes_def dest: map_of_SomeD)+

lemma completion_host_route: "completion_route vh ref = Some r \<Longrightarrow> r \<in> host_routes vh"
  by (cases ref) (auto simp: completion_route_def option_or_def intro: map_of_host_route split: option.splits)

lemma appends_mono:
  assumes "appends P m" "\<And>e. P e \<Longrightarrow> Q e"
  shows "appends Q m"
  using assms unfolding appends_def by (metis list.pred_mono_strong)

lemma permitted_mono: "permitted env vh A cx e \<Longrightarrow> A \<subseteq> B \<Longrightarrow> permitted env vh B cx e"
  by (auto simp: permitted_def split: event.splits)

lemma appends_map_sm: "appends P m \<Longrightarrow> appends P (map_sm f m)"
  by (auto simp: map_sm_def intro: appends_bind appends_return)

definition own_event :: "('m, 'f, 't, 'b, 'w) gateway_env \<Rightarrow> request_context \<Rightarrow> event \<Rightarrow> bool" where
  "own_event env cx e \<longleftrightarrow>
     (\<exists>vh claims. validate_stateless cx = Ok (vh, claims) \<and> permitted env vh (host_routes vh) cx e)"

lemma own_event_mono:
  assumes "mcp_operation env run routes" "\<And>vh. routes vh \<subseteq> host_routes vh"
  shows "appends (own_event env cx) (run cx)"
  using mcp_operation.appends_concerns [OF assms(1)]
proof (rule appends_mono)
  fix e
  assume "mcp_operation.concerns env routes cx e"
  then show "own_event env cx e"
    unfolding mcp_operation.concerns_def [OF assms(1)] own_event_def using assms(2) permitted_mono by metis
qed

lemma handle_request_own: "appends (own_event env cx) (handle_request env rt request cx)"
proof (cases request)
  case (CallTool r)
  then show ?thesis
    by (auto intro!: appends_map_sm own_event_mono [OF tool_operation.mcp_operation_axioms]
        intro: map_of_host_route)
next
  case (GetPrompt r)
  then show ?thesis
    by (auto intro!: appends_map_sm own_event_mono [OF prompt_operation.mcp_operation_axioms]
        intro: map_of_host_route)
next
  case (ReadResource r)
  then show ?thesis
    by (simp, intro appends_map_sm own_event_mono [OF resource_operation.mcp_operation_axioms])
      (simp add: host_routes_def image_Un le_supI1 le_supI2)
next
  case (Complete r)
  then show ?thesis
    by (auto intro!: appends_map_sm own_event_mono [OF completion_operation.mcp_operation_axioms]
        completion_host_route)
qed (auto intro!: appends_map_sm appends_intros simp: list_tools_def list_resources_def
  list_resource_templates_def list_prompts_def subscribe_def unsubscribe_def)


section \<open>Tool calls\<close>

lemma tool_pre_hook_events:
  "tool_pre_hook env rt request tool_name backend g = (g', r) \<Longrightarrow> events g' = events g"
  by (auto simp: tool_pre_hook_def on_plugins_def return_sm_def split: option.splits prod.splits)

lemma tool_post_hook_events:
  "tool_post_hook env state response g = (g', r) \<Longrightarrow> events g' = events g"
  by (auto simp: tool_post_hook_def on_plugins_def return_sm_def split: option.splits prod.splits)

lemma bind_sm_Ok:
  assumes "bind_sm m f s = (s', Ok y)"
  obtains x s1 where "m s = (s1, Ok x)" "f x s1 = (s', Ok y)"
  using assms by (auto simp: bind_sm_def split: prod.splits sum.splits)

lemma lift_sm_Ok: "lift_sm r s = (s', Ok x) \<longleftrightarrow> s' = s \<and> r = Ok x"
  by (auto simp: lift_sm_def)

text \<open>
  Property C3 (a served tool call): a tool call answered with a result was routed by the caller's own
  virtual host, passed the header check for the routed tool and the plugins' pre hook, and did to
  backends exactly this: one connection with the headers of that backend, one call of the upstream
  tool with the arguments the pre hook left, relayed progress only for a client with a token, one close.
\<close>

theorem call_tool_trace:
  assumes "call_tool env rt request cx g = (g', Ok response)"
  shows "\<exists>vh claims route backend pre relayed.
    validate_stateless cx = Ok (vh, claims) \<and>
    map_of (vh_tools vh) (ct_name request) = Some route \<and>
    map_of (backends vh) (backend_name route) = Some backend \<and>
    check_tool_headers env backend (upstream_name route) request cx = Ok () \<and>
    snd (tool_pre_hook env rt request (upstream_name route) (backend_name route) g) = Ok pre \<and>
    (if cx_progress_token cx = None then relayed = [] else True) \<and>
    events g' = ClosedBackend (backend_name route) # map Relayed relayed @
      Called (backend_name route) (upstream_name route) (apply_to (pre_arguments pre) (ct_arguments request)) #
      Connected (backend_name route) (upstream_of env backend cx) # events g"
proof -
  from assms obtain vh claims where v: "validate_stateless cx = Ok (vh, claims)"
    by (auto simp: call_tool_def bind_sm_def lift_sm_def split: sum.splits)
  from assms obtain route where route: "map_of (vh_tools vh) (ct_name request) = Some route"
    by (cases "map_of (vh_tools vh) (ct_name request)") (auto simp: call_tool_def v bind_sm_def lift_sm_def)
  let ?n = "backend_name route" and ?t = "upstream_name route"
  from assms obtain backend where backend: "find_backend vh ?n = Ok backend"
    by (cases "find_backend vh ?n") (auto simp: call_tool_def v route bind_sm_def lift_sm_def)
  from assms have h: "check_tool_headers env backend ?t request cx = Ok ()"
    by (cases "check_tool_headers env backend ?t request cx") (auto simp: call_tool_def v route backend bind_sm_def lift_sm_def)
  obtain g1 p where p: "tool_pre_hook env rt request ?t ?n g = (g1, p)" by fastforce
  with assms obtain pre where pre: "p = Ok pre"
    by (cases p) (auto simp: call_tool_def v route backend h bind_sm_def lift_sm_def)
  let ?r = "\<lparr>ct_name = ?t, ct_arguments = apply_to (pre_arguments pre) (ct_arguments request)\<rparr>"
  from assms p pre obtain b g2 where c: "connect_backend_for_request env ?n backend cx g1 = (g2, Ok b)"
    and rest: "bind_sm (run_backend_tool env ?n b ?r cx (pre_state pre))
      (\<lambda>(post, response). tool_post_hook env post response) g2 = (g', Ok response)"
    by (auto simp: call_tool_def v route backend h bind_sm_def lift_sm_def split: prod.splits sum.splits)
  from rest obtain g3 post result where run: "run_backend_tool env ?n b ?r cx (pre_state pre) g2 = (g3, Ok (post, result))"
    and after: "tool_post_hook env post result g3 = (g', Ok response)" by (auto elim!: bind_sm_Ok)
  have "events g2 = Connected ?n (upstream_of env backend cx) # events g"
    using connect_events [of env ?n backend cx g1] c tool_pre_hook_events [OF p] by auto
  moreover from run_backend_tool_events [OF run] obtain relayed where "relayed \<noteq> [] \<longrightarrow> cx_progress_token cx \<noteq> None"
    "events g3 = ClosedBackend ?n # map Relayed relayed @ Called ?n ?t (ct_arguments ?r) # events g2" by auto
  ultimately have "events g' = ClosedBackend ?n # map Relayed relayed @
      Called ?n ?t (ct_arguments ?r) # Connected ?n (upstream_of env backend cx) # events g"
    using tool_post_hook_events [OF after] by simp
  with \<open>relayed \<noteq> [] \<longrightarrow> cx_progress_token cx \<noteq> None\<close> v route backend h p pre show ?thesis
    by (intro exI [of _ vh] exI [of _ claims] exI [of _ route] exI [of _ backend] exI [of _ pre] exI [of _ relayed])
      (auto simp: find_backend_def ok_or_eq_Ok)
qed

definition sample_gateway :: "(nat, unit, nat, unit, nat) gateway_env" where
  "sample_gateway = \<lparr>g_plugins = sample_plugins, g_access = sample_access, g_codec = sample_codec,
     g_header_name = lower_name, g_header_value = Some, g_b64_decode = Some, g_b64_encode = (\<lambda>s. s),
     g_sentinel = (''=?base64?'', ''?=''), g_url = (\<lambda>_. \<lparr>url_scheme = ''http'', url_host = Some ''b'', url_port = None\<rparr>),
     g_trace = [], g_standard_headers = (\<lambda>v. v = ''2026-07-28''),
     g_progress_json = (\<lambda>n. Some (progress_value n)), g_progress_parse = (\<lambda>j. None),
     g_package_version = ''0.1.0'',
     g_connect = (\<lambda>u h c m w. (Suc w, Some ())), g_close = (\<lambda>b w. (Suc w, True)),
     g_send_tool = (\<lambda>b r w. (Suc w, Ok \<lparr>handle_progress_token = ''p'', handle_request_id = 1\<rparr>)),
     g_await_tool = (\<lambda>b h w. (Suc w, [\<lparr>progress_token = ''p'', progress_value = JNull\<rparr>],
       Responded (CallToolResultResponse sample_result))),
     g_late_progress = (\<lambda>b h w. (Suc w, [\<lparr>progress_token = ''p'', progress_value = JNull\<rparr>])),
     g_cancel_tool = (\<lambda>b h reason w. (w, True)),
     g_get_prompt = (\<lambda>b r w. (Suc w, Err TransportClosed)),
     g_read_resource = (\<lambda>b r w. (Suc w, Err TransportClosed)),
     g_complete = (\<lambda>b r w. (Suc w, Ok JNull))\<rparr>"

definition sample_host :: virtual_host where
  "sample_host = \<lparr>backends = [(''b'', sample_backend)],
     vh_tools = [(''t'', \<lparr>backend_name = ''b'', upstream_name = ''up''\<rparr>)],
     vh_resources = [(''r'', \<lparr>backend_name = ''b'', upstream_name = ''file:///r''\<rparr>)],
     vh_resource_templates = [], vh_prompts = []\<rparr>"

definition sample_context :: request_context where
  "sample_context = \<lparr>cx_parts = Some ((sample_request [])\<lparr>ext_virtual_host_id := Some ''vh'',
       ext_claims := Some JNull, ext_user_config := Some \<lparr>virtual_hosts = [(''vh'', sample_host)]\<rparr>\<rparr>),
     cx_protocol_version = None, cx_progress_token = Some ''mine''\<rparr>"

definition sample_gateway_world :: "nat gateway_world" where
  "sample_gateway_world = \<lparr>plugins = \<lparr>correlation_id = 0, outside = 0\<rparr>, events = []\<rparr>"

definition sample_call :: call_tool_request where
  "sample_call = \<lparr>ct_name = ''t'', ct_arguments = None\<rparr>"

theorem call_tool_trace_witness:
  "\<exists>g'. call_tool sample_gateway None sample_call sample_context sample_gateway_world = (g', Ok sample_result) \<and>
    (\<exists>vh claims route backend pre relayed.
    validate_stateless sample_context = Ok (vh, claims) \<and>
    map_of (vh_tools vh) (ct_name sample_call) = Some route \<and>
    map_of (backends vh) (backend_name route) = Some backend \<and>
    check_tool_headers sample_gateway backend (upstream_name route) sample_call sample_context = Ok () \<and>
    snd (tool_pre_hook sample_gateway None sample_call (upstream_name route) (backend_name route)
      sample_gateway_world) = Ok pre \<and>
    (if cx_progress_token sample_context = None then relayed = [] else True) \<and>
    events g' = ClosedBackend (backend_name route) # map Relayed relayed @
      Called (backend_name route) (upstream_name route) (apply_to (pre_arguments pre) (ct_arguments sample_call)) #
      Connected (backend_name route) (upstream_of sample_gateway backend sample_context) # events sample_gateway_world)"
proof -
  have "snd (call_tool sample_gateway None sample_call sample_context sample_gateway_world) = Ok sample_result"
    by (simp add: call_tool_def sample_context_def sample_request_def validate_stateless_def bind_sm_def lift_sm_def
        sample_call_def sample_host_def find_backend_def check_tool_headers_def tool_pre_hook_def
        return_sm_def default_pre_hook_result_def connect_backend_for_request_def on_backend_def sample_gateway_def
        run_backend_tool_def start_tool_call_def record_event_def tool_post_hook_def call_backend_tool_def
        close_backend_def on_progress_def progress_call_def fresh_calls_def stop_tracking_tool_call_def stream_event_post_hook_def
        shared_state_def Let_def)
  then obtain g' where "call_tool sample_gateway None sample_call sample_context sample_gateway_world = (g', Ok sample_result)"
    by (metis prod.collapse)
  from this call_tool_trace [OF this] show ?thesis by blast
qed

text \<open>
  Header mismatch: when the headers of a routed tool call do not fit its arguments, the
  call is refused with that error before any plugin runs or any backend is contacted.
\<close>

theorem call_tool_header_gate:
  assumes "validate_stateless cx = Ok (vh, claims)" and "map_of (vh_tools vh) (ct_name request) = Some route"
    and "map_of (backends vh) (backend_name route) = Some backend"
    and "check_tool_headers env backend (upstream_name route) request cx = Err e"
  shows "call_tool env rt request cx g = (g, Err e)"
  using assms by (simp add: call_tool_def bind_sm_def lift_sm_def find_backend_def)

definition sample_strict_backend :: backend_mcp_gateway where
  "sample_strict_backend = sample_backend\<lparr>tool_schemas := [(''up'',
     [(''type'', JString ''object''), (''properties'', JObject [(''n'', JObject
       [(''type'', JString ''integer''), (''x-mcp-header'', JString ''N'')])])])]\<rparr>"

definition sample_strict_context :: request_context where
  "sample_strict_context = sample_context\<lparr>cx_protocol_version := Some ''2026-07-28'',
     cx_parts := Some ((sample_request [])\<lparr>ext_virtual_host_id := Some ''vh'',
       ext_claims := Some JNull, ext_user_config := Some \<lparr>virtual_hosts = [(''vh'',
         sample_host\<lparr>backends := [(''b'', sample_strict_backend)]\<rparr>)]\<rparr>\<rparr>)\<rparr>"

abbreviation sample_strict_call :: call_tool_request where
  "sample_strict_call \<equiv> \<lparr>ct_name = ''t'', ct_arguments = Some [(''n'', JNumber (PosInt 7))]\<rparr>"

abbreviation sample_mismatch :: error_data where
  "sample_mismatch \<equiv> \<lparr>err_code = HEADER_MISMATCH,
     err_message = HeaderMessage (MissingHeader ''Mcp-Param-N'' [''n'']), err_data = None\<rparr>"

theorem call_tool_header_gate_witness:
  "check_tool_headers sample_gateway sample_strict_backend ''up'' sample_strict_call sample_strict_context =
     Err sample_mismatch \<and>
   call_tool sample_gateway (Some (Failed ''down'')) sample_strict_call sample_strict_context sample_gateway_world =
     (sample_gateway_world, Err sample_mismatch)"
proof -
  let ?host = "sample_host\<lparr>backends := [(''b'', sample_strict_backend)]\<rparr>"
  let ?route = "\<lparr>backend_name = ''b'', upstream_name = ''up''\<rparr>"
  have c: "check_tool_headers sample_gateway sample_strict_backend (upstream_name ?route) sample_strict_call
      sample_strict_context = Err sample_mismatch" by code_simp
  have v: "validate_stateless sample_strict_context = Ok (?host, JNull)"
    by (simp add: validate_stateless_def sample_strict_context_def sample_context_def)
  have "map_of (vh_tools ?host) (ct_name sample_strict_call) = Some ?route"
       "map_of (backends ?host) (backend_name ?route) = Some sample_strict_backend"
    by (simp_all add: sample_host_def)
  from call_tool_header_gate [OF v this c] c show ?thesis by simp
qed

text \<open>
  Relayed notifications: for a call without post hooks, the client gets every
  notification that the backend sent for this call, in the order they came, each under the client's
  own token and otherwise unchanged; notifications under another token are dropped and no plugin runs.
\<close>

theorem relay_progress_unhooked:
  assumes "start_tool_call send request (Some token) () None fresh_calls w = (w', calls, Ok handle)"
  shows "fst (relay_progress env calls ns hooks g) =
    g\<lparr>events := rev (map (\<lambda>n. Relayed (n\<lparr>progress_token := token\<rparr>))
      (filter (\<lambda>n. progress_token n = handle_progress_token handle) ns)) @ events g\<rparr>"
proof -
  have calls: "calls = [handle_progress_token handle \<mapsto>
      \<lparr>downstream_progress_token = token, post_state = None, downstream_peer = ()\<rparr>]"
    using assms by (auto simp: start_tool_call_def fresh_calls_def split: prod.splits sum.splits)
  show ?thesis
  proof (induction ns arbitrary: g)
    case (Cons n ns)
    then show ?case
      by (cases "progress_token n = handle_progress_token handle")
        (simp_all add: calls on_progress_def progress_call_def stream_event_post_hook_def record_event_def)
  qed simp
qed

theorem relay_progress_unhooked_witness:
  "start_tool_call (g_send_tool sample_gateway ()) sample_call (Some ''mine'') () None fresh_calls 0 =
     (1, [''p'' \<mapsto> \<lparr>downstream_progress_token = ''mine'', post_state = None, downstream_peer = ()\<rparr>],
      Ok \<lparr>handle_progress_token = ''p'', handle_request_id = 1\<rparr>) \<and>
   fst (relay_progress sample_gateway
     [''p'' \<mapsto> \<lparr>downstream_progress_token = ''mine'', post_state = None, downstream_peer = ()\<rparr>]
     [\<lparr>progress_token = ''p'', progress_value = JNull\<rparr>, \<lparr>progress_token = ''q'', progress_value = JNull\<rparr>]
     Map.empty sample_gateway_world) =
   sample_gateway_world\<lparr>events := [Relayed \<lparr>progress_token = ''mine'', progress_value = JNull\<rparr>]\<rparr>"
proof -
  have s: "start_tool_call (g_send_tool sample_gateway ()) sample_call (Some ''mine'') () None fresh_calls 0 =
     (1, [''p'' \<mapsto> \<lparr>downstream_progress_token = ''mine'', post_state = None, downstream_peer = ()\<rparr>],
      Ok \<lparr>handle_progress_token = ''p'', handle_request_id = 1\<rparr>)"
    by (simp add: start_tool_call_def sample_gateway_def fresh_calls_def)
  from s relay_progress_unhooked [OF s, of sample_gateway
      "[\<lparr>progress_token = ''p'', progress_value = JNull\<rparr>, \<lparr>progress_token = ''q'', progress_value = JNull\<rparr>]"
      Map.empty sample_gateway_world]
  show ?thesis by (simp add: sample_gateway_world_def del: relay_progress.simps)
qed

section \<open>Rewritten resources\<close>

lemma rewritten_route_cases:
  fixes uri vh
  defines "targets \<equiv> {r \<in> snd ` set (vh_resources vh). upstream_name r = uri}"
  shows "rewritten_route vh uri =
    (if targets = {} then Err (error_data INVALID_PARAMS ''Plugin resource target is not available in this virtual host'')
     else if \<exists>r \<in> targets. targets = {r} then Ok (the_elem targets)
     else Err (error_data INVALID_PARAMS ''Plugin resource target is ambiguous''))"
proof (cases "filter (\<lambda>r. upstream_name r = uri) (map snd (vh_resources vh))")
  case Nil
  then have "targets = {}" by (auto simp: targets_def filter_empty_conv)
  with Nil show ?thesis by (simp add: rewritten_route_def)
next
  case (Cons r rs)
  have t: "targets = insert r (set rs)" using arg_cong [OF Cons, of set] by (auto simp: targets_def)
  have u: "upstream_name c = uri" if "c \<in> insert r (set rs)" for c using that t by (auto simp: targets_def)
  show ?thesis
  proof (cases "list_ex (\<lambda>c. backend_name c \<noteq> backend_name r) rs")
    case True
    then obtain c where "c \<in> set rs" "c \<noteq> r" by (auto simp: list_ex_iff)
    with t have "\<not> (\<exists>r \<in> targets. targets = {r})" by auto
    with True Cons t show ?thesis by (simp add: rewritten_route_def)
  next
    case False
    then have "c = r" if "c \<in> set rs" for c using that u by (auto simp: list_ex_iff)
    with t have "targets = {r}" by auto
    with False Cons show ?thesis by (simp add: rewritten_route_def)
  qed
qed

text \<open>
  Rewritten resources do not depend on the map's order: the resources of a virtual host
  are kept in a hash map, whose iteration order is arbitrary. The target of a resource read, also when a
  plugin rewrote its URI and several routes lead to it, is the same for every order.
\<close>

theorem resource_target_order_independent:
  assumes "set (vh_resources vh) = set (vh_resources vh')"
  shows "resource_target vh route hook = resource_target vh' route hook"
proof -
  have "rewritten_route vh uri = rewritten_route vh' uri" for uri
    unfolding rewritten_route_cases assms by (rule refl)
  then have "rewritten_route vh = rewritten_route vh'" by (rule ext)
  then show ?thesis by (simp add: resource_target_def split: option.split)
qed

definition sample_shuffled :: "bool \<Rightarrow> virtual_host" where
  "sample_shuffled swapped = sample_host\<lparr>vh_resources :=
     (if swapped then rev else (\<lambda>rs. rs))
       [(''r1'', \<lparr>backend_name = ''b'', upstream_name = ''u''\<rparr>), (''r2'', \<lparr>backend_name = ''b'', upstream_name = ''u''\<rparr>)]\<rparr>"

theorem resource_target_order_independent_witness:
  "set (vh_resources (sample_shuffled False)) = set (vh_resources (sample_shuffled True)) \<and>
   vh_resources (sample_shuffled False) \<noteq> vh_resources (sample_shuffled True) \<and>
   resource_target (sample_shuffled False) \<lparr>backend_name = ''b'', upstream_name = ''v''\<rparr>
     (Some (\<lparr>rewritten_uri = Some ''u'', resource_call = None\<rparr> :: (nat, nat) resource_hook_state)) =
   resource_target (sample_shuffled True) \<lparr>backend_name = ''b'', upstream_name = ''v''\<rparr>
     (Some (\<lparr>rewritten_uri = Some ''u'', resource_call = None\<rparr> :: (nat, nat) resource_hook_state))"
proof -
  have s: "set (vh_resources (sample_shuffled False)) = set (vh_resources (sample_shuffled True))"
    "vh_resources (sample_shuffled False) \<noteq> vh_resources (sample_shuffled True)"
    by (auto simp: sample_shuffled_def)
  from s resource_target_order_independent [OF s(1)] show ?thesis by blast
qed


section \<open>A failed plugin runtime\<close>

definition stops :: "('w gateway_world, error_data, 'a) sm \<Rightarrow> bool" where
  "stops m \<longleftrightarrow> (\<forall>g. \<exists>e. m g = (g, Err e))"

lemma stops_bind: "stops m \<Longrightarrow> stops (bind_sm m f)"
  by (auto simp: stops_def bind_sm_def split: prod.splits) (metis prod.inject sum.simps(5))

lemma stops_lift_bind: "(\<And>x. r = Ok x \<Longrightarrow> stops (f x)) \<Longrightarrow> stops (bind_sm (lift_sm r) f)"
  by (cases r) (auto simp: stops_def bind_sm_def lift_sm_def)

lemma stops_on_plugins: "(\<And>w. \<exists>e. m w = (w, Err e)) \<Longrightarrow> stops (on_plugins m)"
  unfolding stops_def on_plugins_def by (metis (mono_tags, lifting) case_prod_conv gateway_world.surjective gateway_world.update_convs(1))

lemma failed_hooks:
  "\<exists>e. before_tool_call penv acc (Failed m) tool_request name backend w = (w, Err e)"
  "\<exists>e. before_get_prompt penv acc (Failed m) prompt_request name backend w = (w, Err e)"
  "\<exists>e. before_read_resource penv acc (Failed m) uri w = (w, Err e)"
  by (simp_all add: before_tool_call_def before_get_prompt_def before_read_resource_def current_runtime_def
      bind_sm_def lift_sm_def)

text \<open>
  Property C30 (failing closed): while the plugin runtime has failed to load, no tool call, prompt or
  resource request reaches a backend or a plugin: each ends with an error and changes nothing.
\<close>

theorem failed_runtime_fails_closed:
  "(\<exists>e. call_tool env (Some (Failed m)) tool_request cx g = (g, Err e)) \<and>
   (\<exists>e. get_prompt env (Some (Failed m)) prompt_request cx g = (g, Err e)) \<and>
   (\<exists>e. read_resource env (Some (Failed m)) resource_request cx g = (g, Err e))"
proof (intro conjI)
  have "stops (call_tool env (Some (Failed m)) tool_request cx)"
    unfolding call_tool_def tool_pre_hook_def case_prod_beta option.case
    by (intro stops_lift_bind; intro stops_bind stops_on_plugins failed_hooks)
  then show "\<exists>e. call_tool env (Some (Failed m)) tool_request cx g = (g, Err e)" by (simp add: stops_def)
  have "stops (get_prompt env (Some (Failed m)) prompt_request cx)"
    unfolding get_prompt_def case_prod_beta option.case
    by (intro stops_lift_bind; intro stops_bind stops_on_plugins failed_hooks)
  then show "\<exists>e. get_prompt env (Some (Failed m)) prompt_request cx g = (g, Err e)" by (simp add: stops_def)
  have "stops (read_resource env (Some (Failed m)) resource_request cx)"
    unfolding read_resource_def case_prod_beta option.case
    by (intro stops_lift_bind; intro stops_bind stops_on_plugins failed_hooks)
  then show "\<exists>e. read_resource env (Some (Failed m)) resource_request cx g = (g, Err e)" by (simp add: stops_def)
qed

end
