(* ===== verification/DataPlane.thy ===== *)
theory DataPlane
  imports Routing SecretsPlugin
begin

text \<open>
  The running gateway: the application that \<open>Gateway::into_router\<close> (\<open>lib.rs\<close>) puts together from the
  authorization service, the store of user configurations, the layers and the MCP service, as one
  state machine over HTTP requests. The router of axum, the CORS layer of tower-http and the streamable
  HTTP transport of rmcp are parameters: which paths match the MCP route, how a request is decoded,
  how a result and a refusal of the router are written.
\<close>

section \<open>Definitions\<close>

record ('jc, 'n, 'c, 'r, 'm, 'w) plane =
  pl_jwks :: "('jc, 'n) jwks"
  pl_users :: "('c, 'r) redis_store"
  pl_runtime :: "'m runtime_state option"
  pl_gateway :: "'w gateway_world"

record ('d, 'j, 'jc, 'n, 'c, 'r, 'm, 'f, 't, 'b, 'w) plane_env =
  pe_jwt :: "('d, 'j, 'jc, 'n) jwt_env"
  pe_users :: "('c, 'r, user, user_config) store_env"
  pe_gateway :: "('m, 'f, 't, 'b, 'w) gateway_env"
  pe_matches :: "string \<Rightarrow> bool"
  pe_decode :: "http_request \<Rightarrow> (mcp_request \<times> string option \<times> string option) option"
  pe_render :: "http_request \<Rightarrow> (mcp_response, error_data) result option \<Rightarrow> reply"
  pe_router_reply :: "http_request \<Rightarrow> reply"
  pe_preflight :: "http_request \<Rightarrow> reply"

text \<open>The instants at which one request reads the clock.\<close>

record instants =
  at_token :: int
  at_lookup :: int
  at_insert :: int

text \<open>\<open>ContextForgeDataPlaneAppState\<close>: the authorization service and the store as the layers call them.\<close>

definition app_state_of ::
  "('d, 'j, 'jc, 'n, 'c, 'r, 'm, 'f, 't, 'b, 'w) plane_env \<Rightarrow> instants
    \<Rightarrow> ('jc, 'n, 'c, 'r, 'm, 'w) plane app_state" where
  "app_state_of env t =
     \<lparr>app_authorize = (\<lambda>value w. case authorize (pe_jwt env) (at_token t) value (pl_jwks w) of
        (jw, r) \<Rightarrow> (w\<lparr>pl_jwks := jw\<rparr>, r)),
      app_get_config = (\<lambda>who w. case store_get_config (pe_users env) (at_lookup t) (at_insert t) who (pl_users w) of
        (st, r) \<Rightarrow> (w\<lparr>pl_users := st\<rparr>, r))\<rparr>"

text \<open>
  The nested \<open>StreamableHttpService\<close>: it sees the path below its nesting prefix, and hands the
  parts of the HTTP request to the handler with the decoded message.
\<close>

definition mcp_http_service ::
  "('d, 'j, 'jc, 'n, 'c, 'r, 'm, 'f, 't, 'b, 'w) plane_env \<Rightarrow> ('jc, 'n, 'c, 'r, 'm, 'w) plane service" where
  "mcp_http_service env w r =
     (let r = r\<lparr>req_path := ''/''\<rparr> in
      case pe_decode env r of
        None \<Rightarrow> (w, pe_render env r None)
      | Some (request, version, token) \<Rightarrow>
          (case handle_request (pe_gateway env) (pl_runtime w) request
                  \<lparr>cx_parts = Some r, cx_protocol_version = version, cx_progress_token = token\<rparr> (pl_gateway w) of
             (g, result) \<Rightarrow> (w\<lparr>pl_gateway := g\<rparr>, pe_render env r (Some result))))"

definition cors_layer :: "(http_request \<Rightarrow> reply) \<Rightarrow> 'w layer" where
  "cors_layer preflight run w r = (if req_method r = ''OPTIONS'' then (w, preflight r) else run w r)"

text \<open>
  The application: nested under \<open>/contextforge-rs\<close>, with the health route outside the layers. Layers
  run only for a path that matches the MCP route.
\<close>

definition application ::
  "('d, 'j, 'jc, 'n, 'c, 'r, 'm, 'f, 't, 'b, 'w) plane_env \<Rightarrow> standard_header_limits
    \<Rightarrow> (json \<Rightarrow> (authorized_principal, principal_error) result) \<Rightarrow> instants
    \<Rightarrow> ('jc, 'n, 'c, 'r, 'm, 'w) plane service" where
  "application env limits extractor t w r =
     (case strip_prefix ''/contextforge-rs'' (req_path r) of
        None \<Rightarrow> (w, pe_router_reply env r)
      | Some path \<Rightarrow>
          (let inner = r\<lparr>req_path := path\<rparr> in
           if path = ''/health'' then (w, if req_method r = ''GET'' then health else pe_router_reply env r)
           else if \<not> pe_matches env path then (w, pe_router_reply env r)
           else cors_layer (pe_preflight env)
             (mcp_route limits (app_state_of env t) extractor (mcp_http_service env)) w inner))"

section \<open>The life of the gateway\<close>

text \<open>
  From the state \<open>w0\<close> in which it starts, the gateway serves requests; between them the watcher
  replaces the plugin runtime and the control plane writes to Redis.
\<close>

inductive plane_reachable ::
  "('d, 'j, 'jc, 'n, 'c, 'r, 'm, 'f, 't, 'b, 'w) plane_env \<Rightarrow> standard_header_limits
    \<Rightarrow> (json \<Rightarrow> (authorized_principal, principal_error) result)
    \<Rightarrow> ('jc, 'n, 'c, 'r, 'm, 'w) plane \<Rightarrow> ('jc, 'n, 'c, 'r, 'm, 'w) plane \<Rightarrow> bool"
  for env :: "('d, 'j, 'jc, 'n, 'c, 'r, 'm, 'f, 't, 'b, 'w) plane_env" and limits extractor w0 where
  booted: "plane_reachable env limits extractor w0 w0"
| served: "plane_reachable env limits extractor w0 w \<Longrightarrow> application env limits extractor t w r = (w', rep) \<Longrightarrow>
     plane_reachable env limits extractor w0 w'"
| reloaded: "plane_reachable env limits extractor w0 w \<Longrightarrow>
     plane_reachable env limits extractor w0 (w\<lparr>pl_runtime := st\<rparr>)"
| published: "plane_reachable env limits extractor w0 w \<Longrightarrow>
     plane_reachable env limits extractor w0 (w\<lparr>pl_users := (pl_users w)\<lparr>connection := conn\<rparr>\<rparr>)"

text \<open>The layers leave the plugins and the backends alone and use the token service only to authorise.\<close>

lemma route_decision_world:
  assumes "route_decision limits (app_state_of env t) extractor w r = (w', d)"
  shows "pl_gateway w' = pl_gateway w \<and>
    (pl_jwks w' = pl_jwks w \<or> (\<exists>auth. pl_jwks w' = fst (authorize (pe_jwt env) (at_token t) auth (pl_jwks w))))"
  using assms
  unfolding route_decision_def user_decision_def store_decision_def decide_then_def limits_decision_def
    host_decision_def claims_decision_def principal_decision_def config_decision_def presence_decision_def
    app_state_of_def
  by (auto split: prod.splits sum.splits option.splits if_splits config_store_error.splits)
    (metis fst_conv)+

lemma mcp_http_service_jwks: "mcp_http_service env w r = (w', rep) \<Longrightarrow> pl_jwks w' = pl_jwks w"
  by (auto simp: mcp_http_service_def Let_def split: option.splits prod.splits)

lemma application_route:
  assumes "application env limits extractor t w r = (w', rep)"
  obtains (outside) "w' = w"
  | (route) path where "req_path r = ''/contextforge-rs'' @ path"
      "mcp_route limits (app_state_of env t) extractor (mcp_http_service env) w (r\<lparr>req_path := path\<rparr>) = (w', rep)"
  using assms
  by (auto simp: application_def cors_layer_def Let_def strip_prefix_Some split: option.splits if_splits)

lemma application_jwks:
  assumes "application env limits extractor t w r = (w', rep)"
  shows "pl_jwks w' = pl_jwks w \<or> (\<exists>auth. pl_jwks w' = fst (authorize (pe_jwt env) (at_token t) auth (pl_jwks w)))"
  using assms
proof (cases rule: application_route)
  case (route path)
  obtain w1 d where d: "route_decision limits (app_state_of env t) extractor w (r\<lparr>req_path := path\<rparr>) = (w1, d)"
    by fastforce
  from route(2) d have "pl_jwks w' = pl_jwks w1"
    by (cases d) (auto simp: mcp_route_follows follow_def dest: mcp_http_service_jwks)
  with route_decision_world [OF d] show ?thesis by simp
qed simp

lemma plane_reachable_inv:
  assumes "jwks_cache_laws (pe_jwt env) held" "\<And>keys. \<not> held (jwks_cache (pl_jwks w0)) keys"
    and "plane_reachable env limits extractor w0 w"
  shows "jwks_inv (pe_jwt env) held (pl_jwks w) \<and> validation_for (pl_jwks w) = validation_for (pl_jwks w0)"
  using assms(3)
proof (induction rule: plane_reachable.induct)
  case booted
  then show ?case using assms(2) by (simp add: jwks_inv_def)
next
  case (served w t r w' rep)
  from application_jwks [OF served.hyps(2)] served.IH show ?case
    using authorize_inv [OF assms(1)] authorize_validation by (metis prod.collapse)
qed simp_all

text \<open>
  The chain behind a request for a virtual host \<open>host\<close>: its path names the host, it is within the
  limits, its bearer token is verified by a published key under the checks of \<open>w0\<close>, the claims name a
  principal, and the store serves that user a configuration with the host.
\<close>

definition backed ::
  "('d, 'j, 'jc, 'n, 'c, 'r, 'm, 'f, 't, 'b, 'w) plane_env \<Rightarrow> standard_header_limits
    \<Rightarrow> (json \<Rightarrow> (authorized_principal, principal_error) result) \<Rightarrow> ('jc, 'n, 'c, 'r, 'm, 'w) plane
    \<Rightarrow> instants \<Rightarrow> ('jc, 'n, 'c, 'r, 'm, 'w) plane \<Rightarrow> http_request \<Rightarrow> virtual_host \<Rightarrow> bool" where
  "backed env limits extractor w0 t w r host \<longleftrightarrow>
     (\<exists>vh tok header key claims p config.
        req_path r = ''/contextforge-rs/servers/'' @ vh @ ''/mcp'' \<and>
        exceeded_limits (req_headers r) limits = None \<and>
        header_get (req_headers r) ''authorization'' = Some (''Bearer '' @ tok) \<and>
        decode_header (pe_jwt env) tok = Some header \<and> family_of_alg (pe_jwt env) (alg header) \<in> {Rsa, Ec} \<and>
        sound_key (pe_jwt env) key \<and> matches (pe_jwt env) header key \<and>
        decode_token (pe_jwt env) (at_token t) tok (decoding_key key)
          (validation_for (pl_jwks w0) (alg header)) = Some claims \<and>
        extractor claims = Ok p \<and>
        snd (store_get_config (pe_users env) (at_lookup t) (at_insert t) (new_user (principal_user_id p))
          (pl_users w)) = Ok config \<and>
        map_of (virtual_hosts config) vh = Some host)"

lemma admitted_backed:
  assumes "jwks_cache_laws (pe_jwt env) held" "\<And>keys. \<not> held (jwks_cache (pl_jwks w0)) keys"
    and "plane_reachable env limits extractor w0 w"
    and "req_path r = ''/contextforge-rs'' @ path"
    and "admission limits (app_state_of env t) extractor w (r\<lparr>req_path := path\<rparr>) w1 r1"
  obtains host claims where "backed env limits extractor w0 t w r host" "req_headers r1 = req_headers r"
    "\<And>version tok. validate_stateless \<lparr>cx_parts = Some (r1\<lparr>req_path := ''/''\<rparr>), cx_protocol_version = version,
       cx_progress_token = tok\<rparr> = Ok (host, claims)"
proof -
  from assms(5) obtain vh auth claims p config w2 where
    a: "exceeded_limits (req_headers r) limits = None" "path = ''/servers/'' @ vh @ ''/mcp''"
      "header_get (req_headers r) ''authorization'' = Some auth"
      "app_authorize (app_state_of env t) auth w = (w2, Some claims)" "extractor claims = Ok p"
      "app_get_config (app_state_of env t) (new_user (principal_user_id p)) w2 = (w1, Ok config)"
      "map_of (virtual_hosts config) vh \<noteq> None"
      "r1 = r\<lparr>req_path := path, ext_virtual_host_id := Some vh, ext_claims := Some claims, ext_principal := Some p,
               ext_user_config := Some config\<rparr>"
    unfolding admission_def by auto
  from a(4) obtain jw where jw: "authorize (pe_jwt env) (at_token t) auth (pl_jwks w) = (jw, Some claims)"
    "w2 = w\<lparr>pl_jwks := jw\<rparr>" by (auto simp: app_state_of_def split: prod.splits)
  from a(6) jw(2) have st: "snd (store_get_config (pe_users env) (at_lookup t) (at_insert t)
      (new_user (principal_user_id p)) (pl_users w)) = Ok config"
    by (auto simp: app_state_of_def split: prod.splits)
  from a(7) obtain host where host: "map_of (virtual_hosts config) vh = Some host" by blast
  from plane_reachable_inv [OF assms(1-3)]
  have inv: "jwks_inv (pe_jwt env) held (pl_jwks w)" "validation_for (pl_jwks w) = validation_for (pl_jwks w0)"
    by blast+
  from authorize_accepts [OF assms(1) inv(1) jw(1)] inv(2) a(1,2,3,5) st host assms(4)
  have "backed env limits extractor w0 t w r host" unfolding backed_def by fastforce
  with that host a(8) show thesis by (simp add: validate_stateless_def)
qed

lemma mcp_http_service_events:
  assumes "mcp_http_service env w r = (w', rep)"
  shows "\<exists>new. events (pl_gateway w') = new @ events (pl_gateway w) \<and>
    (new = [] \<or> (\<exists>version token. list_all (own_event (pe_gateway env)
       \<lparr>cx_parts = Some (r\<lparr>req_path := ''/''\<rparr>), cx_protocol_version = version, cx_progress_token = token\<rparr>) new))"
proof (cases "pe_decode env (r\<lparr>req_path := ''/''\<rparr>)")
  case None
  with assms show ?thesis by (auto simp: mcp_http_service_def Let_def)
next
  case (Some x)
  obtain request version token where x: "x = (request, version, token)" using prod_cases3 by blast
  let ?cx = "\<lparr>cx_parts = Some (r\<lparr>req_path := ''/''\<rparr>), cx_protocol_version = version, cx_progress_token = token\<rparr>"
  from handle_request_own [of "pe_gateway env" ?cx "pl_runtime w" request]
  obtain new where "events (fst (handle_request (pe_gateway env) (pl_runtime w) request ?cx (pl_gateway w))) =
      new @ events (pl_gateway w)" "list_all (own_event (pe_gateway env) ?cx) new"
    unfolding appends_def by blast
  with assms Some x show ?thesis by (auto simp: mcp_http_service_def Let_def split: prod.splits)
qed

text \<open>
  Property C1 (end to end): in every reachable state of the gateway, whatever a request causes at a
  backend is backed by the whole chain. The request is addressed to a virtual host; it is within the
  header limits and carries a bearer token that a published RSA or EC key verifies, with the checks fixed
  at start; the claims name a principal, the store serves a configuration for that very user, the
  virtual host is in it, and each thing done to a backend is what that virtual host permits. Any
  other request leaves the backends alone.
\<close>

theorem served_end_to_end:
  assumes "jwks_cache_laws (pe_jwt env) held" and "\<And>keys. \<not> held (jwks_cache (pl_jwks w0)) keys"
    and "plane_reachable env limits extractor w0 w"
    and "application env limits extractor t w r = (w', rep)"
  shows "\<exists>new. events (pl_gateway w') = new @ events (pl_gateway w) \<and>
    (new = [] \<or> (\<exists>host cx. backed env limits extractor w0 t w r host \<and>
       map_option req_headers (cx_parts cx) = Some (req_headers r) \<and>
       list_all (permitted (pe_gateway env) host (host_routes host) cx) new))"
  using assms(4)
proof (cases rule: application_route)
  case (route path)
  let ?r = "r\<lparr>req_path := path\<rparr>"
  obtain w1 d where d: "route_decision limits (app_state_of env t) extractor w ?r = (w1, d)" by fastforce
  note world = route_decision_world [OF d]
  show ?thesis
  proof (cases d)
    case (Inl refused)
    with d route(2) world show ?thesis by (auto simp: mcp_route_follows follow_def)
  next
    case (Inr r1)
    with d route(2) have run: "mcp_http_service env w1 r1 = (w', rep)"
      by (simp add: mcp_route_follows follow_def)
    from d Inr have adm: "admission limits (app_state_of env t) extractor w ?r w1 r1"
      by (simp flip: route_decision_Inr)
    from admitted_backed [OF assms(1-3) route(1) adm] obtain host claims where
      b: "backed env limits extractor w0 t w r host" "req_headers r1 = req_headers r"
        "\<And>version tok. validate_stateless \<lparr>cx_parts = Some (r1\<lparr>req_path := ''/''\<rparr>),
           cx_protocol_version = version, cx_progress_token = tok\<rparr> = Ok (host, claims)" by blast
    from mcp_http_service_events [OF run] world obtain new where
      new: "events (pl_gateway w') = new @ events (pl_gateway w)" and
      own: "new = [] \<or> (\<exists>version tok. list_all (own_event (pe_gateway env)
        \<lparr>cx_parts = Some (r1\<lparr>req_path := ''/''\<rparr>), cx_protocol_version = version, cx_progress_token = tok\<rparr>) new)"
      by auto
    from own b(3) have "new = [] \<or> (\<exists>version tok. list_all (permitted (pe_gateway env) host (host_routes host)
        \<lparr>cx_parts = Some (r1\<lparr>req_path := ''/''\<rparr>), cx_protocol_version = version, cx_progress_token = tok\<rparr>) new)"
      by (auto simp: own_event_def list_all_iff)
    then show ?thesis
    proof
      assume "new = []"
      with new show ?thesis by simp
    next
      assume "\<exists>version tok. list_all (permitted (pe_gateway env) host (host_routes host)
        \<lparr>cx_parts = Some (r1\<lparr>req_path := ''/''\<rparr>), cx_protocol_version = version, cx_progress_token = tok\<rparr>) new"
      then obtain version tok where "list_all (permitted (pe_gateway env) host (host_routes host)
        \<lparr>cx_parts = Some (r1\<lparr>req_path := ''/''\<rparr>), cx_protocol_version = version, cx_progress_token = tok\<rparr>) new"
        by blast
      moreover have "map_option req_headers (cx_parts \<lparr>cx_parts = Some (r1\<lparr>req_path := ''/''\<rparr>),
          cx_protocol_version = version, cx_progress_token = tok\<rparr>) = Some (req_headers r)" using b(2) by simp
      ultimately show ?thesis using new b(1) by blast
    qed
  qed
qed simp

text \<open>A gateway with one user, whose virtual host \<open>vh\<close> has one tool, and a call of that tool.\<close>

definition sample_plane_env ::
  "(string, string, string verification_key list option, nat, unit, nat, nat, unit, nat, unit, nat) plane_env" where
  "sample_plane_env = \<lparr>
     pe_jwt = sample_jwt\<lparr>decode_token := \<lambda>now t d v. if t = d then
       Some (JObject [(''sub'', JString ''ann''), (''tenant_id'', JString ''t'')]) else None\<rparr>,
     pe_users = \<lparr>key_of = user_key_of, encode_key = (\<lambda>u. Some (user_key_of u)), encode_value = (\<lambda>_. None),
       decode_value = (\<lambda>_. Some \<lparr>virtual_hosts = [(''vh'', sample_host)]\<rparr>), lru_new = (\<lambda>_ _. ()),
       lru_get_mut = (\<lambda>_ c. (c, None)), lru_insert = (\<lambda>_ _ c. c),
       redis_get = (\<lambda>k r. (r, Some (Some []))), redis_set = (\<lambda>k v r. (r, True))\<rparr>,
     pe_gateway = sample_gateway, pe_matches = (\<lambda>_. True),
     pe_decode = (\<lambda>r. Some (CallTool sample_call, None, None)), pe_render = (\<lambda>r result. health),
     pe_router_reply = (\<lambda>r. custom_error 404 []), pe_preflight = (\<lambda>r. health)\<rparr>"

definition sample_plane ::
  "(string verification_key list option, nat, unit, nat, nat, nat) plane" where
  "sample_plane = \<lparr>pl_jwks = sample_jwks,
     pl_users = \<lparr>connection = 0, cache = None, cache_expiry = 0\<rparr>, pl_runtime = None, pl_gateway = sample_gateway_world\<rparr>"

definition sample_http :: http_request where
  "sample_http = (sample_request [(''authorization'', ''Bearer rsa'')])
     \<lparr>req_path := ''/contextforge-rs/servers/vh/mcp''\<rparr>"

definition sample_instants :: instants where "sample_instants = \<lparr>at_token = 1, at_lookup = 2, at_insert = 3\<rparr>"

abbreviation sample_limits :: standard_header_limits where "sample_limits \<equiv> limits_from_config 0 0 0"

lemma sample_admitted:
  "\<exists>w1. admission sample_limits (app_state_of sample_plane_env sample_instants) default_extract sample_plane
     (sample_http\<lparr>req_path := ''/servers/vh/mcp''\<rparr>) w1
     (sample_http\<lparr>req_path := ''/servers/vh/mcp'', ext_virtual_host_id := Some ''vh'',
       ext_claims := Some (JObject [(''sub'', JString ''ann''), (''tenant_id'', JString ''t'')]),
       ext_principal := Some \<lparr>principal_user_id = ''ann'', principal_tenant_id = ''t'', principal_scopes = []\<rparr>,
       ext_user_config := Some \<lparr>virtual_hosts = [(''vh'', sample_host)]\<rparr>\<rparr>) \<and>
     pl_gateway w1 = sample_gateway_world \<and> pl_runtime w1 = None"
proof -
  let ?claims = "JObject [(''sub'', JString ''ann''), (''tenant_id'', JString ''t'')]"
  have l: "exceeded_limits [(''authorization'', ''Bearer rsa'')] sample_limits = None" by code_simp
  have "snd (authorize (pe_jwt sample_plane_env) 1 ''Bearer rsa'' sample_jwks) = Some ?claims" by code_simp
  then obtain jw where a: "authorize (pe_jwt sample_plane_env) 1 ''Bearer rsa'' sample_jwks = (jw, Some ?claims)"
    by (metis prod.collapse)
  have e: "default_extract ?claims = Ok \<lparr>principal_user_id = ''ann'', principal_tenant_id = ''t'', principal_scopes = []\<rparr>"
    by code_simp
  have s: "store_get_config (pe_users sample_plane_env) 2 3 (new_user ''ann'') (pl_users sample_plane) =
      (pl_users sample_plane, Ok \<lparr>virtual_hosts = [(''vh'', sample_host)]\<rparr>)" 
    by (simp add: store_get_config_def cache_lookup_def load_config_def remember_def sample_plane_env_def sample_plane_def)
  have w: "app_authorize (app_state_of sample_plane_env sample_instants) ''Bearer rsa'' sample_plane =
      (sample_plane\<lparr>pl_jwks := jw\<rparr>, Some ?claims)"
    using a by (simp add: app_state_of_def sample_instants_def sample_plane_def)
  have g: "app_get_config (app_state_of sample_plane_env sample_instants) (new_user ''ann'') (sample_plane\<lparr>pl_jwks := jw\<rparr>) =
      (sample_plane\<lparr>pl_jwks := jw\<rparr>, Ok \<lparr>virtual_hosts = [(''vh'', sample_host)]\<rparr>)"
    using s by (simp add: app_state_of_def sample_instants_def)
  have h: "req_headers sample_http = [(''authorization'', ''Bearer rsa'')]" 
    "header_get [(''authorization'', ''Bearer rsa'')] ''authorization'' = Some ''Bearer rsa''"
    by (simp_all add: sample_http_def sample_request_def header_get_def get_all_def)
  have "pl_gateway sample_plane = sample_gateway_world" "pl_runtime sample_plane = None" by (simp_all add: sample_plane_def)
  with l e w g h show ?thesis unfolding admission_def
    by (intro exI [of _ "sample_plane\<lparr>pl_jwks := jw\<rparr>"]) auto
qed

abbreviation sample_http_context :: request_context where
  "sample_http_context \<equiv> \<lparr>cx_parts = Some sample_http, cx_protocol_version = None, cx_progress_token = None\<rparr>"

lemma sample_served:
  "\<exists>w' rep. application sample_plane_env sample_limits default_extract sample_instants sample_plane sample_http =
      (w', rep) \<and>
     events (pl_gateway w') = [ClosedBackend ''b'', Called ''b'' ''up'' None,
       Connected ''b'' (upstream_of sample_gateway sample_backend sample_http_context)]"
proof -
  have a: "application sample_plane_env sample_limits default_extract sample_instants sample_plane sample_http =
     mcp_route sample_limits (app_state_of sample_plane_env sample_instants) default_extract
      (mcp_http_service sample_plane_env) sample_plane (sample_http\<lparr>req_path := ''/servers/vh/mcp''\<rparr>)"
    by (simp add: application_def sample_http_def sample_request_def strip_prefix_def cors_layer_def sample_plane_env_def Let_def)
  from sample_admitted obtain w1 r1 where adm:
    "admission sample_limits (app_state_of sample_plane_env sample_instants) default_extract sample_plane
     (sample_http\<lparr>req_path := ''/servers/vh/mcp''\<rparr>) w1 r1" "pl_gateway w1 = sample_gateway_world" "pl_runtime w1 = None"
     "r1 = (sample_http\<lparr>req_path := ''/servers/vh/mcp'', ext_virtual_host_id := Some ''vh'',
       ext_claims := Some (JObject [(''sub'', JString ''ann''), (''tenant_id'', JString ''t'')]),
       ext_principal := Some \<lparr>principal_user_id = ''ann'', principal_tenant_id = ''t'', principal_scopes = []\<rparr>,
       ext_user_config := Some \<lparr>virtual_hosts = [(''vh'', sample_host)]\<rparr>\<rparr>)" by blast
  have m: "mcp_route sample_limits (app_state_of sample_plane_env sample_instants) default_extract
      (mcp_http_service sample_plane_env) sample_plane (sample_http\<lparr>req_path := ''/servers/vh/mcp''\<rparr>) =
      mcp_http_service sample_plane_env w1 r1"
    using adm(1) by (simp add: mcp_route_follows follow_def flip: route_decision_Inr)
  have "events (pl_gateway (fst (mcp_http_service sample_plane_env w1 r1))) =
      [ClosedBackend ''b'', Called ''b'' ''up'' None,
       Connected ''b'' (upstream_of sample_gateway sample_backend sample_http_context)]"
    using adm(2,3,4)
    by (simp add: mcp_http_service_def sample_plane_env_def Let_def map_sm_def)
      (simp add: call_tool_def validate_stateless_def bind_sm_def lift_sm_def
        sample_call_def sample_host_def find_backend_def check_tool_headers_def tool_pre_hook_def
        return_sm_def default_pre_hook_result_def connect_backend_for_request_def on_backend_def sample_gateway_def
        run_backend_tool_def start_tool_call_def record_event_def tool_post_hook_def call_backend_tool_def
        close_backend_def on_progress_def progress_call_def fresh_calls_def stop_tracking_tool_call_def stream_event_post_hook_def
        shared_state_def Let_def apply_to_def sample_gateway_world_def upstream_of_def)
  with a m show ?thesis by (metis prod.collapse)
qed

theorem served_end_to_end_witness:
  "plane_reachable sample_plane_env sample_limits default_extract sample_plane sample_plane \<and>
   (\<exists>w' rep new. application sample_plane_env sample_limits default_extract sample_instants sample_plane sample_http =
      (w', rep) \<and> events (pl_gateway w') = new @ events (pl_gateway sample_plane) \<and> length new = 3 \<and>
      (\<exists>host cx. backed sample_plane_env sample_limits default_extract sample_plane sample_instants sample_plane
         sample_http host \<and> map_option req_headers (cx_parts cx) = Some (req_headers sample_http) \<and>
         list_all (permitted (pe_gateway sample_plane_env) host (host_routes host) cx) new))"
proof -
  have laws: "jwks_cache_laws (pe_jwt sample_plane_env) (\<lambda>c keys. c = Some keys)"
    using sample_jwt_laws by (simp add: jwks_cache_laws_def sample_plane_env_def)
  have empty: "\<not> jwks_cache (pl_jwks sample_plane) = Some keys" for keys
    by (simp add: sample_plane_def sample_jwks_def)
  have start: "plane_reachable sample_plane_env sample_limits default_extract sample_plane sample_plane"
    by (rule plane_reachable.booted)
  from sample_served obtain w' rep where s:
    "application sample_plane_env sample_limits default_extract sample_instants sample_plane sample_http = (w', rep)"
    "length (events (pl_gateway w')) = 3" by fastforce
  have "events (pl_gateway sample_plane) = []" by (simp add: sample_plane_def sample_gateway_world_def)
  with served_end_to_end [OF laws empty start s(1)] s(2) have "\<exists>new. events (pl_gateway w') = new @ events (pl_gateway sample_plane) \<and>
      length new = 3 \<and> (\<exists>host cx. backed sample_plane_env sample_limits default_extract sample_plane sample_instants sample_plane
         sample_http host \<and> map_option req_headers (cx_parts cx) = Some (req_headers sample_http) \<and>
         list_all (permitted (pe_gateway sample_plane_env) host (host_routes host) cx) new)" by auto
  with start s(1) show ?thesis by blast
qed

end
