(* ===== verification/Listeners.thy ===== *)
theory Listeners
  imports Startup DataPlane
begin

text \<open>
  The listeners (\<open>transports/tcp.rs\<close>, \<open>transports/tls.rs\<close>) and the end of \<open>Gateway::run_gateway\<close>
  (\<open>lib.rs\<close>): binding, the accept loop of the TLS listener with the tasks it spawns, and the joined
  handlers, as a state machine over what the network and the operator do. The socket calls of
  the operating system and \<open>axum::serve\<close>, which runs the plain listener, are parameters.
\<close>

section \<open>Definitions\<close>

subsection \<open>Binding\<close>

type_synonym io_error = string

record ('s, 'l) socket_ops =
  is_ipv4 :: "string \<Rightarrow> bool"
  new_v4 :: "('s, io_error) result"
  new_v6 :: "('s, io_error) result"
  set_reuseaddr :: "bool \<Rightarrow> 's \<Rightarrow> ('s, io_error) result"
  set_keepalive :: "bool \<Rightarrow> 's \<Rightarrow> ('s, io_error) result"
  set_reuseport :: "bool \<Rightarrow> 's \<Rightarrow> ('s, io_error) result"
  has_reuseport :: bool
  bind_socket :: "string \<Rightarrow> 's \<Rightarrow> ('s, io_error) result"
  listen_socket :: "nat \<Rightarrow> 's \<Rightarrow> ('l, io_error) result"

text \<open>\<open>TryInto<TcpListener> for Tcp\<close>; \<open>has_reuseport\<close> is the condition of its \<open>cfg\<close> attribute.\<close>

definition tcp_try_into :: "('s, 'l) socket_ops \<Rightarrow> string \<Rightarrow> ('l, io_error) result" where
  "tcp_try_into os addr =
     bind_res (if is_ipv4 os addr then new_v4 os else new_v6 os) (\<lambda>socket.
     bind_res (set_reuseaddr os True socket) (\<lambda>socket.
     bind_res (set_keepalive os True socket) (\<lambda>socket.
     bind_res (if has_reuseport os then set_reuseport os True socket else Ok socket) (\<lambda>socket.
     bind_res (bind_socket os addr socket) (\<lambda>socket.
     listen_socket os 1024 socket)))))"

subsection \<open>The TLS accept loop\<close>

text \<open>
  What can happen: the branches of the \<open>select!\<close> of \<open>handle_tls\<close> (a connection accepted from an
  address, a failed accept, ctrl-c), the progress of the task spawned for the \<open>k\<close>-th accepted
  connection (its handshake ends, a request arrives, the connection ends), and a request on the
  plain listener.
\<close>

datatype 'q net_event =
    Accepted string
  | AcceptFailed io_error
  | CtrlC
  | Handshake nat bool
  | TlsRequest nat 'q
  | ConnectionEnd nat "io_error option"
  | TcpRequest 'q

datatype task_state = Handshaking | Serving | Finished

record tls_task =
  task_addr :: string
  task_state :: task_state

record tls_listener =
  tls_returned :: "(unit, io_error) result option"
  tls_tasks :: "tls_task list"

definition listening :: tls_listener where
  "listening = \<lparr>tls_returned = None, tls_tasks = []\<rparr>"

definition task_at :: "nat \<Rightarrow> tls_listener \<Rightarrow> task_state option" where
  "task_at k l = (if k < length (tls_tasks l) then Some (task_state (tls_tasks l ! k)) else None)"

definition task_becomes :: "nat \<Rightarrow> task_state \<Rightarrow> tls_listener \<Rightarrow> tls_listener" where
  "task_becomes k s l = l\<lparr>tls_tasks := (tls_tasks l)[k := (tls_tasks l ! k)\<lparr>task_state := s\<rparr>]\<rparr>"

text \<open>
  One event at \<open>handle_tls\<close>; \<open>None\<close> if it cannot happen. Only a running loop accepts or fails, and it
  notices ctrl-c; spawned tasks are detached and go on after it returned. A failed accept returns
  its error, whatever it is.
\<close>

fun tls_step :: "'q net_event \<Rightarrow> tls_listener \<Rightarrow> tls_listener option" where
  "tls_step (Accepted addr) l =
     (if tls_returned l = None
      then Some (l\<lparr>tls_tasks := tls_tasks l @ [\<lparr>task_addr = addr, task_state = Handshaking\<rparr>]\<rparr>) else None)"
| "tls_step (AcceptFailed e) l = (if tls_returned l = None then Some (l\<lparr>tls_returned := Some (Err e)\<rparr>) else None)"
| "tls_step CtrlC l = Some (if tls_returned l = None then l\<lparr>tls_returned := Some (Ok ())\<rparr> else l)"
| "tls_step (Handshake k ok) l =
     (if task_at k l = Some Handshaking then Some (task_becomes k (if ok then Serving else Finished) l) else None)"
| "tls_step (TlsRequest k q) l = (if task_at k l = Some Serving then Some l else None)"
| "tls_step (ConnectionEnd k err) l =
     (if task_at k l = Some Serving then Some (task_becomes k Finished l) else None)"
| "tls_step (TcpRequest q) l = Some l"

subsection \<open>The joined handlers\<close>

text \<open>
  A handler of \<open>run_gateway\<close>: \<open>handle_tcp\<close> and \<open>handle_tls\<close> return at once if the address cannot be
  bound; \<open>handle_tcp\<close> then runs \<open>axum::serve\<close>, which returns or not depending on what has happened so
  far.
\<close>

datatype 'l handler = TcpHandler "('l, io_error) result" | TlsHandler "(tls_listener, io_error) result"

record ('w, 'l, 'q, 'p) gateway_run =
  gr_world :: 'w
  gr_handlers :: "'l handler list"
  gr_history :: "'q net_event list"
  gr_replies :: "'p list"

type_synonym ('l, 'q) axum_serve = "'l \<Rightarrow> 'q net_event list \<Rightarrow> (unit, io_error) result option"

definition start_handler :: "('s, 'l) socket_ops \<Rightarrow> listener \<Rightarrow> 'l handler" where
  "start_handler os ls =
     (case ls of
        TcpListener addr \<Rightarrow> TcpHandler (tcp_try_into os addr)
      | TlsListener addr \<Rightarrow> TlsHandler (map_sum (\<lambda>e. e) (\<lambda>_. listening) (tcp_try_into os addr)))"

definition handle_tcp ::
  "('l, 'q) axum_serve \<Rightarrow> 'q net_event list \<Rightarrow> ('l, io_error) result \<Rightarrow> (unit, io_error) result option" where
  "handle_tcp serve history bound =
     (case bound of Err e \<Rightarrow> Some (Err e) | Ok tcp_listener \<Rightarrow> serve tcp_listener history)"

definition handle_tls :: "(tls_listener, io_error) result \<Rightarrow> (unit, io_error) result option" where
  "handle_tls bound = (case bound of Err e \<Rightarrow> Some (Err e) | Ok l \<Rightarrow> tls_returned l)"

definition handler_result ::
  "('l, 'q) axum_serve \<Rightarrow> 'q net_event list \<Rightarrow> 'l handler \<Rightarrow> (unit, io_error) result option" where
  "handler_result serve history h =
     (case h of TcpHandler bound \<Rightarrow> handle_tcp serve history bound | TlsHandler bound \<Rightarrow> handle_tls bound)"

definition join_all :: "'x option list \<Rightarrow> 'x list option" where
  "join_all rs = (if None \<in> set rs then None else Some (map the rs))"

text \<open>What \<open>run_gateway\<close> returns, once it does: the joined results are dropped.\<close>

definition gateway_returned ::
  "('l, 'q) axum_serve \<Rightarrow> ('w, 'l, 'q, 'p) gateway_run \<Rightarrow> (unit, boot_error) result option" where
  "gateway_returned serve g =
     map_option (\<lambda>_. Ok ()) (join_all (map (handler_result serve (gr_history g)) (gr_handlers g)))"

definition gateway_start ::
  "('s, 'l) socket_ops \<Rightarrow> 'w \<Rightarrow> listener list \<Rightarrow> ('w, 'l, 'q, 'p) gateway_run" where
  "gateway_start os w ls =
     \<lparr>gr_world = w, gr_handlers = map (start_handler os) ls, gr_history = [], gr_replies = []\<rparr>"

text \<open>One event at a handler; the events of the TLS listener need one that is bound.\<close>

definition is_tls_event :: "'q net_event \<Rightarrow> bool" where
  "is_tls_event e = (case e of CtrlC \<Rightarrow> False | TcpRequest q \<Rightarrow> False | _ \<Rightarrow> True)"

fun handler_step :: "'q net_event \<Rightarrow> 'l handler \<Rightarrow> 'l handler option" where
  "handler_step e (TlsHandler (Ok l)) = map_option (\<lambda>l. TlsHandler (Ok l)) (tls_step e l)"
| "handler_step e h = Some h"

definition handles :: "('l, 'q) axum_serve \<Rightarrow> 'q net_event list \<Rightarrow> 'q net_event \<Rightarrow> 'l handler \<Rightarrow> bool" where
  "handles serve history e h =
     (case h of
        TlsHandler (Ok l) \<Rightarrow> is_tls_event e
      | TcpHandler (Ok t) \<Rightarrow> (case e of TcpRequest q \<Rightarrow> serve t history = None | _ \<Rightarrow> False)
      | _ \<Rightarrow> False)"

definition served_request :: "'q net_event \<Rightarrow> 'q option" where
  "served_request e = (case e of TlsRequest k q \<Rightarrow> Some q | TcpRequest q \<Rightarrow> Some q | _ \<Rightarrow> None)"

text \<open>
  One event of the process. It ends when \<open>run_gateway\<close> returns: then nothing happens any more. A
  request, on either listener, is answered by the shared service.
\<close>

definition gateway_step ::
  "('w \<Rightarrow> 'q \<Rightarrow> 'w \<times> 'p) \<Rightarrow> ('l, 'q) axum_serve \<Rightarrow> 'q net_event \<Rightarrow> ('w, 'l, 'q, 'p) gateway_run
    \<Rightarrow> ('w, 'l, 'q, 'p) gateway_run option" where
  "gateway_step service serve e g =
     (if gateway_returned serve g \<noteq> None \<or>
         e \<noteq> CtrlC \<and> \<not> list_ex (handles serve (gr_history g) e) (gr_handlers g) then None
      else Option.bind (those (map (handler_step e) (gr_handlers g))) (\<lambda>hs.
        let g = g\<lparr>gr_handlers := hs, gr_history := gr_history g @ [e]\<rparr> in
        case served_request e of
          None \<Rightarrow> Some g
        | Some q \<Rightarrow> (case service (gr_world g) q of (w, reply) \<Rightarrow>
            Some (g\<lparr>gr_world := w, gr_replies := gr_replies g @ [reply]\<rparr>))))"

fun gateway_runs ::
  "('w \<Rightarrow> 'q \<Rightarrow> 'w \<times> 'p) \<Rightarrow> ('l, 'q) axum_serve \<Rightarrow> 'q net_event list \<Rightarrow> ('w, 'l, 'q, 'p) gateway_run
    \<Rightarrow> ('w, 'l, 'q, 'p) gateway_run option" where
  "gateway_runs service serve [] g = Some g"
| "gateway_runs service serve (e # es) g =
     Option.bind (gateway_step service serve e g) (gateway_runs service serve es)"

section \<open>The accept loop\<close>

text \<open>How the loop ends: at the first failed accept, with its error, or at the first ctrl-c.\<close>

fun loop_outcome :: "'q net_event list \<Rightarrow> (unit, io_error) result option" where
  "loop_outcome [] = None"
| "loop_outcome (CtrlC # es) = Some (Ok ())"
| "loop_outcome (AcceptFailed e # es) = Some (Err e)"
| "loop_outcome (e # es) = loop_outcome es"

fun accepted :: "'q net_event list \<Rightarrow> string list" where
  "accepted [] = []"
| "accepted (Accepted addr # es) = addr # accepted es"
| "accepted (e # es) = accepted es"

lemma accepted_append [simp]: "accepted (es @ es') = accepted es @ accepted es'"
  by (induction es rule: accepted.induct) simp_all

lemma loop_outcome_append:
  "loop_outcome (es @ es') = (case loop_outcome es of None \<Rightarrow> loop_outcome es' | Some r \<Rightarrow> Some r)"
  by (induction es rule: loop_outcome.induct) simp_all

fun tls_runs :: "'q net_event list \<Rightarrow> tls_listener \<Rightarrow> tls_listener option" where
  "tls_runs [] l = Some l"
| "tls_runs (e # es) l = Option.bind (tls_step e l) (tls_runs es)"

lemma tls_runs_snoc: "tls_runs (es @ [e]) l = Option.bind (tls_runs es l) (tls_step e)"
proof (induction es arbitrary: l)
  case (Cons x es)
  then show ?case by (cases "tls_step x l") simp_all
qed (simp add: bind_option_cong)

definition connection_ended :: "nat \<Rightarrow> 'q net_event list \<Rightarrow> bool" where
  "connection_ended k es = list_ex (\<lambda>e. case e of ConnectionEnd j err \<Rightarrow> j = k | _ \<Rightarrow> False) es"

lemma connection_ended_iff: "connection_ended k es \<longleftrightarrow> (\<exists>err. ConnectionEnd k err \<in> set es)"
  by (induction es) (auto simp: connection_ended_def split: net_event.splits)

lemma connection_ended_snoc [simp]:
  "connection_ended k (es @ [e]) \<longleftrightarrow> connection_ended k es \<or> (\<exists>err. e = ConnectionEnd k err)"
  by (auto simp: connection_ended_iff)

text \<open>What a history says of the task of the \<open>k\<close>-th connection.\<close>

definition task_after :: "'q net_event list \<Rightarrow> nat \<Rightarrow> task_state option" where
  "task_after es k =
     (if length (accepted es) \<le> k then None
      else if Handshake k True \<in> set es
        then Some (if connection_ended k es then Finished else Serving)
      else if Handshake k False \<in> set es then Some Finished
      else Some Handshaking)"

lemma task_at_becomes:
  "task_at k l \<noteq> None \<Longrightarrow> task_at j (task_becomes k s l) = (if j = k then Some s else task_at j l)"
  by (auto simp: task_at_def task_becomes_def split: if_splits)

lemma task_addrs_becomes:
  "task_at k l \<noteq> None \<Longrightarrow> map task_addr (tls_tasks (task_becomes k s l)) = map task_addr (tls_tasks l) \<and>
     tls_returned (task_becomes k s l) = tls_returned l"
  by (auto simp: task_at_def task_becomes_def map_update list_update_same_conv split: if_splits)

lemma task_at_accept:
  "task_at j (l\<lparr>tls_tasks := tls_tasks l @ [t]\<rparr>) =
     (if j = length (tls_tasks l) then Some (task_state t) else task_at j l)"
  by (auto simp: task_at_def nth_append)

lemma task_at_returned [simp]: "task_at j (l\<lparr>tls_returned := r\<rparr>) = task_at j l"
  by (simp add: task_at_def)

lemma task_at_listening [simp]: "task_at j listening = None"
  by (simp add: task_at_def listening_def)

lemma task_after_Nil [simp]: "task_after [] k = None"
  by (simp add: task_after_def)

lemma task_after_Some: "k < length (accepted es) \<longleftrightarrow> task_after es k \<noteq> None"
  by (simp add: task_after_def)

text \<open>
  The history of a task: nothing of it happens before its connection is accepted, its handshake ends
  once, and it ends once, as a task that serves.
\<close>

definition tasks_ordered :: "'q net_event list \<Rightarrow> bool" where
  "tasks_ordered es \<longleftrightarrow> (\<forall>k ok. Handshake k ok \<in> set es \<longrightarrow> k < length (accepted es)) \<and>
     (\<forall>k. connection_ended k es \<longrightarrow> Handshake k True \<in> set es)"

lemma tls_loop_inv:
  assumes "tls_runs es listening = Some l"
  shows "tls_returned l = loop_outcome es \<and> map task_addr (tls_tasks l) = accepted es \<and>
    (\<forall>k. task_at k l = task_after es k) \<and> tasks_ordered es"
  using assms
proof (induction es arbitrary: l rule: rev_induct)
  case Nil
  then show ?case by (auto simp: listening_def task_at_def tasks_ordered_def connection_ended_def)
next
  case (snoc e es)
  from snoc.prems obtain m where m: "tls_runs es listening = Some m" "tls_step e m = Some l"
    by (auto simp: tls_runs_snoc bind_eq_Some_conv)
  note IH = snoc.IH [OF m(1)]
  then have len: "length (tls_tasks m) = length (accepted es)" by (metis length_map)
  show ?case
  proof (cases e)
    case (Accepted addr)
    with m(2) have l: "l = m\<lparr>tls_tasks := tls_tasks m @ [\<lparr>task_addr = addr, task_state = Handshaking\<rparr>]\<rparr>"
      "tls_returned m = None" by (auto split: if_splits)
    with IH len Accepted show ?thesis
      by (auto simp: task_at_accept loop_outcome_append task_after_def tasks_ordered_def less_Suc_eq)
  next
    case (Handshake k ok)
    with m(2) IH have "task_after es k = Some Handshaking" "l = task_becomes k (if ok then Serving else Finished) m"
      by (auto split: if_splits)
    with IH Handshake show ?thesis
      by (auto simp: task_at_becomes task_addrs_becomes loop_outcome_append task_after_def tasks_ordered_def split: if_splits option.splits)
  next
    case (ConnectionEnd k err)
    with m(2) IH have "task_after es k = Some Serving" "l = task_becomes k Finished m"
      by (auto split: if_splits)
    with IH ConnectionEnd show ?thesis
      by (auto simp: task_at_becomes task_addrs_becomes loop_outcome_append task_after_def tasks_ordered_def split: if_splits option.splits)
  qed (use m(2) IH in \<open>auto simp: loop_outcome_append task_after_def tasks_ordered_def split: if_splits option.splits\<close>)
qed

section \<open>The running gateway\<close>

lemma those_map_Some: "those (map f xs) = Some ys \<longleftrightarrow> list_all2 (\<lambda>x y. f x = Some y) xs ys"
  by (induction xs arbitrary: ys) (auto simp: list_all2_Cons1 split: option.splits)

lemma gateway_runs_snoc:
  "gateway_runs service serve (es @ [e]) g =
     Option.bind (gateway_runs service serve es g) (gateway_step service serve e)"
proof (induction es arbitrary: g)
  case (Cons x es)
  then show ?case by (cases "gateway_step service serve x g") simp_all
qed (simp add: bind_option_cong)

text \<open>The requests of a history, and the service applied to them one after the other.\<close>

definition requests :: "'q net_event list \<Rightarrow> 'q list" where
  "requests es = List.map_filter served_request es"

lemma requests_Nil [simp]: "requests [] = []"
  by (simp add: requests_def List.map_filter_def)

lemma requests_snoc [simp]:
  "requests (es @ [e]) = requests es @ (case served_request e of None \<Rightarrow> [] | Some q \<Rightarrow> [q])"
  by (simp add: requests_def List.map_filter_def split: option.splits)

fun serve_all :: "('w \<Rightarrow> 'q \<Rightarrow> 'w \<times> 'p) \<Rightarrow> 'q list \<Rightarrow> 'w \<Rightarrow> 'w \<times> 'p list" where
  "serve_all service [] w = (w, [])"
| "serve_all service (q # qs) w =
     (case service w q of (w, p) \<Rightarrow> case serve_all service qs w of (w, ps) \<Rightarrow> (w, p # ps))"

lemma serve_all_snoc:
  "serve_all service (qs @ [q]) w =
     (case serve_all service qs w of (w, ps) \<Rightarrow> case service w q of (w, p) \<Rightarrow> (w, ps @ [p]))"
  by (induction qs arbitrary: w) (simp_all split: prod.splits)

text \<open>What a history makes of the handler of a listener.\<close>

definition handler_after :: "('s, 'l) socket_ops \<Rightarrow> 'q net_event list \<Rightarrow> listener \<Rightarrow> 'l handler \<Rightarrow> bool" where
  "handler_after os es ls h =
     (case start_handler os ls of
        TlsHandler (Ok l) \<Rightarrow> (case tls_runs es l of None \<Rightarrow> False | Some l \<Rightarrow> h = TlsHandler (Ok l))
      | start \<Rightarrow> h = start)"

lemma handler_after_Nil [simp]: "handler_after os [] ls (start_handler os ls)"
  by (auto simp: handler_after_def split: handler.splits sum.splits)

lemma handler_after_step:
  "handler_after os es ls h \<Longrightarrow> handler_step e h = Some h' \<Longrightarrow> handler_after os (es @ [e]) ls h'"
  by (auto simp: handler_after_def tls_runs_snoc split: handler.splits sum.splits option.splits)

lemma gateway_step_Some:
  assumes "gateway_step service serve e g = Some g'"
  shows "gateway_returned serve g = None" "gr_history g' = gr_history g @ [e]"
    "list_all2 (\<lambda>h h'. handler_step e h = Some h') (gr_handlers g) (gr_handlers g')"
    "(gr_world g', gr_replies g') = (case served_request e of None \<Rightarrow> (gr_world g, gr_replies g)
       | Some q \<Rightarrow> (case service (gr_world g) q of (w, p) \<Rightarrow> (w, gr_replies g @ [p])))"
    "e = CtrlC \<or> list_ex (handles serve (gr_history g) e) (gr_handlers g)"
  using assms
  by (cases "served_request e"; auto simp: gateway_step_def Let_def bind_eq_Some_conv those_map_Some
      case_prod_unfold split: if_splits)+

lemma gateway_runs_inv:
  assumes "gateway_runs service serve es (gateway_start os w ls) = Some g"
  shows "gr_history g = es \<and> list_all2 (handler_after os es) ls (gr_handlers g) \<and>
    (gr_world g, gr_replies g) = serve_all service (requests es) w"
  using assms
proof (induction es arbitrary: g rule: rev_induct)
  case Nil
  then show ?case by (auto simp: gateway_start_def list_all2_conv_all_nth)
next
  case (snoc e es)
  from snoc.prems obtain m where m: "gateway_runs service serve es (gateway_start os w ls) = Some m"
    "gateway_step service serve e m = Some g" by (auto simp: gateway_runs_snoc bind_eq_Some_conv)
  note IH = snoc.IH [OF m(1)] and step = gateway_step_Some [OF m(2)]
  have "list_all2 (handler_after os (es @ [e])) ls (gr_handlers g)"
    using IH step(3) by (auto intro: list_all2_trans [rotated] handler_after_step)
  moreover have "(gr_world g, gr_replies g) = serve_all service (requests (es @ [e])) w"
    using IH step(4) by (auto simp: serve_all_snoc split: option.splits prod.splits)
  ultimately show ?case using IH step(2) by simp
qed

primrec listen_addr :: "listener \<Rightarrow> string" where
  "listen_addr (TcpListener addr) = addr"
| "listen_addr (TlsListener addr) = addr"

text \<open>How a listener ends: its address cannot be bound, \<open>axum::serve\<close> returns, the accept loop ends.\<close>

definition listener_outcome ::
  "('s, 'l) socket_ops \<Rightarrow> ('l, 'q) axum_serve \<Rightarrow> 'q net_event list \<Rightarrow> listener \<Rightarrow> (unit, io_error) result option" where
  "listener_outcome os serve es ls =
     (case ls of
        TcpListener addr \<Rightarrow> (case tcp_try_into os addr of Err e \<Rightarrow> Some (Err e) | Ok t \<Rightarrow> serve t es)
      | TlsListener addr \<Rightarrow> (case tcp_try_into os addr of Err e \<Rightarrow> Some (Err e) | Ok t \<Rightarrow> loop_outcome es))"

lemma handler_after_result:
  "handler_after os es ls h \<Longrightarrow> handler_result serve es h = listener_outcome os serve es ls"
  by (auto simp: handler_after_def handler_result_def listener_outcome_def start_handler_def handle_tcp_def
      handle_tls_def dest: tls_loop_inv split: listener.splits sum.splits option.splits)

lemma gateway_returned_after:
  assumes "gateway_runs service serve es (gateway_start os w ls) = Some g"
  shows "gateway_returned serve g = (if list_ex (\<lambda>l. listener_outcome os serve es l = None) ls then None else Some (Ok ()))"
proof -
  from gateway_runs_inv [OF assms] have h: "gr_history g = es" "list_all2 (handler_after os es) ls (gr_handlers g)"
    by auto
  from h(2) have "map (handler_result serve es) (gr_handlers g) = map (listener_outcome os serve es) ls"
    by (induction rule: list_all2_induct) (auto dest: handler_after_result)
  moreover have "None \<in> set (map (listener_outcome os serve es) ls) \<longleftrightarrow>
      list_ex (\<lambda>l. listener_outcome os serve es l = None) ls" by (force simp: list_ex_iff)
  ultimately show ?thesis unfolding gateway_returned_def join_all_def h(1) by simp
qed

lemma ctrl_c_step:
  fixes serve :: "('l, 'q) axum_serve"
  assumes "gateway_returned serve g = None"
  shows "\<exists>g'. gateway_step service serve CtrlC g = Some g' \<and> gr_world g' = gr_world g \<and> gr_replies g' = gr_replies g"
proof -
  have step: "\<exists>h'. handler_step CtrlC h = Some h'" for h :: "'l handler"
    by (cases "(CtrlC :: 'q net_event, h)" rule: handler_step.cases) auto
  have "\<exists>hs'. list_all2 (\<lambda>h h'. handler_step (CtrlC :: 'q net_event) h = Some h') hs hs'" for hs :: "'l handler list"
  proof (induction hs)
    case (Cons h hs)
    with step [of h] show ?case by (auto simp: list_all2_Cons1)
  qed simp
  then obtain hs where "those (map (handler_step (CtrlC :: 'q net_event)) (gr_handlers g)) = Some hs"
    by (metis those_map_Some)
  with assms show ?thesis by (auto simp: gateway_step_def served_request_def bind_eq_Some_conv)
qed

lemma listener_outcome_running:
  "listener_outcome os serve (es @ [CtrlC]) l = None \<longleftrightarrow>
     (\<exists>addr t. l = TcpListener addr \<and> tcp_try_into os addr = Ok t \<and> serve t (es @ [CtrlC]) = None)"
  by (auto simp: listener_outcome_def loop_outcome_append split: listener.splits sum.splits option.splits)

text \<open>
  Property C10 (the gateway ends): \<open>run_gateway\<close> returns exactly when every listener has ended. The TLS listener
  ends at the first failed accept or the first ctrl-c and not before, the plain one when
  \<open>axum::serve\<close> returns, and a listener whose address cannot be bound at once. As long as it runs, ctrl-c can
  be given; it ends the TLS listener for good, so that only \<open>axum::serve\<close> is still waited for, and it
  answers no request.
\<close>

theorem gateway_ends:
  assumes "gateway_runs service serve es (gateway_start os w ls) = Some g"
  shows "gateway_returned serve g =
      (if list_ex (\<lambda>l. listener_outcome os serve es l = None) ls then None else Some (Ok ())) \<and>
    (gateway_returned serve g = None \<longrightarrow>
      (\<exists>g'. gateway_runs service serve (es @ [CtrlC]) (gateway_start os w ls) = Some g' \<and>
         gr_world g' = gr_world g \<and> gr_replies g' = gr_replies g \<and>
         (gateway_returned serve g' = None \<longleftrightarrow>
            (\<exists>addr t. TcpListener addr \<in> set ls \<and> tcp_try_into os addr = Ok t \<and> serve t (es @ [CtrlC]) = None))))"
proof (intro conjI impI)
  assume "gateway_returned serve g = None"
  from ctrl_c_step [OF this, of service] assms obtain g' where
    g': "gateway_runs service serve (es @ [CtrlC]) (gateway_start os w ls) = Some g'"
      "gr_world g' = gr_world g" "gr_replies g' = gr_replies g"
    by (auto simp: gateway_runs_snoc)
  moreover from g'(1) have "gateway_returned serve g' = None \<longleftrightarrow>
      (\<exists>addr t. TcpListener addr \<in> set ls \<and> tcp_try_into os addr = Ok t \<and> serve t (es @ [CtrlC]) = None)"
    by (auto simp: gateway_returned_after list_ex_iff listener_outcome_running)
  ultimately show "\<exists>g'. gateway_runs service serve (es @ [CtrlC]) (gateway_start os w ls) = Some g' \<and>
      gr_world g' = gr_world g \<and> gr_replies g' = gr_replies g \<and>
      (gateway_returned serve g' = None \<longleftrightarrow>
         (\<exists>addr t. TcpListener addr \<in> set ls \<and> tcp_try_into os addr = Ok t \<and> serve t (es @ [CtrlC]) = None))"
    by (intro exI [of _ g'] conjI)
qed (rule gateway_returned_after [OF assms])

text \<open>A gateway with both listeners, a connection with one request, and a counter as its service.\<close>

definition sample_sockets :: "(nat, nat) socket_ops" where
  "sample_sockets = \<lparr>is_ipv4 = (\<lambda>a. True), new_v4 = Ok 4, new_v6 = Ok 6, set_reuseaddr = (\<lambda>b s. Ok s),
     set_keepalive = (\<lambda>b s. Ok s), set_reuseport = (\<lambda>b s. Ok s), has_reuseport = True,
     bind_socket = (\<lambda>a s. if a = [] then Err ''address in use'' else Ok s), listen_socket = (\<lambda>n s. Ok s)\<rparr>"

definition graceful :: "(nat, 'q) axum_serve" where
  "graceful t es = (if CtrlC \<in> set es then Some (Ok ()) else None)"

abbreviation sample_traffic :: "nat net_event list" where
  "sample_traffic \<equiv> [Accepted ''a'', Handshake 0 True, TcpRequest 5, TlsRequest 0 7, AcceptFailed ''too many files'']"

lemma sample_traffic_runs:
  "gateway_runs (\<lambda>w q. (w + q, w)) graceful sample_traffic
     (gateway_start sample_sockets 1 [TcpListener ''t'', TlsListener ''s'']) = Some
     \<lparr>gr_world = 13, gr_handlers = [TcpHandler (Ok 4), TlsHandler (Ok
        \<lparr>tls_returned = Some (Err ''too many files''), tls_tasks = [\<lparr>task_addr = ''a'', task_state = Serving\<rparr>]\<rparr>)],
      gr_history = sample_traffic, gr_replies = [1, 6]\<rparr>"
  by code_simp

theorem gateway_ends_witness:
  "\<exists>g g'. gateway_runs (\<lambda>w q. (w + q, w)) graceful sample_traffic
       (gateway_start sample_sockets 1 [TcpListener ''t'', TlsListener ''s'']) = Some g \<and>
     gateway_returned graceful g = None \<and>
     gateway_runs (\<lambda>w q. (w + q, w)) graceful (sample_traffic @ [CtrlC])
       (gateway_start sample_sockets 1 [TcpListener ''t'', TlsListener ''s'']) = Some g' \<and>
     gateway_returned graceful g' \<noteq> None \<and> gr_world g' = 13"
proof -
  note run = sample_traffic_runs
  have "listener_outcome sample_sockets graceful sample_traffic (TcpListener ''t'') = None" by code_simp
  then have r: "gateway_returned graceful g = None"
    if "gateway_runs (\<lambda>w q. (w + q, w)) graceful sample_traffic
      (gateway_start sample_sockets 1 [TcpListener ''t'', TlsListener ''s'']) = Some g" for g
    using gateway_ends [OF that] by simp
  from gateway_ends [OF run] r [OF run] show ?thesis
    unfolding run by (auto simp: graceful_def)
qed

section \<open>The listeners and the gateway behind them\<close>

lemma gateway_runs_append:
  "gateway_runs service serve (es @ es') g = Option.bind (gateway_runs service serve es g) (gateway_runs service serve es')"
proof (induction es arbitrary: g)
  case (Cons x es)
  then show ?case by (cases "gateway_step service serve x g") simp_all
qed simp

lemma handler_after_tls: "handler_after os es ls (TlsHandler (Ok l)) \<Longrightarrow> tls_runs es listening = Some l"
  by (cases ls; cases "tcp_try_into os (listen_addr ls)")
    (auto simp: handler_after_def start_handler_def split: option.splits)

lemma tls_request_served:
  assumes "gateway_runs service serve (pre @ TlsRequest k q # post) (gateway_start os w ls) = Some g"
  shows "Handshake k True \<in> set pre \<and> \<not> connection_ended k pre"
proof -
  from assms obtain m m' where m: "gateway_runs service serve pre (gateway_start os w ls) = Some m"
    "gateway_step service serve (TlsRequest k q) m = Some m'"
    by (auto simp: gateway_runs_append bind_eq_Some_conv)
  note inv = gateway_runs_inv [OF m(1)] and step = gateway_step_Some [OF m(2)]
  from step(5) obtain i l where i: "i < length (gr_handlers m)" "gr_handlers m ! i = TlsHandler (Ok l)"
    by (auto simp: list_ex_iff in_set_conv_nth handles_def split: handler.splits sum.splits)
  with step(3) have "task_at k l = Some Serving"
    by (auto simp: list_all2_conv_all_nth split: if_splits dest!: spec [of _ i])
  moreover from inv i have "tls_runs pre listening = Some l"
    by (auto simp: list_all2_conv_all_nth intro!: handler_after_tls dest!: spec [of _ i])
  ultimately show ?thesis
    using tls_loop_inv [of pre l] by (auto simp: task_after_def split: if_splits)
qed

lemma serve_all_reachable:
  assumes "plane_reachable env limits extractor w0 w"
    and "serve_all (\<lambda>w (t, r). application env limits extractor t w r) qs w = (w', ps)"
  shows "plane_reachable env limits extractor w0 w'"
  using assms
proof (induction qs arbitrary: w ps)
  case (Cons q qs)
  then show ?case by (auto split: prod.splits intro: plane_reachable.served)
qed simp



text \<open>
  A listener that cannot be bound, or that stops at a failed accept, is reported nowhere: with no
  address bound, \<open>run_gateway\<close> returns success at once.
\<close>

lemma unbound_gateway_succeeds:
  assumes "list_all (\<lambda>l. \<exists>e. tcp_try_into os (listen_addr l) = Err e) ls"
  shows "gateway_returned serve (gateway_start os w ls :: ('w, 'l, 'q, 'p) gateway_run) = Some (Ok ())"
proof -
  have "gateway_runs (\<lambda>w q. (w, undefined :: 'p)) serve [] (gateway_start os w ls) = Some (gateway_start os w ls)"
    by simp
  moreover have "listener_outcome os serve [] l \<noteq> None" if "l \<in> set ls" for l
    using assms that by (cases l) (auto simp: list_all_iff listener_outcome_def split: sum.splits)
  ultimately show ?thesis using gateway_returned_after by (fastforce simp: list_ex_iff)
qed

end
