(* ===== verification/Revocation.thy ===== *)
theory Revocation
  imports DataPlane
begin

text \<open>
  How long a withdrawn virtual host is still served. The control plane withdraws a virtual host by
  publishing configurations of the user without it; the gateway reads Redis only when its cache has
  no fresh entry. This theory follows the running gateway (theory \<open>DataPlane\<close>) from the withdrawal on.
\<close>

section \<open>The life of the gateway after a withdrawal\<close>

text \<open>Redis serves the user no configuration with the virtual host.\<close>

definition withdrawn :: "('c, 'r, user, user_config) store_env \<Rightarrow> string \<Rightarrow> string \<Rightarrow> 'r \<Rightarrow> bool" where
  "withdrawn env uid vh conn \<longleftrightarrow>
     (\<forall>k blob config. encode_key env (new_user uid) = Some k \<longrightarrow> snd (redis_get env k conn) = Some (Some blob) \<longrightarrow>
        decode_value env blob = Some config \<longrightarrow> map_of (virtual_hosts config) vh = None)"

text \<open>From \<open>w1\<close> on requests are served, plugins are reloaded, and what is published keeps the host withdrawn.\<close>

inductive plane_since ::
  "('d, 'j, 'jc, 'n, 'c, 'r, 'm, 'f, 't, 'b, 'w) plane_env \<Rightarrow> standard_header_limits
    \<Rightarrow> (json \<Rightarrow> (authorized_principal, principal_error) result) \<Rightarrow> string \<Rightarrow> string
    \<Rightarrow> ('jc, 'n, 'c, 'r, 'm, 'w) plane \<Rightarrow> ('jc, 'n, 'c, 'r, 'm, 'w) plane \<Rightarrow> bool"
  for env :: "('d, 'j, 'jc, 'n, 'c, 'r, 'm, 'f, 't, 'b, 'w) plane_env" and limits extractor uid vh w1 where
  withdrawal: "plane_since env limits extractor uid vh w1 w1"
| serving: "plane_since env limits extractor uid vh w1 w \<Longrightarrow> application env limits extractor t w r = (w', rep) \<Longrightarrow>
     plane_since env limits extractor uid vh w1 w'"
| reloading: "plane_since env limits extractor uid vh w1 w \<Longrightarrow>
     plane_since env limits extractor uid vh w1 (w\<lparr>pl_runtime := st\<rparr>)"
| publishing: "plane_since env limits extractor uid vh w1 w \<Longrightarrow> withdrawn (pe_users env) uid vh conn \<Longrightarrow>
     plane_since env limits extractor uid vh w1 (w\<lparr>pl_users := (pl_users w)\<lparr>connection := conn\<rparr>\<rparr>)"

section \<open>What the cache may still hold\<close>

text \<open>Entries of the user that still have the virtual host are not younger than the withdrawal at \<open>T\<close>.\<close>

definition fading ::
  "('c, 'r, user, user_config) store_env \<Rightarrow> ('c \<Rightarrow> string \<Rightarrow> user_config cached_entry \<Rightarrow> bool) \<Rightarrow> string \<Rightarrow> string
    \<Rightarrow> int \<Rightarrow> int \<Rightarrow> ('c, 'r) redis_store \<Rightarrow> bool" where
  "fading env held uid vh T expiry st \<longleftrightarrow> withdrawn env uid vh (connection st) \<and> cache_expiry st = expiry \<and>
     (\<forall>c e. cache st = Some c \<longrightarrow> held c uid e \<longrightarrow> map_of (virtual_hosts (cached_config e)) vh \<noteq> None \<longrightarrow>
        inserted_at e \<le> T)"

text \<open>Reading leaves the data of Redis alone.\<close>

definition reads_keep :: "('c, 'r, user, user_config) store_env \<Rightarrow> string \<Rightarrow> string \<Rightarrow> bool" where
  "reads_keep env uid vh \<longleftrightarrow> (\<forall>k conn. withdrawn env uid vh conn \<longrightarrow> withdrawn env uid vh (fst (redis_get env k conn)))"

lemma withdrawn_load:
  assumes "withdrawn env uid vh (connection st)" "load_config env (new_user uid) st = (st', Ok config)"
  shows "map_of (virtual_hosts config) vh = None"
  using assms load_config_Ok [OF assms(2)] by (auto simp: withdrawn_def redis_serves_def)

lemma load_config_connection:
  "connection (fst (load_config env key st)) = connection st \<or>
   (\<exists>k. connection (fst (load_config env key st)) = fst (redis_get env k (connection st)))"
  by (auto simp: load_config_def split: option.splits prod.splits) (metis fst_conv)+

lemma store_get_config_fading:
  assumes "cache_laws env held" "key_of env = user_key_of" "reads_keep env uid vh" "fading env held uid vh T expiry st"
    and "store_get_config env t_check t_insert (new_user who) st = (st', r)"
  shows "fading env held uid vh T expiry st'"
proof -
  have key: "key_of env (new_user who) = who" by (simp add: assms(2) user_key_of_def new_user_def)
  obtain st1 hit where l: "cache_lookup env who t_check st = (st1, hit)" by fastforce
  have st1: "fading env held uid vh T expiry st1"
    using assms(4) cache_lookup_connection [of env who t_check st] cache_lookup_held [OF assms(1) l]
    unfolding fading_def l fst_conv by metis
  show ?thesis
  proof (cases hit)
    case (Some v)
    with l assms(5) st1 show ?thesis by (simp add: store_get_config_def key)
  next
    case None
    obtain st2 x where x: "load_config env (new_user who) st1 = (st2, x)" by fastforce
    have st2: "fading env held uid vh T expiry st2"
      using st1 assms(3) load_config_cache [of env "new_user who" st1] load_config_connection [of env "new_user who" st1]
      unfolding fading_def reads_keep_def x by auto
    show ?thesis
    proof (cases x)
      case (Inl e)
      with l None x assms(5) st2 show ?thesis by (simp add: store_get_config_def key)
    next
      case (Inr config)
      with l None x assms(5) have st': "st' = remember env who config t_insert st2"
        by (simp add: store_get_config_def key)
      have "who = uid \<Longrightarrow> map_of (virtual_hosts config) vh = None"
        using withdrawn_load [of env uid vh st1 st2 config] st1 x Inr by (simp add: fading_def)
      with st2 show ?thesis unfolding st' fading_def
        by (auto simp: new_entry_def remember_def split: option.splits dest!: cache_lawsD(4) [OF assms(1)])
    qed
  qed
qed

lemma store_get_config_withdrawn:
  assumes "cache_laws env held" "key_of env = user_key_of" "fading env held uid vh T expiry st"
    and "cache st = None \<or> T + expiry \<le> t_check" "snd (store_get_config env t_check t_insert (new_user uid) st) = Ok config"
  shows "map_of (virtual_hosts config) vh = None"
proof (rule ccontr)
  assume host: "map_of (virtual_hosts config) vh \<noteq> None"
  have key: "key_of env (new_user uid) = uid" by (simp add: assms(2) user_key_of_def new_user_def)
  obtain st1 hit where l: "cache_lookup env uid t_check st = (st1, hit)" by fastforce
  show False
  proof (cases hit)
    case (Some v)
    with l assms(5) have "v = config" by (simp add: store_get_config_def key)
    with Some l obtain c c' e where c: "cache st = Some c" "lru_get_mut env uid c = (c', Some e)"
      "is_fresh t_check (cache_expiry st) e" "cached_config e = config"
      by (auto simp: cache_lookup_def split: option.splits prod.splits if_splits)
    from cache_lawsD(3) [OF assms(1) c(2)] c(1,4) host assms(3) have "inserted_at e \<le> T" "cache_expiry st = expiry"
      unfolding fading_def by auto
    with c(1,3) assms(4) show False by (simp add: is_fresh_def)
  next
    case None
    with l assms(5) obtain st2 where "load_config env (new_user uid) st1 = (st2, Ok config)"
      by (auto simp: store_get_config_def key split: prod.splits sum.splits)
    moreover have "withdrawn env uid vh (connection st1)"
      using assms(3) cache_lookup_connection(1) [of env uid t_check st] l by (simp add: fading_def)
    ultimately show False using host withdrawn_load [of env uid vh st1 st2 config] by simp
  qed
qed

section \<open>The gateway after a withdrawal\<close>

lemma route_decision_users:
  assumes "route_decision limits (app_state_of env t) extractor w r = (w', d)"
  shows "pl_users w' = pl_users w \<or>
    (\<exists>uid. pl_users w' = fst (store_get_config (pe_users env) (at_lookup t) (at_insert t) (new_user uid) (pl_users w)))"
  using assms
  unfolding route_decision_def user_decision_def store_decision_def decide_then_def limits_decision_def
    host_decision_def claims_decision_def principal_decision_def config_decision_def presence_decision_def
    app_state_of_def user_from_principal_def
  by (auto split: prod.splits sum.splits option.splits if_splits config_store_error.splits)
    (metis fst_conv)+

lemma mcp_http_service_users: "mcp_http_service env w r = (w', rep) \<Longrightarrow> pl_users w' = pl_users w"
  by (auto simp: mcp_http_service_def Let_def split: option.splits prod.splits)

lemma application_users:
  assumes "application env limits extractor t w r = (w', rep)"
  shows "pl_users w' = pl_users w \<or>
    (\<exists>uid. pl_users w' = fst (store_get_config (pe_users env) (at_lookup t) (at_insert t) (new_user uid) (pl_users w)))"
  using assms
proof (cases rule: application_route)
  case (route path)
  obtain w1 d where d: "route_decision limits (app_state_of env t) extractor w (r\<lparr>req_path := path\<rparr>) = (w1, d)"
    by fastforce
  from route(2) d have "pl_users w' = pl_users w1"
    by (cases d) (auto simp: mcp_route_follows follow_def dest: mcp_http_service_users)
  with route_decision_users [OF d] show ?thesis by simp
qed simp

lemma plane_since_fading:
  assumes "cache_laws (pe_users env) held" "key_of (pe_users env) = user_key_of" "reads_keep (pe_users env) uid vh"
    and "fading (pe_users env) held uid vh T expiry (pl_users w1)"
    and "plane_since env limits extractor uid vh w1 w"
  shows "fading (pe_users env) held uid vh T expiry (pl_users w)"
  using assms(5)
proof (induction rule: plane_since.induct)
  case withdrawal
  show ?case by (rule assms(4))
next
  case (serving w t r w' rep)
  from application_users [OF serving.hyps(2)] serving.IH show ?case
    using store_get_config_fading [OF assms(1-3)] by (metis prod.collapse)
next
  case (publishing w conn)
  then show ?case by (simp add: fading_def)
qed simp


text \<open>A cached configuration with the virtual host, withdrawn at 0, and a request at 300.\<close>

definition caching_plane_env ::
  "(string, string, string verification_key list option, nat, (string \<times> user_config cached_entry) list, nat, nat, unit,
    nat, unit, nat) plane_env" where
  "caching_plane_env = \<lparr>pe_jwt = pe_jwt sample_plane_env,
     pe_users = \<lparr>key_of = user_key_of, encode_key = (\<lambda>u. Some (user_key_of u)), encode_value = (\<lambda>_. None),
       decode_value = (\<lambda>_. Some \<lparr>virtual_hosts = [(''vh'', sample_host)]\<rparr>), lru_new = (\<lambda>_ _. []),
       lru_get_mut = (\<lambda>k c. (c, map_of c k)), lru_insert = (\<lambda>k e c. (k, e) # c),
       redis_get = (\<lambda>k r. (r, Some (if r = 0 then Some [] else None))), redis_set = (\<lambda>k v r. (r, False))\<rparr>,
     pe_gateway = sample_gateway, pe_matches = (\<lambda>_. True),
     pe_decode = (\<lambda>r. Some (CallTool sample_call, None, None)), pe_render = (\<lambda>r result. health),
     pe_router_reply = (\<lambda>r. custom_error 404 []), pe_preflight = (\<lambda>r. health)\<rparr>"

definition caching_plane ::
  "(string verification_key list option, nat, (string \<times> user_config cached_entry) list, nat, nat, nat) plane" where
  "caching_plane = \<lparr>pl_jwks = sample_jwks,
     pl_users = \<lparr>connection = 1, cache = Some [(''ann'', new_entry 0 \<lparr>virtual_hosts = [(''vh'', sample_host)]\<rparr>)],
       cache_expiry = 300\<rparr>, pl_runtime = None, pl_gateway = sample_gateway_world\<rparr>"


end
