(* ===== verification/SecretsGuard.thy ===== *)
theory SecretsGuard
  imports Routing SecretsPlugin
begin

text \<open>
  The composition of the secrets detection plugin with the tool calls of the gateway: what reaches a
  backend when the plugin stands behind the pre hook (\<open>gateway/mcp_service/tools.rs\<close>,
  \<open>contextforge-data-plane-cpex/src/tools\<close>, \<open>cpex-secrets-detection/src/lib.rs\<close>).
\<close>

section \<open>The secrets plugin in the path of a tool call\<close>

text \<open>
  The plugin manager of CPEX with the secrets plugin alone behind the hooks it handles: the pipeline denies
  when the handler denies, and hands out the handler's payload when it allows.
\<close>

definition runs_secrets ::
  "('m, 'f, 't, 'w) plugin_env \<Rightarrow> regex_env \<Rightarrow> secrets_detection_core \<Rightarrow> 'm \<Rightarrow> bool" where
  "runs_secrets penv renv core m \<longleftrightarrow>
     (\<forall>hook st payload context w. stage_of_hook hook = Some st \<longrightarrow>
        (\<exists>trace_id hr. secrets_handle renv core st trace_id payload = Some hr \<and>
           is_denied (snd (invoke_named penv m hook payload context w)) = (hr_violation hr \<noteq> None) \<and>
           (hr_violation hr = None \<longrightarrow>
              modified_payload (snd (invoke_named penv m hook payload context w)) = map_option Some (hr_modified hr))))"

text \<open>
  What may be sent upstream for the arguments \<open>original\<close>: nothing that has to be blocked; redacted
  arguments when redaction applies, otherwise the arguments as they came. An edit that leaves the object
  equal keeps the client's object.
\<close>

definition guarded ::
  "regex_env \<Rightarrow> secrets_detection_config \<Rightarrow> json_object option \<Rightarrow> json_object option \<Rightarrow> bool" where
  "guarded renv config original sent \<longleftrightarrow>
     (let args = (case original of Some a \<Rightarrow> a | None \<Rightarrow> []);
          fs = value_findings renv config (JObject args);
          redacted = map_entries (leaf_redacted renv config) [] args
      in \<not> (block_on_detection config \<and> min_findings_to_block config \<le> length fs) \<and>
         (if redact config \<and> fs \<noteq> []
          then sent = Some redacted \<or> sent = original \<and> object_eq args redacted
          else sent = original))"

lemma secrets_handle_tool_call:
  assumes "regex_laws renv"
    and "secrets_handle renv core ToolPreInvoke trace_id (tool_call_payload acc request tool_name backend i) = Some hr"
    and "hr_violation hr = None" "cmf_access_laws acc"
  shows "guarded renv (scanner_config core) (ct_arguments request)
    (case hr_modified hr of None \<Rightarrow> ct_arguments request
     | Some m \<Rightarrow> apply_to (from_modified (ct_arguments request) (the (tool_call_arguments acc m))) (ct_arguments request)) \<and>
    (case hr_modified hr of None \<Rightarrow> True | Some m \<Rightarrow> tool_call_arguments acc m \<noteq> None)"
proof -
  let ?config = "scanner_config core"
  let ?args = "case ct_arguments request of Some a \<Rightarrow> a | None \<Rightarrow> []"
  let ?p = "tool_call_payload acc request tool_name backend i"
  let ?fs = "value_findings renv ?config (JObject ?args)"
  have f: "payload_findings renv ?config ToolPreInvoke ?p = ?fs"
    by (simp add: tool_call_payload_def message_payload_def payload_findings_def content_findings_def scanned_value_def)
  have m: "?fs \<noteq> [] \<Longrightarrow> tool_call_arguments acc (payload_redacted renv ?config ToolPreInvoke ?p) =
      Some (map_entries (leaf_redacted renv ?config) [] ?args)"
    using assms(4)
    by (simp add: tool_call_payload_def message_payload_def payload_redacted_def content_redacted_def scanned_value_def
        put_value_def value_redacted_def tool_call_arguments_def cmf_access_laws_def part_simps first_of_def)
  have e: "ct_arguments request = None \<Longrightarrow> ?fs = []" by (simp add: value_findings_def leaf_findings_def)
  have v: "\<not> should_block core (length ?fs)" 
    "hr_modified hr = (if redact ?config \<and> ?fs \<noteq> [] then Some (payload_redacted renv ?config ToolPreInvoke ?p) else None)"
    using assms(2,3) by (auto simp: secrets_handle_def scan_payload_spec [OF assms(1)] f Let_def split: if_splits)
  show ?thesis
  proof (cases "redact ?config \<and> ?fs \<noteq> []")
    case True
    with e obtain a where a: "ct_arguments request = Some a" by (cases "ct_arguments request") auto
    with True v m show ?thesis
      by (auto simp: guarded_def should_block_def from_modified_def apply_to_def Let_def)
  next
    case False
    with v show ?thesis by (auto simp: guarded_def should_block_def Let_def)
  qed
qed

lemma tool_pre_hook_guarded:
  assumes "regex_laws renv" "cmf_access_laws (g_access env)" "runs_secrets (g_plugins env) renv core (manager rt)"
    and "pre_hook (runtime_hooks rt Tool)"
    and "tool_pre_hook env (Some (Active rt)) request tool_name backend g = (g', Ok pre)"
  shows "guarded renv (scanner_config core) (ct_arguments request) (apply_to (pre_arguments pre) (ct_arguments request))"
proof -
  let ?w = "plugins g"
  let ?i = "correlation_text Tool (correlation_id ?w)"
  let ?p = "tool_call_payload (g_access env) request tool_name backend ?i"
  obtain out result where inv: "invoke_named (g_plugins env) (manager rt) ''cmf.tool_pre_invoke'' ?p None (outside ?w) = (out, result)"
    by fastforce
  have "stage_of_hook ''cmf.tool_pre_invoke'' = Some ToolPreInvoke" by (simp add: stage_of_hook_def)
  with assms(3) inv obtain trace_id hr where hr: "secrets_handle renv core ToolPreInvoke trace_id ?p = Some hr"
      "is_denied result = (hr_violation hr \<noteq> None)"
      "hr_violation hr = None \<longrightarrow> modified_payload result = map_option Some (hr_modified hr)"
    unfolding runs_secrets_def by (metis snd_conv)
  note unfold = tool_pre_hook_def before_tool_call_def current_runtime_def before_def Let_def operation_hooks_def
    runtime_invoke_def on_plugins_def bind_sm_def lift_sm_def return_sm_def
  have allowed: "hr_violation hr = None"
    using assms(4,5) inv hr(2) by (auto simp: unfold split: if_splits)
  with hr(3) have m: "modified_message_payload result = hr_modified hr"
    by (cases "hr_modified hr") (simp_all add: modified_message_payload_def)
  note safe = secrets_handle_tool_call [OF assms(1) hr(1) allowed assms(2)]
  show ?thesis
  proof (cases "hr_modified hr")
    case None
    with assms(4,5) inv hr(2) allowed m safe show ?thesis by (auto simp: unfold apply_to_def)
  next
    case (Some msg)
    with assms(4,5) inv hr(2) allowed m safe show ?thesis by (auto simp: unfold ok_or_def)
  qed
qed

text \<open>
  Property C7 (secrets stay inside): with the secrets plugin behind the pre hook of tool calls, everything
  that is called at a backend for a tool call is called with guarded arguments: nothing that reaches
  the blocking threshold is sent, and where redaction is on and secrets were found, what is sent is
  the redacted object.
\<close>

theorem secrets_guard_tool_calls:
  assumes "regex_laws renv" and "cmf_access_laws (g_access env)"
    and "runs_secrets (g_plugins env) renv core (manager rt)" and "pre_hook (runtime_hooks rt Tool)"
  shows "\<exists>new. events (fst (call_tool env (Some (Active rt)) request cx g)) = new @ events g \<and>
    list_all (\<lambda>e. case e of
        Called name upstream sent \<Rightarrow> guarded renv (scanner_config core) (ct_arguments request) sent
      | _ \<Rightarrow> True) new"
proof -
  let ?P = "\<lambda>e. case e of
        Called name upstream sent \<Rightarrow> guarded renv (scanner_config core) (ct_arguments request) sent
      | _ \<Rightarrow> True"
  have "appends ?P (call_tool env (Some (Active rt)) request cx)"
    unfolding call_tool_def
    by (auto intro!: appends_lift_bind appends_bind [OF appends_tool_hooks(1)] appends_bind [OF appends_connect]
        appends_bind [OF appends_run_tool] appends_tool_hooks(2) simp: case_prod_beta
        dest: tool_pre_hook_guarded [OF assms])
  then show ?thesis unfolding appends_def by blast
qed

definition sample_secrets_result :: "string \<Rightarrow> cmf_message \<Rightarrow> nat pipeline_result" where
  "sample_secrets_result hook payload =
     (case Option.bind (stage_of_hook hook) (\<lambda>st. secrets_handle sample_regex sample_core st None payload) of
        None \<Rightarrow> \<lparr>is_denied = False, modified_payload = None, pipeline_violation = None, pipeline_context = 0\<rparr>
      | Some hr \<Rightarrow> \<lparr>is_denied = hr_violation hr \<noteq> None, modified_payload = map_option Some (hr_modified hr),
          pipeline_violation = None, pipeline_context = 0\<rparr>)"

definition sample_guarded :: "(nat, unit, nat, unit, nat) gateway_env" where
  "sample_guarded = sample_gateway\<lparr>g_plugins := sample_plugins\<lparr>invoke_named :=
     \<lambda>m hook payload context w. (Suc w, sample_secrets_result hook payload)\<rparr>\<rparr>"

definition sample_guard_runtime :: "nat plugin_runtime" where
  "sample_guard_runtime = \<lparr>manager = 0, runtime_hooks = \<lambda>op. \<lparr>pre_hook = (op = Tool), post_hook = False\<rparr>\<rparr>"

abbreviation sample_leaky_call :: call_tool_request where
  "sample_leaky_call \<equiv> \<lparr>ct_name = ''t'', ct_arguments = Some [(''q'', JString ''id AKIA, no'')]\<rparr>"

lemma sample_runs_secrets: "runs_secrets (g_plugins sample_guarded) sample_regex sample_core 0"
proof -
  have "\<exists>hr. secrets_handle sample_regex sample_core st None payload = Some hr" for st payload
    using scan_payload_spec [OF sample_regex_laws] by (simp add: secrets_handle_def)
  then show ?thesis
    unfolding runs_secrets_def by (fastforce simp: sample_guarded_def sample_secrets_result_def)
qed

lemma sample_leak_redacted:
  "\<exists>g1 pre. tool_pre_hook sample_guarded (Some (Active sample_guard_runtime)) sample_leaky_call ''up'' ''b''
      sample_gateway_world = (g1, Ok pre) \<and>
    pre_arguments pre = Replace (Some [(''q'', JString ''id #, no'')]) \<and> pre_state pre = None"
proof -
  have "(case snd (tool_pre_hook sample_guarded (Some (Active sample_guard_runtime)) sample_leaky_call ''up'' ''b''
        sample_gateway_world) of
      Ok pre \<Rightarrow> pre_arguments pre = Replace (Some [(''q'', JString ''id #, no'')]) \<and> Option.is_none (pre_state pre)
    | Err e \<Rightarrow> False)" by code_simp
  then show ?thesis
    by (cases "tool_pre_hook sample_guarded (Some (Active sample_guard_runtime)) sample_leaky_call ''up'' ''b''
        sample_gateway_world") (auto simp: Option.is_none_def split: sum.splits)
qed

theorem secrets_guard_tool_calls_witness:
  "regex_laws sample_regex \<and> cmf_access_laws (g_access sample_guarded) \<and>
   runs_secrets (g_plugins sample_guarded) sample_regex sample_core (manager sample_guard_runtime) \<and>
   pre_hook (runtime_hooks sample_guard_runtime Tool) \<and>
   (\<exists>new. events (fst (call_tool sample_guarded (Some (Active sample_guard_runtime)) sample_leaky_call sample_context
        sample_gateway_world)) = new @ events sample_gateway_world \<and>
      Called ''b'' ''up'' (Some [(''q'', JString ''id #, no'')]) \<in> set new \<and>
      list_all (\<lambda>e. case e of
          Called name upstream sent \<Rightarrow> guarded sample_regex (scanner_config sample_core) (ct_arguments sample_leaky_call) sent
        | _ \<Rightarrow> True) new)"
proof -
  have h: "regex_laws sample_regex" "cmf_access_laws (g_access sample_guarded)"
    "runs_secrets (g_plugins sample_guarded) sample_regex sample_core (manager sample_guard_runtime)"
    "pre_hook (runtime_hooks sample_guard_runtime Tool)"
    using sample_regex_laws sample_access_laws sample_runs_secrets
    by (simp_all add: sample_guarded_def sample_gateway_def sample_guard_runtime_def)
  from sample_leak_redacted obtain g1 pre where
    p: "tool_pre_hook sample_guarded (Some (Active sample_guard_runtime)) sample_leaky_call ''up'' ''b''
      sample_gateway_world = (g1, Ok pre)"
      "pre_arguments pre = Replace (Some [(''q'', JString ''id #, no'')])" "pre_state pre = None" by blast
  have "Called ''b'' ''up'' (Some [(''q'', JString ''id #, no'')]) \<in> set (events (fst (call_tool sample_guarded
      (Some (Active sample_guard_runtime)) sample_leaky_call sample_context sample_gateway_world)))"
    by (simp add: call_tool_def validate_stateless_def bind_sm_def lift_sm_def sample_context_def sample_request_def
        sample_host_def find_backend_def check_tool_headers_def p)
      (simp add: p return_sm_def connect_backend_for_request_def on_backend_def sample_guarded_def sample_gateway_def
        run_backend_tool_def start_tool_call_def record_event_def tool_post_hook_def call_backend_tool_def
        close_backend_def on_progress_def progress_call_def fresh_calls_def stop_tracking_tool_call_def stream_event_post_hook_def
        shared_state_def Let_def apply_to_def)
  moreover have "events sample_gateway_world = []" by (simp add: sample_gateway_world_def)
  ultimately show ?thesis
    using h secrets_guard_tool_calls [OF h, of sample_leaky_call sample_context sample_gateway_world] by auto
qed

end
