(* ===== verification/SecretsResponses.thy ===== *)
theory SecretsResponses
  imports SecretsGuard
begin

text \<open>
  The secrets detection plugin on the way back: what a client gets of a tool's result and of a
  resource when the plugin stands behind the post hooks (\<open>gateway/mcp_service/tools.rs\<close>,
  \<open>resources.rs\<close>, \<open>contextforge-data-plane-cpex\<close>, \<open>cpex-secrets-detection/src/lib.rs\<close>).
\<close>

section \<open>Post hooks\<close>

definition blocks :: "secrets_detection_config \<Rightarrow> finding list \<Rightarrow> bool" where
  "blocks config fs \<longleftrightarrow> block_on_detection config \<and> min_findings_to_block config \<le> length fs"

text \<open>A response that passed the plugin is not one to block, and the plugin's redaction was applied.\<close>

lemma call_after_secrets:
  assumes "regex_laws renv" "runs_secrets penv renv core (manager (cs_runtime call))"
    and "stage_of_hook (snd (operation_hooks op)) = Some st" "to_payload response (cs_name call) (cs_id call) = Ok p"
    and "call_after penv op to_payload apply_payload call response w = (w', call', Ok delivered)"
  shows "\<not> blocks (scanner_config core) (payload_findings renv (scanner_config core) st p) \<and>
    (if redact (scanner_config core) \<and> payload_findings renv (scanner_config core) st p \<noteq> []
     then apply_payload response (payload_redacted renv (scanner_config core) st p) (cs_name call) (cs_id call) = Ok delivered
     else delivered = response)"
proof -
  obtain out result where inv: "invoke_named penv (manager (cs_runtime call)) (snd (operation_hooks op)) p
      (Some (cs_context call)) (outside w) = (out, result)" by fastforce
  with assms(2,3) obtain trace_id hr where hr: "secrets_handle renv core st trace_id p = Some hr"
      "is_denied result = (hr_violation hr \<noteq> None)"
      "hr_violation hr = None \<longrightarrow> modified_payload result = map_option Some (hr_modified hr)"
    unfolding runs_secrets_def by (metis snd_conv)
  from assms(4,5) inv have ok: "\<not> is_denied result"
    "(case modified_message_payload result of
        Some q \<Rightarrow> apply_payload response q (cs_name call) (cs_id call) | None \<Rightarrow> Ok response) = Ok delivered"
    by (cases "modified_message_payload result";
        auto simp: call_after_def call_invoke_def runtime_invoke_def call_apply_def split: if_splits)+
  with hr have "modified_message_payload result = hr_modified hr"
    by (cases "hr_modified hr") (simp_all add: modified_message_payload_def)
  moreover have "\<not> blocks (scanner_config core) (payload_findings renv (scanner_config core) st p) \<and>
      hr_modified hr = (if redact (scanner_config core) \<and> payload_findings renv (scanner_config core) st p \<noteq> []
        then Some (payload_redacted renv (scanner_config core) st p) else None)"
    using hr(1,2) ok(1)
    by (auto simp: secrets_handle_def scan_payload_spec [OF assms(1)] should_block_def blocks_def Let_def split: if_splits)
  ultimately show ?thesis using ok(2) by (auto split: if_splits)
qed

section \<open>Resources\<close>

lemma text_redacted_clean:
  assumes "regex_laws renv" "text_findings renv config s = []"
  shows "text_redacted renv config s = s"
  using detect_total [OF assms(1), of config s] assms(2)
  by (auto simp: detect_and_redact_def Let_def bind_eq_Some_conv split: if_splits)

definition content_texts :: "resource_contents list \<Rightarrow> string list" where
  "content_texts cs = List.map_filter (\<lambda>c. case c of TextResourceContents u m t meta \<Rightarrow> Some t | _ \<Rightarrow> None) cs"

text \<open>What the client gets for a content of the backend: its text redacted, all else as it was.\<close>

definition content_delivered ::
  "regex_env \<Rightarrow> secrets_detection_config \<Rightarrow> resource_contents \<Rightarrow> resource_contents" where
  "content_delivered renv config c =
     (case c of
        TextResourceContents u m t meta \<Rightarrow>
          TextResourceContents u m (if redact config then text_redacted renv config t else t) meta
      | _ \<Rightarrow> c)"

lemma resource_part_redacted:
  assumes "regex_laws renv" "redact config" "cmf_resource_content b64d i c = Some res"
  shows "edit_resource b64d b64e c (content_redacted renv config ResourcePostFetch (ResourcePart res)) =
      Some (content_delivered renv config c) \<and>
    content_findings renv config ResourcePostFetch (ResourcePart res) =
      concat (map (text_findings renv config) (content_texts [c]))"
  using assms(3) text_redacted_clean [OF assms(1)]
  by (cases c) (auto simp: cmf_resource_content_def plain_cmf_resource_def content_redacted_def content_findings_def
      scanned_value_def value_findings_def value_redacted_def put_value_def edit_resource_def content_delivered_def
      content_texts_def List.map_filter_def assms(2))

lemma resource_payload_redacted:
  assumes "regex_laws renv" "redact config"
    and "collect_opt (\<lambda>c. map_option ResourcePart (cmf_resource_content b64d i c)) cs = Some parts"
  shows "collect_opt (\<lambda>(c, part). edit_resource b64d b64e c part)
      (zip cs (map (content_redacted renv config ResourcePostFetch) parts)) = Some (map (content_delivered renv config) cs) \<and>
    length parts = length cs"
  using assms(3)
proof (induction cs arbitrary: parts)
  case (Cons c cs)
  then obtain res rest where "cmf_resource_content b64d i c = Some res" "parts = ResourcePart res # rest"
    "collect_opt (\<lambda>c. map_option ResourcePart (cmf_resource_content b64d i c)) cs = Some rest"
    by (auto simp: bind_eq_Some_conv split: option.splits)
  with Cons.IH resource_part_redacted [OF assms(1,2)] show ?case by simp
qed simp

lemma resource_payload_findings:
  assumes "collect_opt (\<lambda>c. map_option ResourcePart (cmf_resource_content b64d i c)) cs = Some parts"
  shows "concat (map (content_findings renv config ResourcePostFetch) parts) =
    concat (map (text_findings renv config) (content_texts cs))"
  using assms
proof (induction cs arbitrary: parts)
  case (Cons c cs)
  then obtain res rest where "cmf_resource_content b64d i c = Some res" "parts = ResourcePart res # rest"
    "collect_opt (\<lambda>c. map_option ResourcePart (cmf_resource_content b64d i c)) cs = Some rest"
    by (auto simp: bind_eq_Some_conv split: option.splits)
  with Cons.IH show ?case
    by (cases c) (auto simp: cmf_resource_content_def plain_cmf_resource_def content_findings_def scanned_value_def
        value_findings_def content_texts_def List.map_filter_def)
qed (simp add: content_texts_def List.map_filter_def)

lemma content_delivered_clean:
  assumes "regex_laws renv" "concat (map (text_findings renv config) (content_texts cs)) = [] \<or> \<not> redact config"
  shows "map (content_delivered renv config) cs = cs"
  using assms(2)
proof (induction cs)
  case (Cons c cs)
  then show ?case
    by (cases c) (auto simp: content_delivered_def content_texts_def List.map_filter_def text_redacted_clean [OF assms(1)])
qed simp

lemma after_read_resource_secrets:
  assumes "regex_laws renv" "runs_secrets penv renv core (manager (cs_runtime call))" "resource_call h = Some call"
    and "after_read_resource penv acc b64d b64e h response w = (w', Ok delivered)"
  shows "\<not> blocks (scanner_config core) (concat (map (text_findings renv (scanner_config core)) (content_texts (rrr_contents response)))) \<and>
    delivered = response\<lparr>rrr_contents := map (content_delivered renv (scanner_config core)) (rrr_contents response)\<rparr>"
proof -
  let ?config = "scanner_config core"
  from assms(3,4) obtain call' where after: "call_after penv Resource (resource_to_payload acc b64d)
      (resource_apply_payload b64d b64e) call response w = (w', call', Ok delivered)"
    by (auto simp: after_read_resource_def split: prod.splits)
  then obtain p where p: "resource_to_payload acc b64d response (cs_name call) (cs_id call) = Ok p"
    by (cases "resource_to_payload acc b64d response (cs_name call) (cs_id call)")
      (auto simp: call_after_def call_invoke_def)
  then obtain parts where parts: "p = message_payload acc AssistantRole parts"
    "collect_opt (\<lambda>c. map_option ResourcePart (cmf_resource_content b64d (cs_id call) c)) (rrr_contents response) = Some parts"
    by (auto simp: resource_to_payload_def resource_result_payload_def ok_or_eq_Ok)
  have f: "payload_findings renv ?config ResourcePostFetch p =
      concat (map (text_findings renv ?config) (content_texts (rrr_contents response)))"
    using resource_payload_findings [OF parts(2)] by (simp add: parts(1) payload_findings_def message_payload_def)
  have hook: "stage_of_hook (snd (operation_hooks Resource)) = Some ResourcePostFetch"
    by (simp add: operation_hooks_def stage_of_hook_def)
  note s = call_after_secrets [where to_payload = "resource_to_payload acc b64d", OF assms(1,2) hook p after]
  show ?thesis
  proof (cases "redact ?config \<and> payload_findings renv ?config ResourcePostFetch p \<noteq> []")
    case True
    with s have "resource_apply_payload b64d b64e response (payload_redacted renv ?config ResourcePostFetch p)
        (cs_name call) (cs_id call) = Ok delivered" by simp
    with resource_payload_redacted [OF assms(1) _ parts(2), of ?config b64e] True s f show ?thesis
      by (auto simp: resource_apply_payload_def resource_result_response_def ok_or_eq_Ok payload_redacted_def
          parts(1) message_payload_def)
  next
    case False
    with s f content_delivered_clean [OF assms(1), of ?config "rrr_contents response"] show ?thesis by auto
  qed
qed

lemma on_plugins_eq: "on_plugins f g = (g', r) \<longleftrightarrow> (\<exists>w. f (plugins g) = (w, r) \<and> g' = g\<lparr>plugins := w\<rparr>)"
  by (cases "f (plugins g)") (auto simp: on_plugins_def)

lemma on_backend_eq: "on_backend f g = (g', r) \<longleftrightarrow>
    (\<exists>w. f (outside (plugins g)) = (w, r) \<and> g' = g\<lparr>plugins := (plugins g)\<lparr>outside := w\<rparr>\<rparr>)"
  by (cases "f (outside (plugins g))") (auto simp: on_backend_def)

lemma before_post_state:
  assumes "before penv rt op name payload update nothing w = (w', Ok (u, state))" "post_hook (runtime_hooks rt op)"
  shows "\<exists>call. state = Some call \<and> cs_runtime call = rt"
  using assms by (auto simp: before_def Let_def bind_res_eq_Ok split: prod.splits if_splits option.splits)

lemma before_read_resource_state:
  assumes "before_read_resource penv acc (Active rt) uri w = (w', Ok h)" "post_hook (runtime_hooks rt Resource)"
  shows "\<exists>call. resource_call h = Some call \<and> cs_runtime call = rt"
  using assms before_post_state
  by (fastforce simp: before_read_resource_def current_runtime_def lift_sm_Ok return_sm_def elim!: bind_sm_Ok)

text \<open>
  Property C9 (secrets in resources stay inside): with the secrets plugin behind the post hook of resource
  reads, a client that gets an answer gets what one backend read returned, each text with its secrets redacted
  when redaction is on and everything else untouched; a read whose texts have as many findings as the blocking
  threshold asks for is never answered.
\<close>

theorem secrets_guard_resources:
  assumes "regex_laws renv" and "runs_secrets (g_plugins env) renv core (manager rt)"
    and "post_hook (runtime_hooks rt Resource)"
    and "read_resource env (Some (Active rt)) request cx g = (g', Ok delivered)"
  shows "\<exists>b routed w w' response. g_read_resource env b routed w = (w', Ok response) \<and>
    \<not> blocks (scanner_config core) (concat (map (text_findings renv (scanner_config core)) (content_texts (rrr_contents response)))) \<and>
    delivered = response\<lparr>rrr_contents := map (content_delivered renv (scanner_config core)) (rrr_contents response)\<rparr>"
proof -
  from assms(4) obtain uri g1 g2 h where h: "on_plugins (before_read_resource (g_plugins env) (g_access env) (Active rt) uri) g1 = (g2, Ok h)"
    and rest: "\<exists>b routed g3 g4 response. on_backend (g_read_resource env b routed) g3 = (g4, Ok response) \<and>
      (\<exists>g5. on_plugins (after_read_resource (g_plugins env) (g_access env) (g_b64_decode env) (g_b64_encode env) h response) g5
         = (g', Ok delivered))"
    unfolding read_resource_def
    by (auto elim!: bind_sm_Ok simp: lift_sm_Ok return_sm_def Let_def map_err_eq_Ok split: prod.splits) blast
  from h obtain w1 w2 where "before_read_resource (g_plugins env) (g_access env) (Active rt) uri w1 = (w2, Ok h)"
    by (auto simp: on_plugins_eq)
  from before_read_resource_state [OF this assms(3)] obtain call where call: "resource_call h = Some call" "cs_runtime call = rt"
    by blast
  from rest obtain b routed w3 w4 response w5 w6 where r: "g_read_resource env b routed w3 = (w4, Ok response)"
    "after_read_resource (g_plugins env) (g_access env) (g_b64_decode env) (g_b64_encode env) h response w5 = (w6, Ok delivered)"
    by (auto simp: on_plugins_eq on_backend_eq)
  from after_read_resource_secrets [OF assms(1) _ call(1) r(2)] assms(2) call(2) r(1) show ?thesis by blast
qed

section \<open>Tool results\<close>

lemma call_invoke_runtime:
  "call_invoke penv op to_payload call response w = (w', call', r) \<Longrightarrow> cs_runtime call' = cs_runtime call"
  by (auto simp: call_invoke_def split: sum.splits prod.splits if_splits)

lemma after_stream_event_runtime:
  "after_stream_event penv acc to_json from_json call event w = (w', call', r) \<Longrightarrow> cs_runtime call' = cs_runtime call"
  by (auto simp: after_stream_event_def split: prod.splits sum.splits dest: call_invoke_runtime)

lemma on_progress_runtime:
  "on_progress penv acc to_json from_json calls progress hooks w = (w', hooks', sent) \<Longrightarrow>
     map_option cs_runtime (hooks' r) = map_option cs_runtime (hooks r)"
  by (auto simp: on_progress_def stream_event_post_hook_def Let_def bind_eq_Some_conv
      split: option.splits prod.splits sum.splits dest!: after_stream_event_runtime)

lemma relay_progress_runtime:
  "relay_progress env calls ns hooks g = (g', hooks') \<Longrightarrow> map_option cs_runtime (hooks' r) = map_option cs_runtime (hooks r)"
proof (induction ns arbitrary: hooks g)
  case (Cons n ns)
  then show ?case by (auto split: prod.splits dest!: on_progress_runtime [of _ _ _ _ _ _ _ _ _ _ _ r])
qed simp

text \<open>The result that the client gets for a redacted one: read back from the redacted JSON value.\<close>

definition result_delivered ::
  "rmcp_codec \<Rightarrow> regex_env \<Rightarrow> secrets_detection_config \<Rightarrow> call_tool_result \<Rightarrow> call_tool_result" where
  "result_delivered cdc renv config response =
     (let v = json_or_null (result_to_json cdc response); redacted = value_redacted renv config v in
      if redact config \<and> value_findings renv config v \<noteq> []
      then (case result_from_json cdc redacted of
              None \<Rightarrow> raw_tool_result cdc redacted (error_flag response)
            | Some r \<Rightarrow> r\<lparr>ctr_is_error := Some (error_flag response)\<rparr>)
      else response)"

lemma after_tool_call_secrets:
  assumes "regex_laws renv" "runs_secrets penv renv core (manager (cs_runtime call))" "cmf_access_laws acc"
    and "after_tool_call penv acc cdc call response w = (w', Ok delivered)"
  shows "\<not> blocks (scanner_config core) (value_findings renv (scanner_config core) (json_or_null (result_to_json cdc response))) \<and>
    delivered = result_delivered cdc renv (scanner_config core) response"
proof -
  let ?config = "scanner_config core" and ?v = "json_or_null (result_to_json cdc response)"
  let ?p = "tool_result_payload acc cdc (cs_name call) response (cs_id call)"
  from assms(4) obtain call' where after: "call_after penv Tool (tool_to_payload acc cdc) (tool_apply_payload acc cdc)
      call response w = (w', call', Ok delivered)" by (auto simp: after_tool_call_def split: prod.splits)
  have p: "tool_to_payload acc cdc response (cs_name call) (cs_id call) = Ok ?p" by (simp add: tool_to_payload_def)
  have hook: "stage_of_hook (snd (operation_hooks Tool)) = Some ToolPostInvoke"
    by (simp add: operation_hooks_def stage_of_hook_def)
  have f: "payload_findings renv ?config ToolPostInvoke ?p = value_findings renv ?config ?v"
    by (simp add: tool_result_payload_def tool_json_result_payload_def message_payload_def payload_findings_def
        content_findings_def scanned_value_def)
  note s = call_after_secrets [where to_payload = "tool_to_payload acc cdc", OF assms(1,2) hook p after]
  have "tool_result_response acc cdc response (payload_redacted renv ?config ToolPostInvoke ?p) =
      result_delivered cdc renv ?config response" if "redact ?config \<and> value_findings renv ?config ?v \<noteq> []"
    using that assms(3)
    by (cases "result_from_json cdc (value_redacted renv ?config ?v)")
      (simp_all add: tool_result_payload_def tool_json_result_payload_def message_payload_def payload_redacted_def
        content_redacted_def scanned_value_def put_value_def tool_result_response_def cmf_access_laws_def part_simps
        first_of_def result_delivered_def Let_def)
  with s f show ?thesis by (auto simp: tool_apply_payload_def result_delivered_def split: if_splits)
qed

lemma map_sum_eq_Ok: "map_sum f g r = Ok y \<longleftrightarrow> (\<exists>x. r = Ok x \<and> y = g x)"
  by (cases r) auto

lemma run_backend_tool_Ok:
  assumes "run_backend_tool env name b request cx post g = (g', Ok (post', response))"
  shows "\<exists>handle w w' notifications. g_await_tool env b handle w =
      (w', notifications, Responded (CallToolResultResponse response)) \<and>
    map_option cs_runtime post' = map_option cs_runtime post"
proof -
  from assms obtain handle g1 g2 notifications race calls calls' late hooks hooks' g3 g4 g5 g6 where
    "on_backend (g_await_tool env b handle) g1 = (g2, notifications, race)"
    and relay: "relay_progress env calls notifications (shared_state post) g2 = (g3, hooks)"
      "relay_progress env calls' late hooks g5 = (g6, hooks')" "post' = hooks' 0"
    and race: "on_backend (call_backend_tool (g_cancel_tool env b handle) race) g3 = (g4, Ok response)"
    by (auto simp: run_backend_tool_def Let_def map_sum_eq_Ok split: prod.splits sum.splits)
  moreover from race have "race = Responded (CallToolResultResponse response)"
    by (auto simp: on_backend_eq call_backend_tool_def split: tool_race.splits server_result.splits prod.splits if_splits)
  moreover have "map_option cs_runtime (shared_state post 0) = map_option cs_runtime post"
    by (simp add: shared_state_def split: option.splits)
  ultimately show ?thesis
    using relay_progress_runtime [OF relay(1), of 0] relay_progress_runtime [OF relay(2), of 0] relay(3)
    by (auto simp: on_backend_eq)
qed

lemma tool_pre_hook_state:
  assumes "tool_pre_hook env (Some (Active rt)) request tool_name backend g = (g', Ok pre)"
    and "post_hook (runtime_hooks rt Tool)"
  shows "map_option cs_runtime (pre_state pre) = Some rt"
  using assms before_post_state
  by (fastforce simp: tool_pre_hook_def on_plugins_eq before_tool_call_def current_runtime_def lift_sm_Ok return_sm_def
      elim!: bind_sm_Ok)

text \<open>
  Property C8 (secrets in tool results stay inside): with the secrets plugin behind the post hook of tool
  calls, a client that gets a result gets what one backend call returned, read back from its JSON value
  with the secrets redacted when redaction is on and something was found; a result with as many findings
  as the blocking threshold asks for is never delivered.
\<close>

theorem secrets_guard_tool_results:
  assumes "regex_laws renv" and "cmf_access_laws (g_access env)"
    and "runs_secrets (g_plugins env) renv core (manager rt)" and "post_hook (runtime_hooks rt Tool)"
    and "call_tool env (Some (Active rt)) request cx g = (g', Ok delivered)"
  shows "\<exists>b handle w w' notifications response.
    g_await_tool env b handle w = (w', notifications, Responded (CallToolResultResponse response)) \<and>
    \<not> blocks (scanner_config core) (value_findings renv (scanner_config core)
        (json_or_null (result_to_json (g_codec env) response))) \<and>
    delivered = result_delivered (g_codec env) renv (scanner_config core) response"
proof -
  from assms(5) obtain tool backend g1 g2 pre where
    pre: "tool_pre_hook env (Some (Active rt)) request tool backend g1 = (g2, Ok pre)"
    and rest: "\<exists>name b routed g3 g4 post response. run_backend_tool env name b routed cx (pre_state pre) g3 = (g4, Ok (post, response)) \<and>
      tool_post_hook env post response g4 = (g', Ok delivered)"
    unfolding call_tool_def by (auto elim!: bind_sm_Ok simp: lift_sm_Ok) blast
  from rest obtain name b routed g3 g4 post response where
    run: "run_backend_tool env name b routed cx (pre_state pre) g3 = (g4, Ok (post, response))"
    and post: "tool_post_hook env post response g4 = (g', Ok delivered)" by blast
  from run_backend_tool_Ok [OF run] tool_pre_hook_state [OF pre assms(4)] obtain handle w w' notifications call where
    r: "g_await_tool env b handle w = (w', notifications, Responded (CallToolResultResponse response))"
      "post = Some call" "cs_runtime call = rt" by auto
  from post r(2) obtain w1 where "after_tool_call (g_plugins env) (g_access env) (g_codec env) call response (plugins g4) = (w1, Ok delivered)"
    by (auto simp: tool_post_hook_def on_plugins_eq)
  from after_tool_call_secrets [OF assms(1) _ assms(2) this] assms(3) r show ?thesis by blast
qed

section \<open>A gateway with the plugin behind its post hooks\<close>

definition sample_post_runtime :: "nat plugin_runtime" where
  "sample_post_runtime = \<lparr>manager = 0, runtime_hooks = \<lambda>op. \<lparr>pre_hook = False, post_hook = True\<rparr>\<rparr>"

definition sample_leaky :: "(nat, unit, nat, unit, nat) gateway_env" where
  "sample_leaky = sample_guarded\<lparr>g_read_resource := \<lambda>b r w. (Suc w, Ok (sample_read ''id AKIA, no'')),
     g_codec := sample_codec\<lparr>result_to_json := \<lambda>r. Some (JString ''id AKIA, no''),
       result_from_json := \<lambda>j. if j = JString ''id #, no'' then Some (sample_result\<lparr>ctr_content := [text_block ''id #, no'']\<rparr>)
         else None\<rparr>\<rparr>"

lemma sample_secrets_redacts:
  "sample_secrets_result ''cmf.resource_post_fetch'' (message_payload sample_access AssistantRole
     [ResourcePart (plain_cmf_resource i u (Some ''id AKIA, no'') None m)]) =
   \<lparr>is_denied = False, modified_payload = Some (Some (message_payload sample_access AssistantRole
     [ResourcePart (plain_cmf_resource i u (Some ''id #, no'') None m)])), pipeline_violation = None, pipeline_context = 0\<rparr>"
  "sample_secrets_result ''cmf.tool_post_invoke'' (tool_json_result_payload sample_access name (JString ''id AKIA, no'') err i) =
   \<lparr>is_denied = False, modified_payload = Some (Some (tool_json_result_payload sample_access name (JString ''id #, no'') err i)),
    pipeline_violation = None, pipeline_context = 0\<rparr>"
  by (simp_all add: sample_secrets_result_def stage_of_hook_def secrets_handle_def scan_payload_spec [OF sample_regex_laws]
      payload_findings_def payload_redacted_def content_findings_def content_redacted_def scanned_value_def put_value_def
      value_findings_def value_redacted_def message_payload_def plain_cmf_resource_def tool_json_result_payload_def
      sample_detected should_block_def)

lemma sample_leaky_read:
  "snd (read_resource sample_leaky (Some (Active sample_post_runtime)) \<lparr>rq_uri = ''r''\<rparr> sample_context sample_gateway_world) =
     Ok (sample_read ''id #, no'')"
  by (simp add: read_resource_def sample_context_def sample_request_def validate_stateless_def bind_sm_def lift_sm_def
      sample_host_def find_backend_def before_read_resource_def before_def current_runtime_def sample_post_runtime_def
      on_plugins_def Let_def return_sm_def resource_target_def connect_backend_for_request_def on_backend_def
      sample_leaky_def sample_guarded_def sample_gateway_def record_event_def close_backend_def after_read_resource_def
      call_after_def call_invoke_def call_apply_def runtime_invoke_def operation_hooks_def resource_to_payload_def
      resource_result_payload_def sample_read_def cmf_resource_content_def ok_or_def sample_secrets_redacts
      modified_message_payload_def)
    (simp add: resource_apply_payload_def resource_result_response_def edit_resource_def message_payload_def
      plain_cmf_resource_def ok_or_def)

theorem secrets_guard_resources_witness:
  "\<exists>g' b routed w w' response. read_resource sample_leaky (Some (Active sample_post_runtime)) \<lparr>rq_uri = ''r''\<rparr>
       sample_context sample_gateway_world = (g', Ok (sample_read ''id #, no'')) \<and>
     g_read_resource sample_leaky b routed w = (w', Ok response) \<and>
     sample_read ''id #, no'' = response\<lparr>rrr_contents :=
       map (content_delivered sample_regex (scanner_config sample_core)) (rrr_contents response)\<rparr>"
proof -
  obtain g' where r: "read_resource sample_leaky (Some (Active sample_post_runtime)) \<lparr>rq_uri = ''r''\<rparr>
      sample_context sample_gateway_world = (g', Ok (sample_read ''id #, no''))"
    using sample_leaky_read by (metis prod.collapse)
  have h: "runs_secrets (g_plugins sample_leaky) sample_regex sample_core (manager sample_post_runtime)"
    "post_hook (runtime_hooks sample_post_runtime Resource)"
    using sample_runs_secrets by (simp_all add: sample_leaky_def sample_post_runtime_def)
  from secrets_guard_resources [OF sample_regex_laws h r] r show ?thesis by blast
qed

lemma sample_leaky_tool:
  "snd (call_tool sample_leaky (Some (Active sample_post_runtime)) sample_call
     (sample_context\<lparr>cx_progress_token := None\<rparr>) sample_gateway_world) =
     Ok (sample_result\<lparr>ctr_content := [text_block ''id #, no''], ctr_is_error := Some False\<rparr>)"
  by (simp add: call_tool_def sample_context_def sample_request_def validate_stateless_def bind_sm_def lift_sm_def
      sample_call_def sample_host_def find_backend_def check_tool_headers_def tool_pre_hook_def
      return_sm_def before_tool_call_def before_def current_runtime_def sample_post_runtime_def on_plugins_def
      connect_backend_for_request_def on_backend_def sample_leaky_def sample_guarded_def sample_gateway_def
      run_backend_tool_def start_tool_call_def record_event_def tool_post_hook_def call_backend_tool_def
      close_backend_def on_progress_def progress_call_def fresh_calls_def stop_tracking_tool_call_def shared_state_def Let_def
      after_tool_call_def call_after_def call_invoke_def call_apply_def runtime_invoke_def operation_hooks_def
      tool_to_payload_def tool_result_payload_def json_or_null_def sample_secrets_redacts modified_message_payload_def)
    (simp add: tool_apply_payload_def tool_result_response_def tool_json_result_payload_def sample_access_def part_simps
      first_of_def error_flag_def sample_result_def Let_def)

theorem secrets_guard_tool_results_witness:
  "\<exists>g' delivered b handle w w' notifications response.
     call_tool sample_leaky (Some (Active sample_post_runtime)) sample_call (sample_context\<lparr>cx_progress_token := None\<rparr>)
       sample_gateway_world = (g', Ok delivered) \<and> ctr_content delivered = [text_block ''id #, no''] \<and>
     g_await_tool sample_leaky b handle w = (w', notifications, Responded (CallToolResultResponse response)) \<and>
     delivered = result_delivered (g_codec sample_leaky) sample_regex (scanner_config sample_core) response"
proof -
  let ?d = "sample_result\<lparr>ctr_content := [text_block ''id #, no''], ctr_is_error := Some False\<rparr>"
  obtain g' where r: "call_tool sample_leaky (Some (Active sample_post_runtime)) sample_call
      (sample_context\<lparr>cx_progress_token := None\<rparr>) sample_gateway_world = (g', Ok ?d)"
    using sample_leaky_tool by (metis prod.collapse)
  have h: "cmf_access_laws (g_access sample_leaky)"
    "runs_secrets (g_plugins sample_leaky) sample_regex sample_core (manager sample_post_runtime)"
    "post_hook (runtime_hooks sample_post_runtime Tool)"
    using sample_runs_secrets sample_access_laws
    by (simp_all add: sample_leaky_def sample_post_runtime_def sample_guarded_def sample_gateway_def)
  have "ctr_content ?d = [text_block ''id #, no'']" by simp
  with secrets_guard_tool_results [OF sample_regex_laws h r] r show ?thesis by blast
qed

end
