(* ===== verification/SecretsTypes.thy ===== *)
theory SecretsTypes
  imports SecretsPlugin
begin

text \<open>
  What the scanner keeps of the types of its input: Rust's \<open>String\<close> is a valid UTF-8 sequence and
  \<open>serde_json::Value\<close> a tree of such strings with distinct keys. The model has byte lists, so that
  cutting a text at byte positions could leave these types; this theory shows that it does not.
\<close>

section \<open>UTF-8 sequences as sequences of characters\<close>

definition utf8_char :: "string \<Rightarrow> bool" where
  "utf8_char c \<longleftrightarrow> (\<exists>a t. c = a # t \<and> is_char_start a \<and> list_all (\<lambda>b. \<not> is_char_start b) t) \<and>
     (\<forall>s. utf8_valid (c @ s) = utf8_valid s)"

lemma continuation: "in_range lo hi b \<Longrightarrow> 128 \<le> lo \<Longrightarrow> hi \<le> 191 \<Longrightarrow> \<not> is_char_start b"
  by (auto simp: in_range_def is_char_start_def)

lemma utf8_first:
  assumes "utf8_valid (a # r)"
  obtains c s where "a # r = c @ s" "utf8_char c" "utf8_valid s"
proof -
  consider (1) "in_range 0 127 a" | (2) "in_range 194 223 a" | (3) "in_range 224 239 a" | (4) "in_range 240 244 a"
    using assms by (auto split: if_splits)
  then show thesis
  proof cases
    case 1
    then have "utf8_char [a]" by (auto simp: utf8_char_def in_range_def is_char_start_def)
    with 1 assms that [of "[a]" r] show thesis by simp
  next
    case 2
    with assms obtain b t where r: "r = b # t" "in_range 128 191 b" "utf8_valid t"
      by (auto simp: in_range_def split: list.splits)
    with 2 have "utf8_char [a, b]"
      by (auto simp: utf8_char_def in_range_def is_char_start_def)
    with r that [of "[a, b]" t] show thesis by simp
  next
    case 3
    with assms obtain b c t where r: "r = b # c # t" "in_range (if byte a = 224 then 160 else 128) (if byte a = 237 then 159 else 191) b"
      "in_range 128 191 c" "utf8_valid t"
      by (auto simp: in_range_def split: list.splits)
    with 3 have "utf8_char [a, b, c]"
      by (auto simp: utf8_char_def in_range_def is_char_start_def split: if_splits)
    with r that [of "[a, b, c]" t] show thesis by simp
  next
    case 4
    with assms obtain b c d t where r: "r = b # c # d # t"
      "in_range (if byte a = 240 then 144 else 128) (if byte a = 244 then 143 else 191) b"
      "in_range 128 191 c" "in_range 128 191 d" "utf8_valid t"
      by (auto simp: in_range_def split: list.splits)
    with 4 have "utf8_char [a, b, c, d]"
      by (auto simp: utf8_char_def in_range_def is_char_start_def split: if_splits)
    with r that [of "[a, b, c, d]" t] show thesis by simp
  qed
qed

lemma utf8_ascii: "list_all (\<lambda>c. byte c \<le> 127) s \<Longrightarrow> utf8_valid s"
  by (induction s) (simp_all add: in_range_def)

lemma utf8_char_nonempty: "utf8_char c \<Longrightarrow> c \<noteq> []"
  by (auto simp: utf8_char_def)

lemma utf8_char_append: "utf8_char c \<Longrightarrow> utf8_valid (c @ s) = utf8_valid s"
  by (simp add: utf8_char_def)

lemma utf8_induct [consumes 1, case_names Nil char]:
  assumes "utf8_valid s" "P []" "\<And>c s. utf8_char c \<Longrightarrow> utf8_valid s \<Longrightarrow> P s \<Longrightarrow> P (c @ s)"
  shows "P s"
  using assms(1)
proof (induction s rule: length_induct)
  case (1 s)
  show ?case
  proof (cases s)
    case (Cons a r)
    with 1(2) obtain c t where c: "s = c @ t" "utf8_char c" "utf8_valid t" using utf8_first by metis
    with utf8_char_nonempty [of c] have "length t < length s" by simp
    with 1(1) c assms(3) show ?thesis by blast
  qed (simp add: assms(2))
qed

lemma utf8_valid_append: "utf8_valid s \<Longrightarrow> utf8_valid t \<Longrightarrow> utf8_valid (s @ t)"
  by (induction s rule: utf8_induct) (simp_all add: utf8_char_append)

lemma boundary_in_tail:
  assumes "utf8_char c" "is_char_boundary (c @ s) i" "i \<noteq> 0"
  obtains j where "i = length c + j" "is_char_boundary s j"
proof -
  have "length c \<le> i"
  proof (rule ccontr)
    assume "\<not> length c \<le> i"
    with assms have "is_char_start (c ! i)" by (auto simp: is_char_boundary_def nth_append)
    with assms \<open>\<not> length c \<le> i\<close> show False
      by (auto simp: utf8_char_def list_all_length nth_Cons' split: if_splits)
  qed
  then obtain j where "i = length c + j" using le_Suc_ex by blast
  moreover with assms have "is_char_boundary s j" by (auto simp: is_char_boundary_def)
  ultimately show thesis using that by blast
qed

lemma utf8_cut:
  assumes "utf8_valid s" "is_char_boundary s i"
  shows "utf8_valid (take i s) \<and> utf8_valid (drop i s)"
  using assms
proof (induction s arbitrary: i rule: utf8_induct)
  case (char c s)
  show ?case
  proof (cases "i = 0")
    case False
    with char boundary_in_tail obtain j where "i = length c + j" "is_char_boundary s j" by metis
    with char show ?thesis by (simp add: utf8_char_append)
  qed (use char in \<open>simp add: utf8_char_append\<close>)
qed simp

lemma boundary_take: "is_char_boundary s i \<Longrightarrow> i \<le> j \<Longrightarrow> j \<le> length s \<Longrightarrow> is_char_boundary (take j s) i"
  by (auto simp: is_char_boundary_def)

lemma utf8_slice: "utf8_valid s \<Longrightarrow> str_slice s a b = Some t \<Longrightarrow> utf8_valid t"
  using utf8_cut [of s b] utf8_cut [of "take b s" a]
  by (auto simp: str_slice_def boundary_take drop_take split: if_splits)

lemma chars_take_continuation:
  "list_all (\<lambda>b. \<not> is_char_start b) t \<Longrightarrow> chars_take n (t @ s) = t @ chars_take n s"
  by (induction t) simp_all

lemma chars_take_char:
  "utf8_char c \<Longrightarrow> chars_take n (c @ s) = (case n of 0 \<Rightarrow> [] | Suc m \<Rightarrow> c @ chars_take m s)"
  by (auto simp: utf8_char_def chars_take_continuation split: nat.splits)

lemma utf8_chars_take: "utf8_valid s \<Longrightarrow> utf8_valid (chars_take n s)"
  by (induction s arbitrary: n rule: utf8_induct) (auto simp: chars_take_char utf8_char_append split: nat.splits)

section \<open>Texts\<close>

text \<open>What holds of every match: its text is a string and its pattern an enabled one.\<close>

definition match_typed :: "secrets_detection_config \<Rightarrow> match_candidate \<Rightarrow> bool" where
  "match_typed config c \<longleftrightarrow> utf8_valid (mc_text c) \<and> mc_name c \<in> set PATTERNS \<and> is_enabled config (mc_name c)"

lemma collect_opt_all:
  "collect_opt f xs = Some ys \<Longrightarrow> (\<And>x y. x \<in> set xs \<Longrightarrow> f x = Some y \<Longrightarrow> P y) \<Longrightarrow> list_all P ys"
proof (induction xs arbitrary: ys)
  case (Cons x xs)
  then obtain y zs where "f x = Some y" "collect_opt f xs = Some zs" "ys = y # zs"
    by (auto simp: bind_eq_Some_conv split: option.splits)
  moreover from this(1) have "P y" by (rule Cons.prems(2) [rotated]) simp
  moreover have "list_all P zs" using \<open>collect_opt f xs = Some zs\<close>
    by (rule Cons.IH) (auto intro: Cons.prems(2))
  ultimately show ?case by simp
qed simp

lemma pattern_candidates_name:
  assumes "pattern_candidates env config s name = Some cs"
  shows "list_all (\<lambda>c. mc_name c = name \<and> is_enabled config name) cs"
proof -
  have one: "list_all (\<lambda>c. mc_name c = name) ds" if "capture_candidates name s x = Some ds" for x ds
    using that by (auto simp: capture_candidates_def candidate_of_def bind_eq_Some_conv split: option.splits if_splits)
  show ?thesis
    using assms collect_opt_all [of "capture_candidates name s" "captures_iter env name s" _
        "list_all (\<lambda>c. mc_name c = name)"] one
    by (auto simp: pattern_candidates_def candidate_of_def list_all_iff split: if_splits)
qed

lemma collect_candidates_typed:
  assumes "regex_laws env" "utf8_valid s" "collect_candidates env config s = Some cs"
  shows "list_all (match_typed config) cs"
proof -
  from assms(1) have names: "set (pattern_order env) = set PATTERNS"
    unfolding regex_laws_def by (blast dest: mset_eq_setD)
  obtain ds where "collect_candidates env config s = Some ds" "list_all (candidate_ok s) ds"
    using collect_candidates_ok [OF assms(1)] .
  with assms(3) have ok: "list_all (candidate_ok s) cs" by simp
  have "list_all (\<lambda>ds. list_all (\<lambda>c. mc_name c \<in> set PATTERNS \<and> is_enabled config (mc_name c)) ds) dss"
    if "collect_opt (pattern_candidates env config s) (pattern_order env) = Some dss" for dss
  proof (rule collect_opt_all [OF that])
    fix name ds
    assume "name \<in> set (pattern_order env)" "pattern_candidates env config s name = Some ds"
    with names pattern_candidates_name [OF this(2)]
    show "list_all (\<lambda>c. mc_name c \<in> set PATTERNS \<and> is_enabled config (mc_name c)) ds"
      by (simp add: list_all_iff)
  qed
  with assms(3) have "list_all (\<lambda>c. mc_name c \<in> set PATTERNS \<and> is_enabled config (mc_name c)) cs"
    by (auto simp: collect_candidates_def list_all_iff)
  moreover have "utf8_valid (mc_text c)" if "candidate_ok s c" for c
  proof -
    from that have "mc_text c = take (mc_end c - mc_start c) (drop (mc_start c) s)"
      by (cases c) (simp add: candidate_ok_def candidate_of_def)
    moreover from that have "str_slice s (mc_start c) (mc_end c) = Some (take (mc_end c - mc_start c) (drop (mc_start c) s))"
      by (auto simp: candidate_ok_def span_ok_def str_slice_def)
    ultimately show ?thesis using utf8_slice [OF assms(2)] by simp
  qed
  ultimately show ?thesis using ok by (auto simp: match_typed_def list_all_iff)
qed

lemma select_from_typed:
  "match_typed config cur \<Longrightarrow> list_all (match_typed config) cs \<Longrightarrow> list_all (match_typed config) (select_from cur cs)"
proof (induction cs arbitrary: cur)
  case (Cons c cs)
  then have "match_typed config (merge_candidate cur c)" by (auto simp: match_typed_def merge_candidate_def Let_def)
  with Cons show ?case by auto
qed simp

lemma redact_from_utf8:
  assumes "utf8_valid s" "utf8_valid replacement"
  shows "redact_from s replacement cursor cs = Some t \<Longrightarrow> utf8_valid t"
  using assms
  by (induction cs arbitrary: cursor t)
    (auto simp: bind_eq_Some_conv dest: utf8_slice intro!: utf8_valid_append)

definition finding_typed :: "secrets_detection_config \<Rightarrow> finding \<Rightarrow> bool" where
  "finding_typed config f \<longleftrightarrow> utf8_valid (preview f) \<and> pii_type f \<in> set PATTERNS \<and> is_enabled config (pii_type f)"

lemma finding_of_typed:
  assumes "match_typed config c"
  shows "finding_typed config (finding_of c)"
proof -
  have "utf8_valid ''...''" by (rule utf8_ascii) (simp add: byte_def)
  with assms show ?thesis
    by (auto simp: finding_of_def finding_typed_def match_typed_def intro!: utf8_valid_append utf8_chars_take)
qed

lemma detect_typed:
  assumes "regex_laws env" "utf8_valid (redaction_text config)" "utf8_valid s"
  shows "utf8_valid (text_redacted env config s) \<and> list_all (finding_typed config) (text_findings env config s)"
proof -
  obtain cs where cs: "collect_candidates env config s = Some cs" using collect_candidates_ok [OF assms(1)] .
  let ?sel = "select_candidates (sort_key candidate_key cs)"
  from collect_candidates_typed [OF assms(1,3) cs] have "list_all (match_typed config) (sort_key candidate_key cs)"
    by (simp add: list_all_iff)
  then have sel: "list_all (match_typed config) ?sel"
    by (cases "sort_key candidate_key cs") (auto intro: select_from_typed)
  from detect_total [OF assms(1), of config s] cs have
    f: "text_findings env config s = map finding_of ?sel" and
    t: "(if redact config \<and> ?sel \<noteq> [] then redact_from s (redaction_text config) 0 ?sel else Some s) =
      Some (text_redacted env config s)"
    by (auto simp: detect_and_redact_def Let_def)
  from t have "utf8_valid (text_redacted env config s)"
    using assms(3) redact_from_utf8 [OF assms(3,2)] by (metis option.inject)
  with f sel show ?thesis by (auto simp: list_all_iff finding_of_typed)
qed

section \<open>Values and payloads\<close>

text \<open>The values that Rust can hold, and the values that differ in their texts only.\<close>

fun value_typed :: "json \<Rightarrow> bool" where
  "value_typed (JString s) \<longleftrightarrow> utf8_valid s"
| "value_typed (JArray vs) \<longleftrightarrow> list_all value_typed vs"
| "value_typed (JObject kvs) \<longleftrightarrow> distinct (map fst kvs) \<and> list_all (\<lambda>(k, v). utf8_valid k \<and> value_typed v) kvs"
| "value_typed v \<longleftrightarrow> True"

fun same_shape :: "json \<Rightarrow> json \<Rightarrow> bool" where
  "same_shape (JString s) w = (case w of JString t \<Rightarrow> True | _ \<Rightarrow> False)"
| "same_shape (JArray vs) w = (case w of JArray ws \<Rightarrow> list_all2 same_shape vs ws | _ \<Rightarrow> False)"
| "same_shape (JObject kvs) w =
     (case w of JObject kws \<Rightarrow> list_all2 (\<lambda>(k, v) (k', w). k = k' \<and> same_shape v w) kvs kws | _ \<Rightarrow> False)"
| "same_shape v w = (v = w)"

lemma map_leaves_typed:
  assumes "\<And>path s. utf8_valid s \<Longrightarrow> utf8_valid (f path s)"
  shows "value_typed v \<Longrightarrow> value_typed (map_leaves f path v) \<and> same_shape v (map_leaves f path v)"
    and "list_all value_typed vs \<Longrightarrow> list_all value_typed (map_items f path vs) \<and>
      list_all2 same_shape vs (map_items f path vs)"
    and "list_all (\<lambda>(k, v). utf8_valid k \<and> value_typed v) kvs \<Longrightarrow> map fst (map_entries f path kvs) = map fst kvs \<and>
      list_all (\<lambda>(k, v). utf8_valid k \<and> value_typed v) (map_entries f path kvs) \<and>
      list_all2 (\<lambda>(k, v) (k', w). k = k' \<and> same_shape v w) kvs (map_entries f path kvs)"
  using assms
  by (induction f path v and f path vs and f path kvs rule: map_leaves_map_items_map_entries.induct) auto

lemma leaf_findings_typed:
  assumes "\<And>s. utf8_valid s \<Longrightarrow> list_all (finding_typed config) (text_findings env config s)"
  shows "value_typed v \<Longrightarrow> list_all (finding_typed config) (leaf_findings env config (string_leaves path v))"
    and "list_all value_typed vs \<Longrightarrow> list_all (finding_typed config) (leaf_findings env config (item_leaves path vs))"
    and "list_all (\<lambda>(k, v). utf8_valid k \<and> value_typed v) kvs \<Longrightarrow>
      list_all (finding_typed config) (leaf_findings env config (entry_leaves path kvs))"
  using assms
  by (induction path v and path vs and path kvs rule: string_leaves_item_leaves_entry_leaves.induct) auto

lemma value_redacted_typed:
  assumes "regex_laws env" "utf8_valid (redaction_text config)" "value_typed v"
  shows "value_typed (value_redacted env config v) \<and> same_shape v (value_redacted env config v) \<and>
    list_all (finding_typed config) (value_findings env config v)"
proof (cases "\<exists>s. v = JString s")
  case True
  with detect_typed [OF assms(1,2)] assms(3) show ?thesis
    by (auto simp: value_redacted_def value_findings_def)
next
  case False
  then have "value_redacted env config v = map_leaves (leaf_redacted env config) [] v"
    "value_findings env config v = leaf_findings env config (string_leaves [] v)"
    by (auto simp: value_redacted_def value_findings_def split: json.splits)
  moreover have "utf8_valid (leaf_redacted env config path s)" if "utf8_valid s" for path s
    using detect_typed [OF assms(1,2) that] that by (simp add: leaf_redacted_def)
  ultimately show ?thesis
    using map_leaves_typed(1) [OF _ assms(3), of "leaf_redacted env config"]
      leaf_findings_typed(1) [OF _ assms(3)] detect_typed [OF assms(1,2)] by simp
qed

definition part_typed :: "stage \<Rightarrow> content_part \<Rightarrow> bool" where
  "part_typed st part = (case scanned_value st part of None \<Rightarrow> True | Some v \<Rightarrow> value_typed v)"

text \<open>
  A redacted part is the old one with the scanned value replaced by one of the same shape.
\<close>

definition same_part :: "stage \<Rightarrow> content_part \<Rightarrow> content_part \<Rightarrow> bool" where
  "same_part st part part' \<longleftrightarrow> part' = part \<or>
     (\<exists>v w. scanned_value st part = Some v \<and> scanned_value st part' = Some w \<and> same_shape v w \<and>
        part' = put_value part w)"

lemma content_redacted_typed:
  assumes "regex_laws env" "utf8_valid (redaction_text config)" "part_typed st part"
  shows "part_typed st (content_redacted env config st part) \<and> same_part st part (content_redacted env config st part)"
proof (cases "scanned_value st part")
  case (Some v)
  with assms(3) have "value_typed v" by (simp add: part_typed_def)
  note red = value_redacted_typed [OF assms(1,2) this]
  from Some have "scanned_value st (put_value part (value_redacted env config v)) = Some (value_redacted env config v)"
    by (cases st; cases part) (auto simp: scanned_value_def put_value_def value_redacted_def)
  with Some red assms(3) show ?thesis
    by (auto simp: content_redacted_def same_part_def part_typed_def)
qed (simp add: content_redacted_def same_part_def assms(3))

lemma with_content_self [simp]: "with_content m (msg_content m) = m" "msg_content (with_content m ps) = ps"
  by (cases m; simp)+

text \<open>
  Property C16 (redaction keeps the types): a message whose scanned texts and values are ones that Rust can
  hold is handed on as such a message. The parts are in their places and each scanned value keeps
  its shape, the same keys in the same order and only texts changed; all texts are valid UTF-8, although
  the scanner cuts them at byte positions.
\<close>

theorem secrets_payload_typed:
  assumes "regex_laws env" and "utf8_valid (redaction_text (scanner_config core))"
    and "list_all (part_typed st) (msg_content payload)"
    and "secrets_handle env core st trace_id payload = Some r" and "hr_modified r = Some m"
  shows "list_all (part_typed st) (msg_content m) \<and>
    list_all2 (same_part st) (msg_content payload) (msg_content m) \<and> with_content payload (msg_content m) = m"
proof -
  let ?red = "map (content_redacted env (scanner_config core) st) (msg_content payload)"
  from assms(4,5) have "m = payload \<or> m = with_content payload ?red"
    by (auto simp: secrets_handle_def scan_payload_spec [OF assms(1)] payload_redacted_def Let_def split: if_splits)
  then show ?thesis
  proof
    assume "m = payload"
    with assms(3) show ?thesis by (simp add: list_all2_same same_part_def)
  next
    assume m: "m = with_content payload ?red"
    with content_redacted_typed [OF assms(1,2)] assms(3) show ?thesis
      by (auto simp: list_all_iff list_all2_map2 list_all2_same)
  qed
qed

text \<open>The findings that the plugin reports are of enabled patterns, and their previews are strings.\<close>

lemma payload_findings_typed:
  assumes "regex_laws env" "utf8_valid (redaction_text config)" "list_all (part_typed st) (msg_content payload)"
  shows "list_all (finding_typed config) (payload_findings env config st payload)"
proof -
  have "list_all (finding_typed config) (content_findings env config st part)" if "part_typed st part" for part
    using that value_redacted_typed [OF assms(1,2)]
    by (auto simp: content_findings_def part_typed_def split: option.splits)
  with assms(3) show ?thesis by (auto simp: payload_findings_def list_all_iff)
qed

theorem secrets_payload_typed_witness:
  "\<exists>r m. secrets_handle sample_regex sample_core ToolPreInvoke None (sample_tool_payload ''id AKIA, no'') = Some r \<and>
     hr_modified r = Some m \<and> msg_content m \<noteq> msg_content (sample_tool_payload ''id AKIA, no'') \<and>
     list_all (part_typed ToolPreInvoke) (msg_content m)"
proof -
  let ?p = "sample_tool_payload ''id AKIA, no''"
  have "\<exists>r m. secrets_handle sample_regex sample_core ToolPreInvoke None ?p = Some r \<and> hr_modified r = Some m \<and>
     m = sample_tool_payload ''id #, no''"
    using sample_payload_scan by (simp add: secrets_handle_def scan_payload_spec [OF sample_regex_laws] should_block_def)
  then obtain r m where m: "secrets_handle sample_regex sample_core ToolPreInvoke None ?p = Some r"
    "hr_modified r = Some m" "m = sample_tool_payload ''id #, no''" by blast
  have u: "utf8_valid (redaction_text (scanner_config sample_core))"
    by (rule utf8_ascii) (simp add: sample_redacting_def byte_def)
  have "utf8_valid ''q''" "utf8_valid ''id AKIA, no''" by (rule utf8_ascii, simp add: byte_def)+
  then have t: "list_all (part_typed ToolPreInvoke) (msg_content ?p)"
    by (simp add: sample_tool_payload_def part_typed_def scanned_value_def del: utf8_valid.simps)
  from secrets_payload_typed [OF sample_regex_laws u t m(1,2)] m show ?thesis
    by (auto simp: sample_tool_payload_def)
qed

end
