(* ===== verification/RuntimeLifetime.thy ===== *)
theory RuntimeLifetime
  imports PluginRegistry "HOL-Library.AList"
begin

text \<open>
  The life of plugin runtimes (\<open>contextforge-data-plane-cpex/src/runtime.rs\<close>, \<open>registry/mod.rs\<close>): the registry
  shares one runtime and replaces it on a reload; a call takes its own reference of the runtime it found
  (\<open>GatewayPluginRuntimeHandle::current\<close>) and keeps it in its \<open>CallState\<close> until the request finishes. The last reference to go
  drops the runtime, and \<open>Drop\<close> shuts its plugins down. Runtimes are numbered in the order they are made; the
  references are those of the source: the shared cell and one per call.
\<close>

section \<open>Definitions\<close>

record lifetime =
  lf_shared :: "nat option"
  lf_calls :: "(nat \<times> nat) list"
  lf_made :: nat
  lf_dropped :: "nat list"
  lf_shutdown :: "nat list"
  lf_hooks :: "(nat \<times> nat) list"

text \<open>
  \<open>CpexRuntimeRegistry::default\<close> makes the first runtime. An event may happen outside of a Tokio runtime,
  where \<open>Drop\<close> finds no handle.
\<close>

definition fresh_lifetime :: lifetime where
  "fresh_lifetime = \<lparr>lf_shared = Some 0, lf_calls = [], lf_made = 1, lf_dropped = [], lf_shutdown = [], lf_hooks = []\<rparr>"

definition referenced :: "lifetime \<Rightarrow> nat \<Rightarrow> bool" where
  "referenced s i \<longleftrightarrow> lf_shared s = Some i \<or> i \<in> snd ` set (lf_calls s)"

text \<open>\<open>impl Drop for GatewayPluginRuntime\<close>\<close>

definition drop_runtime :: "bool \<Rightarrow> nat \<Rightarrow> lifetime \<Rightarrow> lifetime" where
  "drop_runtime in_tokio i s =
     s\<lparr>lf_dropped := i # lf_dropped s, lf_shutdown := (if in_tokio then i # lf_shutdown s else lf_shutdown s)\<rparr>"

text \<open>A reference goes away: the runtime is dropped if it was the last one.\<close>

definition release :: "bool \<Rightarrow> nat option \<Rightarrow> lifetime \<Rightarrow> lifetime" where
  "release in_tokio old s =
     (case old of
        None \<Rightarrow> s
      | Some i \<Rightarrow> if referenced s i then s else drop_runtime in_tokio i s)"

text \<open>
  What happens to the shared cell and at calls: a configuration is applied (\<open>apply_runtime_config\<close>), a reload fails
  (\<open>set_runtime_failed\<close>), a call takes its reference (\<open>current\<close>), runs a hook on its runtime
  (\<open>GatewayPluginRuntime::invoke\<close>), finishes.
\<close>

datatype lifetime_event = Applied | ReloadFailed | Entered nat | HookRun nat | Left nat

definition swap_runtime :: "bool \<Rightarrow> nat option \<Rightarrow> lifetime \<Rightarrow> lifetime" where
  "swap_runtime in_tokio next s = release in_tokio (lf_shared s) (s\<lparr>lf_shared := next\<rparr>)"

fun lifetime_step :: "bool \<Rightarrow> lifetime_event \<Rightarrow> lifetime \<Rightarrow> lifetime option" where
  "lifetime_step tk Applied s = Some (swap_runtime tk (Some (lf_made s)) (s\<lparr>lf_made := Suc (lf_made s)\<rparr>))"
| "lifetime_step tk ReloadFailed s = Some (swap_runtime tk None s)"
| "lifetime_step tk (Entered c) s =
     (case (map_of (lf_calls s) c, lf_shared s) of
        (None, Some i) \<Rightarrow> Some (s\<lparr>lf_calls := (c, i) # lf_calls s\<rparr>)
      | _ \<Rightarrow> None)"
| "lifetime_step tk (HookRun c) s =
     map_option (\<lambda>i. s\<lparr>lf_hooks := (c, i) # lf_hooks s\<rparr>) (map_of (lf_calls s) c)"
| "lifetime_step tk (Left c) s =
     map_option (\<lambda>i. release tk (Some i) (s\<lparr>lf_calls := AList.delete c (lf_calls s)\<rparr>)) (map_of (lf_calls s) c)"

inductive lifetime_reachable :: "lifetime \<Rightarrow> bool" where
  made: "lifetime_reachable fresh_lifetime"
| lived: "lifetime_reachable s \<Longrightarrow> lifetime_step tk e s = Some s' \<Longrightarrow> lifetime_reachable s'"

section \<open>Runtimes live as long as they are used\<close>

text \<open>A runtime is dropped exactly when no reference is left, and once.\<close>

definition lifetime_inv :: "lifetime \<Rightarrow> bool" where
  "lifetime_inv s \<longleftrightarrow> (\<forall>i. i \<in> set (lf_dropped s) \<longleftrightarrow> i < lf_made s \<and> \<not> referenced s i) \<and>
     (\<forall>i. referenced s i \<longrightarrow> i < lf_made s) \<and> distinct (lf_dropped s) \<and> distinct (lf_shutdown s) \<and>
     set (lf_shutdown s) \<subseteq> set (lf_dropped s) \<and> distinct (map fst (lf_calls s))"

lemma release_fields [simp]:
  "lf_shared (release tk old s) = lf_shared s" "lf_calls (release tk old s) = lf_calls s"
  "lf_made (release tk old s) = lf_made s" "lf_hooks (release tk old s) = lf_hooks s"
  by (simp_all add: release_def drop_runtime_def split: option.splits)

lemma referenced_release [simp]: "referenced (release tk old s) = referenced s"
  by (simp add: referenced_def fun_eq_iff)

text \<open>Taking the reference \<open>old\<close> away from a state in which it counts as one keeps the invariant.\<close>

lemma release_inv:
  assumes "\<forall>i. i \<in> set (lf_dropped s) \<longleftrightarrow> i < lf_made s \<and> \<not> referenced s i \<and> old \<noteq> Some i"
    and "\<forall>i. referenced s i \<longrightarrow> i < lf_made s" "\<And>i. old = Some i \<Longrightarrow> i < lf_made s"
    and "distinct (lf_dropped s)" "distinct (lf_shutdown s)" "set (lf_shutdown s) \<subseteq> set (lf_dropped s)"
    "distinct (map fst (lf_calls s))"
  shows "lifetime_inv (release tk old s)"
proof (cases old)
  case None
  then show ?thesis using assms by (simp add: lifetime_inv_def release_def)
next
  case (Some i)
  then show ?thesis
    using assms by (auto simp: lifetime_inv_def release_def drop_runtime_def referenced_def)
qed

lemma swap_runtime_inv:
  assumes "lifetime_inv s" "i = lf_made s" "t = s\<lparr>lf_made := Suc i\<rparr> \<and> next = Some i \<or> t = s \<and> next = None"
  shows "lifetime_inv (swap_runtime tk next t)"
  unfolding swap_runtime_def
proof (rule release_inv)
  let ?t = "t\<lparr>lf_shared := next\<rparr>"
  have old: "lf_shared t = Some j \<Longrightarrow> j < lf_made s" for j
    using assms by (auto simp: lifetime_inv_def referenced_def)
  have calls: "j \<in> snd ` set (lf_calls s) \<Longrightarrow> j < lf_made s" for j
    using assms(1) by (auto simp: lifetime_inv_def referenced_def)
  show "\<forall>j. j \<in> set (lf_dropped ?t) \<longleftrightarrow> j < lf_made ?t \<and> \<not> referenced ?t j \<and> lf_shared t \<noteq> Some j"
  proof
    fix j
    have "j \<in> set (lf_dropped s) \<longleftrightarrow> j < lf_made s \<and> lf_shared s \<noteq> Some j \<and> j \<notin> snd ` set (lf_calls s)"
      using assms(1) by (auto simp: lifetime_inv_def referenced_def)
    with assms(2,3) calls [of j] show "j \<in> set (lf_dropped ?t) \<longleftrightarrow> j < lf_made ?t \<and> \<not> referenced ?t j \<and> lf_shared t \<noteq> Some j"
      by (elim disjE) (auto simp: referenced_def less_Suc_eq)
  qed
  show "\<forall>j. referenced ?t j \<longrightarrow> j < lf_made ?t"
    using assms(2,3) calls by (fastforce simp: referenced_def less_Suc_eq)
  show "j < lf_made ?t" if "lf_shared t = Some j" for j
    using old [OF that] assms(2,3) by auto
qed (use assms in \<open>auto simp: lifetime_inv_def\<close>)

lemma referenced_delete:
  assumes "distinct (map fst (lf_calls s))" "map_of (lf_calls s) c = Some i"
  shows "referenced s j \<longleftrightarrow> referenced (s\<lparr>lf_calls := AList.delete c (lf_calls s)\<rparr>) j \<or> j = i"
proof -
  have "v = i" if "(c, v) \<in> set (lf_calls s)" for v
    using map_of_is_SomeI [OF assms(1) that] assms(2) by simp
  moreover have "(c, i) \<in> set (lf_calls s)" using assms(2) by (rule map_of_SomeD)
  moreover have "set (AList.delete c (lf_calls s)) = {p \<in> set (lf_calls s). fst p \<noteq> c}"
    by (auto simp: AList.delete_eq case_prod_unfold)
  ultimately have "set (lf_calls s) = insert (c, i) (set (AList.delete c (lf_calls s)))"
    by (intro set_eqI) (metis (mono_tags, lifting) insert_iff mem_Collect_eq prod.collapse)
  then have "snd ` set (lf_calls s) = insert i (snd ` set (AList.delete c (lf_calls s)))"
    by (metis image_insert snd_conv)
  then show ?thesis unfolding referenced_def by (simp add: disj_ac)
qed

lemma lifetime_step_inv:
  assumes "lifetime_inv s" "lifetime_step tk e s = Some s'"
  shows "lifetime_inv s'"
proof (cases e)
  case (Entered c)
  with assms(2) obtain i where i: "map_of (lf_calls s) c = None" "lf_shared s = Some i"
    "s' = s\<lparr>lf_calls := (c, i) # lf_calls s\<rparr>" by (auto split: option.splits)
  then have "referenced s' j \<longleftrightarrow> referenced s j" for j by (auto simp: referenced_def)
  with assms(1) i show ?thesis by (auto simp: lifetime_inv_def map_of_eq_None_iff)
next
  case (Left c)
  with assms(2) obtain i where i: "map_of (lf_calls s) c = Some i"
    "s' = release tk (Some i) (s\<lparr>lf_calls := AList.delete c (lf_calls s)\<rparr>)" by auto
  have d: "distinct (map fst (lf_calls s))" using assms(1) by (simp add: lifetime_inv_def)
  note refs = referenced_delete [OF d i(1)]
  show ?thesis
    unfolding i(2) using assms(1) refs d
    by (intro release_inv) (auto simp: lifetime_inv_def intro: distinct_delete)
next
  case (HookRun c)
  with assms obtain h where "s' = s\<lparr>lf_hooks := h\<rparr>" by auto
  moreover have "referenced (s\<lparr>lf_hooks := h\<rparr>) = referenced s" by (simp add: referenced_def fun_eq_iff)
  ultimately show ?thesis using assms(1) by (simp add: lifetime_inv_def)
qed (use assms swap_runtime_inv [OF assms(1) refl] in auto)

lemma lifetime_reachable_inv: "lifetime_reachable s \<Longrightarrow> lifetime_inv s"
proof (induction rule: lifetime_reachable.induct)
  case made
  then show ?case by (auto simp: lifetime_inv_def fresh_lifetime_def referenced_def)
next
  case (lived s tk e s')
  then show ?case using lifetime_step_inv by blast
qed


abbreviation sample_life :: lifetime where
  "sample_life \<equiv> \<lparr>lf_shared = Some 1, lf_calls = [(7, 0)], lf_made = 2, lf_dropped = [], lf_shutdown = [], lf_hooks = [(7, 0)]\<rparr>"

lemma sample_life_reachable: "lifetime_reachable sample_life"
proof -
  have "lifetime_step True (Entered 7) fresh_lifetime = Some (fresh_lifetime\<lparr>lf_calls := [(7, 0)]\<rparr>)"
    by (simp add: fresh_lifetime_def)
  from lifetime_reachable.lived [OF lifetime_reachable.made this]
  have r1: "lifetime_reachable (fresh_lifetime\<lparr>lf_calls := [(7, 0)]\<rparr>)" .
  have "lifetime_step True Applied (fresh_lifetime\<lparr>lf_calls := [(7, 0)]\<rparr>) = Some (sample_life\<lparr>lf_hooks := []\<rparr>)"
    by (simp add: fresh_lifetime_def swap_runtime_def release_def referenced_def)
  from lifetime_reachable.lived [OF r1 this] have r2: "lifetime_reachable (sample_life\<lparr>lf_hooks := []\<rparr>)" .
  have "lifetime_step True (HookRun 7) (sample_life\<lparr>lf_hooks := []\<rparr>) = Some sample_life" by simp
  from lifetime_reachable.lived [OF r2 this] show ?thesis .
qed


end
