(* ===== verification/AdminTools.thy ===== *)
theory AdminTools
  imports Middleware
begin

text \<open>
  The token tools of \<open>tools.rs\<close> (feature \<open>with_tools\<close>, for local development): publishing the key set
  and minting tokens. The key file, PEM decoding and JWT encoding are parameters; a failed \<open>expect\<close> and
  an index assignment into a value that is no object are panics. The handlers that write configurations
  are in the theory of start-up, with the stores they use. The program of the crate
  \<open>contextforge-data-plane-apis\<close> that prints the JSON schemas is here too.
\<close>

section \<open>Definitions\<close>

definition DEFAULT_TOKEN_EMAIL :: string where "DEFAULT_TOKEN_EMAIL = ''admin@example.com''"
definition JWKS_CACHE_CONTROL :: string where "JWKS_CACHE_CONTROL = ''public, max-age=300, must-revalidate''"

record ('k, 'j) mint_env =
  read_key_file :: "string \<Rightarrow> string option"
  from_rsa_pem :: "string \<Rightarrow> 'k option"
  jwk_of_key :: "'k \<Rightarrow> 'j jwk option"
  render_jwk_set :: "'j jwk list \<Rightarrow> string"
  jwt_encode :: "jwt_header \<Rightarrow> json \<Rightarrow> 'k \<Rightarrow> string option"

text \<open>A reply with its \<open>Cache-Control\<close> header, which only \<open>get_jwks\<close> sets.\<close>

definition get_jwks :: "('k, 'j) mint_env \<Rightarrow> string \<Rightarrow> reply \<times> string option" where
  "get_jwks env key_path =
     (let wrong = (Reply \<lparr>resp_status = 500, resp_content_type = ''text/plain; charset=utf-8'',
            resp_body = ''Can'' @ [CHR 39] @ ''t find the encoding key or the format is wrong''\<rparr>, None)
      in case read_key_file env key_path of
           None \<Rightarrow> (Panicked, None)
         | Some pem \<Rightarrow>
             (case from_rsa_pem env pem of
                None \<Rightarrow> wrong
              | Some key \<Rightarrow>
                  (case jwk_of_key env key of
                     None \<Rightarrow> wrong
                   | Some j \<Rightarrow> (Reply \<lparr>resp_status = 200, resp_content_type = ''application/json'',
                       resp_body = render_jwk_set env [j]\<rparr>, Some JWKS_CACHE_CONTROL))))"

text \<open>\<open>claims[k] = v\<close> of \<open>serde_json\<close>: null becomes an object, anything but an object panics.\<close>

definition object_insert :: "string \<Rightarrow> json \<Rightarrow> json_object \<Rightarrow> json_object" where
  "object_insert k v kvs =
     (if map_of kvs k = None then kvs @ [(k, v)]
      else map (\<lambda>(a, b). if a = k then (k, v) else (a, b)) kvs)"

definition index_set :: "json \<Rightarrow> string \<Rightarrow> json \<Rightarrow> json option" where
  "index_set claims k v =
     (case claims of
        JNull \<Rightarrow> Some (JObject [(k, v)])
      | JObject kvs \<Rightarrow> Some (JObject (object_insert k v kvs))
      | _ \<Rightarrow> None)"

text \<open>Seconds as \<open>u64\<close>; arithmetic wraps, since the release profile has no overflow checks.\<close>

definition seconds :: "int \<Rightarrow> json" where
  "seconds n = JNumber (PosInt (nat (n mod 2 ^ 64)))"

definition token_header :: jwt_header where
  "token_header = \<lparr>alg = ''RS256'', kid = Some ''test''\<rparr>"

definition signed_reply :: "('k, 'j) mint_env \<Rightarrow> string \<Rightarrow> json option \<Rightarrow> reply" where
  "signed_reply env key_path claims =
     (case Option.bind (Option.bind (read_key_file env key_path) (from_rsa_pem env))
             (\<lambda>key. Option.bind claims (\<lambda>c. jwt_encode env token_header c key)) of
        None \<Rightarrow> Panicked
      | Some token \<Rightarrow> Reply \<lparr>resp_status = 200, resp_content_type = ''text/plain; charset=utf-8'', resp_body = token\<rparr>)"

definition get_custom_token :: "('k, 'j) mint_env \<Rightarrow> string \<Rightarrow> int \<Rightarrow> string \<Rightarrow> json \<Rightarrow> reply" where
  "get_custom_token env uuid now key_path claims =
     signed_reply env key_path
       (Option.bind (index_set claims ''exp'' (seconds (now + 3600))) (\<lambda>claims.
        Option.bind (index_set claims ''nbf'' (seconds (now - 60))) (\<lambda>claims.
        Option.bind (index_set claims ''iat'' (seconds now)) (\<lambda>claims.
        index_set claims ''jti'' (JString uuid)))))"

definition token_claims :: "string \<Rightarrow> int \<Rightarrow> string \<Rightarrow> string \<Rightarrow> string option \<Rightarrow> json" where
  "token_claims uuid now tenant_id user_id email = JObject
     [(''iss'', JString ''contexforge-dataplane''), (''sub'', JString user_id),
      (''aud'', JString ''contexforge-dataplane-audience''), (''exp'', seconds (now + 3600)),
      (''nbf'', seconds (now - 60)), (''iat'', seconds now), (''jti'', JString uuid),
      (''token_use'', JString ''api''), (''teams'', JArray [JString ''team_awesome'']),
      (''user'', JObject [(''user_id'', JString user_id), (''tenant_id'', JString ''team_awesome'')]),
      (''scopes'', JObject
        [(''server_id'', JString ''my_id''), (''permissions'', JArray [JString ''tools.read'', JString ''servers.use'']),
         (''ip_restrictions'', JArray [JString ''192.169.1.0/24'']), (''time_restrictions'', JNull)]),
      (''tenant_id'', JString tenant_id),
      (''user_email'', JString (case email of Some e \<Rightarrow> e | None \<Rightarrow> DEFAULT_TOKEN_EMAIL))]"

definition get_token ::
  "('k, 'j) mint_env \<Rightarrow> string \<Rightarrow> int \<Rightarrow> string \<Rightarrow> string \<Rightarrow> string \<Rightarrow> string option \<Rightarrow> reply" where
  "get_token env uuid now key_path tenant_id user_id email =
     signed_reply env key_path (Some (token_claims uuid now tenant_id user_id email))"

text \<open>\<open>add_tools\<close>: the routes, each with its method and its handler.\<close>

datatype tool_handler = GetToken | GetCustomToken | GetJwks | ConfigureUser | ConfigureDataplane

definition TOKEN_PATH :: string where "TOKEN_PATH = ''/admin/tokens/{tenant_id}/{user_id}''"
definition JWKS_PATH :: string where "JWKS_PATH = ''/admin/.well-known/jwks.json''"
definition CONFIGURE_USER_PATH :: string where "CONFIGURE_USER_PATH = ''/admin/userconfigs/{user_id}''"
definition CONFIGURE_GLOBAL_CONFIG_PATH :: string where "CONFIGURE_GLOBAL_CONFIG_PATH = ''/admin/globalconfig''"

definition add_tools :: "(string \<times> string \<times> tool_handler) list \<Rightarrow> (string \<times> string \<times> tool_handler) list" where
  "add_tools router = router @
     [(TOKEN_PATH, ''GET'', GetToken), (TOKEN_PATH, ''POST'', GetCustomToken), (JWKS_PATH, ''GET'', GetJwks),
      (CONFIGURE_USER_PATH, ''POST'', ConfigureUser), (CONFIGURE_GLOBAL_CONFIG_PATH, ''POST'', ConfigureDataplane)]"

subsection \<open>Printing the schemas\<close>

text \<open>
  \<open>main\<close> of the crate \<open>contextforge-data-plane-apis\<close>: the pretty-printed schema of each type is written to its
  file, and the first failure ends it. Generating and printing a schema (\<open>schemars\<close>, \<open>serde_json\<close>) and the file
  system are parameters.
\<close>

definition write_schema ::
  "(string \<Rightarrow> string option) \<Rightarrow> (string \<Rightarrow> string \<Rightarrow> 'w \<Rightarrow> 'w \<times> bool) \<Rightarrow> string \<Rightarrow> string
    \<Rightarrow> ('w, string, unit) sm" where
  "write_schema pretty write name path w =
     (case pretty name of
        None \<Rightarrow> (w, Err ''serialization'')
      | Some s \<Rightarrow> (case write path s w of (w, ok) \<Rightarrow> (w, if ok then Ok () else Err ''write'')))"

definition schema_main ::
  "(string \<Rightarrow> string option) \<Rightarrow> (string \<Rightarrow> string \<Rightarrow> 'w \<Rightarrow> 'w \<times> bool) \<Rightarrow> ('w, string, unit) sm" where
  "schema_main pretty write =
     bind_sm (write_schema pretty write ''UserConfig'' ''./schemas/user_config.json'') (\<lambda>_.
     bind_sm (write_schema pretty write ''User'' ''./schemas/user.json'') (\<lambda>_.
     write_schema pretty write ''GlobalConfig'' ''./schemas/global_config.json''))"

section \<open>Custom claims\<close>

lemma map_of_object_insert:
  "map_of (object_insert k v kvs) x = (if x = k then Some v else map_of kvs x)"
proof (cases "map_of kvs k")
  case None
  then show ?thesis by (auto simp: object_insert_def map_add_def split: option.splits)
next
  case (Some y)
  have "map_of (map (\<lambda>(a, b). if a = k then (k, v) else (a, b)) kvs) x =
      (if x = k \<and> map_of kvs k \<noteq> None then Some v else map_of kvs x)" by (induction kvs) auto
  with Some show ?thesis by (simp add: object_insert_def)
qed

text \<open>
  The custom token keeps every claim of the caller but the four that the tool sets; a body that is neither
  an object nor null makes the handler panic.
\<close>

lemma custom_token_claims:
  "get_custom_token env uuid now path (JObject kvs) = signed_reply env path (Some (JObject (fold (\<lambda>(k, v). object_insert k v)
     [(''exp'', seconds (now + 3600)), (''nbf'', seconds (now - 60)), (''iat'', seconds now), (''jti'', JString uuid)] kvs)))"
  "get_custom_token env uuid now path (JArray xs) = Panicked"
  "get_custom_token env uuid now path (JString s) = Panicked"
  by (simp_all add: get_custom_token_def index_set_def signed_reply_def split: option.split)

section \<open>A minted token opens the gateway\<close>

text \<open>
  The documented behaviour of the JWT library for a key \<open>k\<close> and its public side \<open>d\<close>: an encoded token has
  the given header, it is decoded with the public key to its claims while it is valid, and the
  published key is a key for signatures without an identifier.
\<close>

definition valid_at :: "int \<Rightarrow> json \<Rightarrow> bool" where
  "valid_at t claims \<longleftrightarrow>
     (case (json_get claims ''exp'', json_get claims ''nbf'') of
        (Some (JNumber (PosInt e)), Some (JNumber (PosInt b))) \<Rightarrow> t \<le> int e \<and> int b \<le> t
      | _ \<Rightarrow> False)"

definition mint_laws :: "('k, 'j) mint_env \<Rightarrow> ('d, 'j, 'c, 'n) jwt_env \<Rightarrow> 'k \<Rightarrow> 'd \<Rightarrow> bool" where
  "mint_laws menv env k d \<longleftrightarrow>
     (\<exists>j. jwk_of_key menv k = Some j \<and> public_key_use j = None \<and> key_operations j = None \<and> jwk_key_id j = None \<and>
        key_from_jwk env j = Some d \<and> parse_jwk_set env (render_jwk_set menv [j]) = Some [j]) \<and>
     key_family env d = Rsa \<and> family_of_alg env ''RS256'' = Rsa \<and>
     (\<forall>h c token. jwt_encode menv h c k = Some token \<longrightarrow>
        utf8_valid token \<and> decode_header env token = Some h \<and>
        (\<forall>t v. val_alg v = alg h \<and> \<not> validate_aud v \<and> valid_at t c \<longrightarrow> decode_token env t token d v = Some c))"

text \<open>The gateway's key set URL answers with the reply of \<open>get_jwks\<close>, in one chunk.\<close>

definition serves_keys :: "('d, 'j, 'c, 'n) jwt_env \<Rightarrow> url \<Rightarrow> reply \<Rightarrow> bool" where
  "serves_keys env u rep \<longleftrightarrow>
     (\<forall>n. \<exists>n' resp. rep = Reply resp \<and> int (length (resp_body resp)) \<le> JWKS_MAX_RESPONSE_BYTES \<and>
        http_get env u n = (n', Some \<lparr>status_ok = (resp_status resp = 200), content_length = None,
          chunks = [Some (resp_body resp)]\<rparr>))"

lemma minted_keys:
  assumes "mint_laws menv env k d" "read_key_file menv path = Some pem" "from_rsa_pem menv pem = Some k"
    and "serves_keys env u (fst (get_jwks menv path))"
  shows "snd (fetch_jwks env u net) = Ok [\<lparr>key_id = None, decoding_key = d\<rparr>]"
proof -
  from assms(1) obtain j where j: "jwk_of_key menv k = Some j" "public_key_use j = None" "key_operations j = None"
      "jwk_key_id j = None" "key_from_jwk env j = Some d" "parse_jwk_set env (render_jwk_set menv [j]) = Some [j]"
      "key_family env d = Rsa" unfolding mint_laws_def by blast
  have "fst (get_jwks menv path) = Reply \<lparr>resp_status = 200, resp_content_type = ''application/json'',
      resp_body = render_jwk_set menv [j]\<rparr>" using assms(2,3) j(1) by (simp add: get_jwks_def Let_def)
  with assms(4) obtain n' where "http_get env u net = (n', Some \<lparr>status_ok = True, content_length = None,
      chunks = [Some (render_jwk_set menv [j])]\<rparr>)" "int (length (render_jwk_set menv [j])) \<le> JWKS_MAX_RESPONSE_BYTES"
    unfolding serves_keys_def by fastforce
  with j show ?thesis
    by (simp add: fetch_jwks_def keys_of_response_def saturating_sub_def validated_json_web_keys_def key_from_def
        JWKS_MAX_RESPONSE_BYTES_def)
qed

lemma seconds_valid: "0 \<le> n \<Longrightarrow> n < 2 ^ 64 \<Longrightarrow> seconds n = JNumber (PosInt (nat n))"
  by (simp add: seconds_def)


definition sample_mint :: "(unit, string) mint_env" where
  "sample_mint = \<lparr>read_key_file = Some, from_rsa_pem = (\<lambda>_. Some ()),
     jwk_of_key = (\<lambda>_. Some \<lparr>public_key_use = None, key_operations = None, jwk_key_id = None, jwk_material = ''rsa''\<rparr>),
     render_jwk_set = (\<lambda>_. ''keys''),
     jwt_encode = (\<lambda>h c k. if h = token_header \<and> c = token_claims ''id'' 100 ''t'' ''ann'' None then Some ''tok'' else None)\<rparr>"

definition sample_verifier :: "(string, string, string verification_key list option, nat) jwt_env" where
  "sample_verifier = sample_jwt\<lparr>
     parse_jwk_set := \<lambda>_. Some [\<lparr>public_key_use = None, key_operations = None, jwk_key_id = None, jwk_material = ''rsa''\<rparr>],
     decode_header := \<lambda>_. Some token_header,
     decode_token := \<lambda>now t d v. Some (token_claims ''id'' 100 ''t'' ''ann'' None),
     http_get := \<lambda>u n. (n, Some \<lparr>status_ok = True, content_length = None, chunks = [Some ''keys'']\<rparr>)\<rparr>"


end
