(* ===== verification/ToolStream.thy ===== *)
theory ToolStream
  imports Routing "HOL-Library.Multiset"
begin

text \<open>
  The tasks of one tool call (\<open>gateway/mcp_service/tools.rs\<close>, \<open>gateway/backend_client.rs\<close>,
  \<open>contextforge-data-plane-cpex/src/tools\<close>): the request handler awaits the response, and every progress
  notification of the backend is handled by a task of its own (\<open>on_progress\<close>). They share the table of tracked
  calls, behind a read-write lock, and the hook state of the call, behind the mutex of \<open>ToolHookState\<close>: a hook
  clones the context table of the plugins, runs them, and writes the new table back. The theory
  interleaves the tasks at the points where they await.
\<close>

section \<open>Definitions\<close>

text \<open>
  The two post hooks of a tool call, \<open>after_stream_event\<close> and \<open>CallState::after\<close> of \<open>after_tool_call\<close>, and what is
  recorded of a run for the statements: the state it read, its input, the state it wrote, its answer.
\<close>

definition event_hook ::
  "('m, 'f, 't, 'b, 'w) gateway_env \<Rightarrow> ('m, 't) call_state \<Rightarrow> progress_notification \<Rightarrow> 'w plugin_world
    \<Rightarrow> 'w plugin_world \<times> ('m, 't) call_state \<times> (progress_notification option, error_data) result" where
  "event_hook env = after_stream_event (g_plugins env) (g_access env) (g_progress_json env) (g_progress_parse env)"

definition response_hook ::
  "('m, 'f, 't, 'b, 'w) gateway_env \<Rightarrow> ('m, 't) call_state \<Rightarrow> call_tool_result \<Rightarrow> 'w plugin_world
    \<Rightarrow> 'w plugin_world \<times> ('m, 't) call_state \<times> (call_tool_result, error_data) result" where
  "response_hook env = call_after (g_plugins env) Tool (tool_to_payload (g_access env) (g_codec env))
     (tool_apply_payload (g_access env) (g_codec env))"

datatype ('m, 't) hook_run =
    EventRun (run_before: "('m, 't) call_state") progress_notification (run_after: "('m, 't) call_state")
      "(progress_notification option, error_data) result"
  | ResponseRun (run_before: "('m, 't) call_state") call_tool_result (run_after: "('m, 't) call_state")
      "(call_tool_result, error_data) result"

text \<open>
  Where a notification task stands: before the lookup of its token, waiting for the mutex, holding it with the
  state it read, about to notify the client, finished. The request handler: awaiting, answered, no longer
  tracked, holding the mutex, returned.
\<close>

datatype ('m, 't) note_phase =
    Arrived progress_notification | Looked progress_notification
  | InHook progress_notification "('m, 't) call_state"
  | Passed progress_notification | Settled "progress_notification option"

datatype ('m, 't) main_phase =
    Awaiting | Answered "(call_tool_result, service_error) result"
  | Untracked "(call_tool_result, service_error) result"
  | InPostHook call_tool_result "('m, 't) call_state"
  | Returned "(call_tool_result, error_data) result"

record ('m, 't, 'w) tool_stream =
  ts_calls :: "unit in_flight_calls"
  ts_cell :: "('m, 't) call_state option"
  ts_locked :: bool
  ts_world :: "'w plugin_world"
  ts_notes :: "('m, 't) note_phase list"
  ts_arrived :: "progress_notification list"
  ts_main :: "('m, 't) main_phase"
  ts_relayed :: "progress_notification list"
  ts_runs :: "('m, 't) hook_run list"

text \<open>The state right after \<open>start_tool_call\<close>.\<close>

definition started_stream ::
  "unit in_flight_calls \<Rightarrow> ('m, 't) call_state option \<Rightarrow> 'w plugin_world \<Rightarrow> ('m, 't, 'w) tool_stream" where
  "started_stream calls post w =
     \<lparr>ts_calls = calls, ts_cell = post, ts_locked = False, ts_world = w, ts_notes = [], ts_arrived = [], ts_main = Awaiting,
      ts_relayed = [], ts_runs = []\<rparr>"

text \<open>
  What may happen next: a notification arrives, its task looks its token up, takes the mutex, runs the hook and
  gives the mutex back, notifies the client; the response of the backend arrives, the handler stops tracking,
  takes the mutex (or returns at once without hook state or without a result), runs the final hook; other
  requests change the world of the plugins.
\<close>

datatype 'w stream_action =
    Arrive progress_notification | Lookup nat | Acquire nat | RunEvent nat | Relay nat
  | Respond "(call_tool_result, service_error) result" | Untrack | AcquireFinal | RunFinal
  | Elsewhere "'w plugin_world"

definition set_note :: "nat \<Rightarrow> ('m, 't) note_phase \<Rightarrow> ('m, 't, 'w) tool_stream \<Rightarrow> ('m, 't, 'w) tool_stream" where
  "set_note i phase s = s\<lparr>ts_notes := (ts_notes s)[i := phase]\<rparr>"

definition note_at :: "('m, 't, 'w) tool_stream \<Rightarrow> nat \<Rightarrow> ('m, 't) note_phase option" where
  "note_at s i = (if i < length (ts_notes s) then Some (ts_notes s ! i) else None)"

definition looked_up :: "('m, 't, 'w) tool_stream \<Rightarrow> progress_notification \<Rightarrow> ('m, 't) note_phase" where
  "looked_up s n =
     (case progress_call (ts_calls s) (progress_token n) of
        None \<Rightarrow> Settled None
      | Some call \<Rightarrow>
          (let n = n\<lparr>progress_token := downstream_progress_token call\<rparr>
           in if post_state call = None then Passed n else Looked n))"

text \<open>The guard is dropped when the hook returns: the new state is in the cell and the mutex is free.\<close>

definition finish_run ::
  "'w plugin_world \<Rightarrow> ('m, 't) hook_run \<Rightarrow> ('m, 't, 'w) tool_stream \<Rightarrow> ('m, 't, 'w) tool_stream" where
  "finish_run w run s =
     s\<lparr>ts_world := w, ts_cell := Some (run_after run), ts_locked := False, ts_runs := run # ts_runs s\<rparr>"

fun stream_step ::
  "('m, 'f, 't, 'b, 'w) gateway_env \<Rightarrow> request_handle \<Rightarrow> 'w stream_action \<Rightarrow> ('m, 't, 'w) tool_stream
    \<Rightarrow> ('m, 't, 'w) tool_stream option" where
  "stream_step env h (Arrive n) s = 
     Some (s\<lparr>ts_notes := ts_notes s @ [Arrived n], ts_arrived := n # ts_arrived s\<rparr>)"
| "stream_step env h (Lookup i) s =
     (case note_at s i of Some (Arrived n) \<Rightarrow> Some (set_note i (looked_up s n) s) | _ \<Rightarrow> None)"
| "stream_step env h (Acquire i) s =
     (case (note_at s i, ts_cell s, ts_locked s) of
        (Some (Looked n), Some call, False) \<Rightarrow> Some (set_note i (InHook n call) (s\<lparr>ts_locked := True\<rparr>))
      | _ \<Rightarrow> None)"
| "stream_step env h (RunEvent i) s =
     (case note_at s i of
        Some (InHook n call) \<Rightarrow>
          (case event_hook env call n (ts_world s) of
             (w, call', answer) \<Rightarrow>
               Some (set_note i (case answer of Ok (Some n) \<Rightarrow> Passed n | _ \<Rightarrow> Settled None)
                 (finish_run w (EventRun call n call' answer) s)))
      | _ \<Rightarrow> None)"
| "stream_step env h (Relay i) s =
     (case note_at s i of
        Some (Passed n) \<Rightarrow> Some (set_note i (Settled (Some n)) (s\<lparr>ts_relayed := n # ts_relayed s\<rparr>))
      | _ \<Rightarrow> None)"
| "stream_step env h (Respond r) s =
     (case ts_main s of Awaiting \<Rightarrow> Some (s\<lparr>ts_main := Answered r\<rparr>) | _ \<Rightarrow> None)"
| "stream_step env h Untrack s =
     (case ts_main s of
        Answered r \<Rightarrow> Some (s\<lparr>ts_main := Untracked r,
          ts_calls := stop_tracking_tool_call (handle_progress_token h) (ts_calls s)\<rparr>)
      | _ \<Rightarrow> None)"
| "stream_step env h AcquireFinal s =
     (case ts_main s of
        Untracked (Err e) \<Rightarrow> Some (s\<lparr>ts_main := Returned (Err (backend_forward_error e))\<rparr>)
      | Untracked (Ok r) \<Rightarrow>
          (case (ts_cell s, ts_locked s) of
             (None, _) \<Rightarrow> Some (s\<lparr>ts_main := Returned (Ok r)\<rparr>)
           | (Some call, False) \<Rightarrow> Some (s\<lparr>ts_main := InPostHook r call, ts_locked := True\<rparr>)
           | _ \<Rightarrow> None)
      | _ \<Rightarrow> None)"
| "stream_step env h RunFinal s =
     (case ts_main s of
        InPostHook r call \<Rightarrow>
          (case response_hook env call r (ts_world s) of
             (w, call', answer) \<Rightarrow>
               Some ((finish_run w (ResponseRun call r call' answer) s)\<lparr>ts_main := Returned answer\<rparr>))
      | _ \<Rightarrow> None)"
| "stream_step env h (Elsewhere w) s = Some (s\<lparr>ts_world := w\<rparr>)"

inductive stream_reachable ::
  "('m, 'f, 't, 'b, 'w) gateway_env \<Rightarrow> request_handle \<Rightarrow> ('m, 't, 'w) tool_stream \<Rightarrow> ('m, 't, 'w) tool_stream \<Rightarrow> bool"
  for env h s0 where
  started: "stream_reachable env h s0 s0"
| moved: "stream_reachable env h s0 s \<Longrightarrow> stream_step env h act s = Some s' \<Longrightarrow> stream_reachable env h s0 s'"

section \<open>One notification at a time\<close>

text \<open>
  A task that nobody interrupts does what \<open>on_progress\<close> does with the shared state as its entry 0.
\<close>

fun stream_steps ::
  "('m, 'f, 't, 'b, 'w) gateway_env \<Rightarrow> request_handle \<Rightarrow> 'w stream_action list \<Rightarrow> ('m, 't, 'w) tool_stream
    \<Rightarrow> ('m, 't, 'w) tool_stream option" where
  "stream_steps env h [] s = Some s"
| "stream_steps env h (act # acts) s = Option.bind (stream_step env h act s) (stream_steps env h acts)"

lemma shared_state_0 [simp]: "shared_state post 0 = post" "(shared_state (Some c))(0 \<mapsto> c') = shared_state (Some c')"
  by (simp_all add: shared_state_def split: option.splits)

text \<open>A tracked call refers to the hook state of the call, if there is one.\<close>

definition hook_tracked :: "('m, 't, 'w) tool_stream \<Rightarrow> bool" where
  "hook_tracked s \<longleftrightarrow> (\<forall>t c. ts_calls s t = Some c \<longrightarrow> post_state c = map_option (\<lambda>_. 0) (ts_cell s))"

lemma uninterrupted:
  assumes "\<not> ts_locked s" "hook_tracked s"
    and "on_progress (g_plugins env) (g_access env) (g_progress_json env) (g_progress_parse env) (ts_calls s) n
      (shared_state (ts_cell s)) (ts_world s) = (w, hooks, sent)"
  shows "\<exists>acts s'. stream_steps env h (Arrive n # acts) s = Some s' \<and> ts_world s' = w \<and> shared_state (ts_cell s') = hooks \<and>
    ts_relayed s' = (case sent of None \<Rightarrow> [] | Some (_, m) \<Rightarrow> [m]) @ ts_relayed s \<and>
    \<not> ts_locked s' \<and> ts_calls s' = ts_calls s \<and> (ts_cell s' = None \<longleftrightarrow> ts_cell s = None)"
proof -
  let ?i = "length (ts_notes s)"
  show ?thesis
  proof (cases "progress_call (ts_calls s) (progress_token n)")
    case None
    with assms show ?thesis
      by (intro exI [of _ "[Lookup ?i]"]) (auto simp: on_progress_def looked_up_def set_note_def note_at_def)
  next
    case (Some call)
    then have post: "post_state call = map_option (\<lambda>_. 0) (ts_cell s)"
      using assms(2) by (simp add: progress_call_def hook_tracked_def)
    show ?thesis
    proof (cases "ts_cell s")
      case None
      with Some post assms show ?thesis
        by (intro exI [of _ "[Lookup ?i, Relay ?i]"])
          (auto simp: on_progress_def looked_up_def set_note_def note_at_def stream_event_post_hook_def)
    next
      case (Some c)
      let ?n = "n\<lparr>progress_token := downstream_progress_token call\<rparr>"
      obtain w' c' r where run: "event_hook env c ?n (ts_world s) = (w', c', r)" using prod_cases3 by blast
      show ?thesis
        using Some post assms \<open>progress_call (ts_calls s) (progress_token n) = Some call\<close> run
        by (intro exI [of _ "[Lookup ?i, Acquire ?i, RunEvent ?i] @ (case r of Ok (Some m) \<Rightarrow> [Relay ?i] | _ \<Rightarrow> [])"])
          (auto simp: on_progress_def looked_up_def set_note_def note_at_def stream_event_post_hook_def
            event_hook_def finish_run_def Let_def split: sum.splits option.splits)
    qed
  qed
qed

lemma stream_steps_append:
  "stream_steps env h (acts @ acts') s = Option.bind (stream_steps env h acts s) (stream_steps env h acts')"
proof (induction acts arbitrary: s)
  case (Cons act acts)
  then show ?case by (cases "stream_step env h act s") simp_all
qed simp

lemma stream_steps_reachable:
  assumes "stream_reachable env h s0 s" "stream_steps env h acts s = Some s'"
  shows "stream_reachable env h s0 s'"
  using assms
proof (induction acts arbitrary: s)
  case (Cons act acts)
  then show ?case by (auto simp: bind_eq_Some_conv intro: stream_reachable.moved)
qed simp

text \<open>
  The sequential account of \<open>Routing\<close> is one of the interleavings: the notifications that \<open>relay_progress\<close> handles
  one after the other leave the same world, the same hook state and the same relayed notifications.
\<close>

lemma relay_progress_simulated:
  assumes "\<not> ts_locked s" "hook_tracked s"
    and "ts_world s = plugins g" "events g = map Relayed (ts_relayed s) @ es"
    and "relay_progress env (ts_calls s) ns (shared_state (ts_cell s)) g = (g', hooks)"
  shows "\<exists>acts s'. stream_steps env h acts s = Some s' \<and> ts_world s' = plugins g' \<and>
    shared_state (ts_cell s') = hooks \<and> events g' = map Relayed (ts_relayed s') @ es"
  using assms
proof (induction ns arbitrary: s g)
  case Nil
  then show ?case by (intro exI [of _ "[]"]) auto
next
  case (Cons n ns)
  obtain w hs sent where on: "on_progress (g_plugins env) (g_access env) (g_progress_json env)
      (g_progress_parse env) (ts_calls s) n (shared_state (ts_cell s)) (ts_world s) = (w, hs, sent)"
    using prod_cases3 by blast
  from uninterrupted [OF Cons.prems(1,2) on, of h] obtain acts s1 where
    s1: "stream_steps env h (Arrive n # acts) s = Some s1" "ts_world s1 = w" "shared_state (ts_cell s1) = hs"
      "ts_relayed s1 = (case sent of None \<Rightarrow> [] | Some (_, m) \<Rightarrow> [m]) @ ts_relayed s"
      "\<not> ts_locked s1" "ts_calls s1 = ts_calls s" "ts_cell s1 = None \<longleftrightarrow> ts_cell s = None" by (elim exE conjE) (rule that)
  define g1 where "g1 = (case sent of None \<Rightarrow> g\<lparr>plugins := w\<rparr> | Some (_, m) \<Rightarrow> record_event (Relayed m) (g\<lparr>plugins := w\<rparr>))"
  have "hook_tracked s1"
    using Cons.prems(2) s1(6,7) by (cases "ts_cell s1"; cases "ts_cell s") (auto simp: hook_tracked_def)
  moreover have "ts_world s1 = plugins g1" "events g1 = map Relayed (ts_relayed s1) @ es"
    using Cons.prems(4) s1(2,4) by (auto simp: g1_def record_event_def split: option.splits)
  moreover have "relay_progress env (ts_calls s1) ns (shared_state (ts_cell s1)) g1 = (g', hooks)"
    using Cons.prems(3,5) on s1(3,6) by (simp add: g1_def)
  ultimately obtain acts' s' where "stream_steps env h acts' s1 = Some s'" "ts_world s' = plugins g'"
    "shared_state (ts_cell s') = hooks" "events g' = map Relayed (ts_relayed s') @ es"
    using Cons.IH [OF s1(5)] by blast
  moreover have "stream_steps env h ((Arrive n # acts) @ acts') s = stream_steps env h acts' s1"
    unfolding stream_steps_append s1(1) by simp
  ultimately show ?case by metis
qed

section \<open>The mutex serialises the hooks\<close>

text \<open>
  An object behind a mutex: every run reads the state the run before it wrote. \<open>chained ok before after c0 runs c\<close>
  says this of the list of runs, newest first, from the state \<open>c0\<close> to the state \<open>c\<close>. What a single run keeps,
  the whole history keeps.
\<close>

fun chained :: "('r \<Rightarrow> bool) \<Rightarrow> ('r \<Rightarrow> 's) \<Rightarrow> ('r \<Rightarrow> 's) \<Rightarrow> 's \<Rightarrow> 'r list \<Rightarrow> 's \<Rightarrow> bool" where
  "chained ok before_run after_run c0 [] c \<longleftrightarrow> c = c0"
| "chained ok before_run after_run c0 (r # rs) c \<longleftrightarrow>
     ok r \<and> after_run r = c \<and> chained ok before_run after_run c0 rs (before_run r)"

locale serial_runs =
  fixes genuine :: "'r \<Rightarrow> bool"
    and before_run :: "'r \<Rightarrow> 's"
    and after_run :: "'r \<Rightarrow> 's"
    and identity :: "'s \<Rightarrow> 'k"
  assumes keeps: "genuine r \<Longrightarrow> identity (after_run r) = identity (before_run r)"
begin

abbreviation runs_from :: "'s \<Rightarrow> 'r list \<Rightarrow> 's \<Rightarrow> bool" where
  "runs_from \<equiv> chained genuine before_run after_run"

lemma runs_identity: "runs_from c0 rs c \<Longrightarrow> identity c = identity c0"
  by (induction rs arbitrary: c) (auto simp: keeps)

lemma runs_genuine: "runs_from c0 rs c \<Longrightarrow> r \<in> set rs \<Longrightarrow> genuine r \<and> identity (before_run r) = identity c0"
  by (induction rs arbitrary: c) (auto dest: runs_identity)

lemma runs_consecutive:
  "runs_from c0 rs c \<Longrightarrow> Suc k < length rs \<Longrightarrow> before_run (rs ! k) = after_run (rs ! Suc k)"
proof (induction rs arbitrary: c k)
  case (Cons r rs)
  then show ?case by (cases k; cases rs) auto
qed simp

end

definition genuine_run :: "('m, 'f, 't, 'b, 'w) gateway_env \<Rightarrow> ('m, 't) hook_run \<Rightarrow> bool" where
  "genuine_run env run \<longleftrightarrow> (\<exists>w w'. case run of
       EventRun c n c' answer \<Rightarrow> event_hook env c n w = (w', c', answer)
     | ResponseRun c r c' answer \<Rightarrow> response_hook env c r w = (w', c', answer))"

definition call_identity :: "('m, 't) call_state \<Rightarrow> 'm plugin_runtime \<times> string \<times> string" where
  "call_identity c = (cs_runtime c, cs_name c, cs_id c)"

lemma call_invoke_identity:
  "call_invoke env operation to_payload c r w = (w', c', result) \<Longrightarrow> call_identity c' = call_identity c"
  by (auto simp: call_invoke_def call_identity_def split: sum.splits prod.splits if_splits)

lemma post_hook_identity:
  "after_stream_event env acc to_json from_json c n w = (w', c', answer) \<Longrightarrow> call_identity c' = call_identity c"
  "call_after env operation to_payload apply_payload c r w = (w', c', result) \<Longrightarrow> call_identity c' = call_identity c"
  by (auto simp: after_stream_event_def call_after_def dest!: call_invoke_identity split: prod.split_asm sum.split_asm)

lemma genuine_run_identity: "genuine_run env run \<Longrightarrow> call_identity (run_after run) = call_identity (run_before run)"
  by (cases run) (auto simp: genuine_run_def event_hook_def response_hook_def dest: post_hook_identity)

interpretation hook_runs: serial_runs "genuine_run env" run_before run_after call_identity for env
  by unfold_locales (rule genuine_run_identity)

abbreviation hooks_chained ::
  "('m, 'f, 't, 'b, 'w) gateway_env \<Rightarrow> ('m, 't) call_state \<Rightarrow> ('m, 't) hook_run list \<Rightarrow> ('m, 't) call_state \<Rightarrow> bool"
  where "hooks_chained env \<equiv> chained (genuine_run env) run_before run_after"

text \<open>The states that the tasks inside of a hook have read, and what was relayed, task by task.\<close>

definition note_state :: "('m, 't) note_phase \<Rightarrow> ('m, 't) call_state multiset" where
  "note_state p = (case p of InHook n c \<Rightarrow> {#c#} | _ \<Rightarrow> {#})"

definition main_state :: "('m, 't) main_phase \<Rightarrow> ('m, 't) call_state multiset" where
  "main_state p = (case p of InPostHook r c \<Rightarrow> {#c#} | _ \<Rightarrow> {#})"

definition inside_hook :: "('m, 't, 'w) tool_stream \<Rightarrow> ('m, 't) call_state multiset" where
  "inside_hook s = sum_list (map note_state (ts_notes s)) + main_state (ts_main s)"

definition mutex_inv ::
  "('m, 'f, 't, 'b, 'w) gateway_env \<Rightarrow> ('m, 't) call_state option \<Rightarrow> ('m, 't, 'w) tool_stream \<Rightarrow> bool" where
  "mutex_inv env post s \<longleftrightarrow>
     (case (post, ts_cell s) of
        (None, None) \<Rightarrow> \<not> ts_locked s \<and> inside_hook s = {#} \<and> ts_runs s = []
      | (Some c0, Some c) \<Rightarrow>
          inside_hook s = (if ts_locked s then {#c#} else {#}) \<and> hooks_chained env c0 (ts_runs s) c
      | _ \<Rightarrow> False)"

lemma sum_list_map_update:
  fixes f :: "'a \<Rightarrow> 'b :: comm_monoid_add"
  shows "k < length xs \<Longrightarrow> sum_list (map f (xs[k := x])) + f (xs ! k) = sum_list (map f xs) + f x"
proof (induction xs arbitrary: k)
  case (Cons y ys)
  then show ?case by (cases k) (simp_all add: ac_simps)
qed simp

lemma note_at_Some: "note_at s i = Some p \<longleftrightarrow> i < length (ts_notes s) \<and> ts_notes s ! i = p"
  by (simp add: note_at_def)

lemma set_note_fields [simp]:
  "ts_calls (set_note i q s) = ts_calls s" "ts_cell (set_note i q s) = ts_cell s"
  "ts_locked (set_note i q s) = ts_locked s" "ts_world (set_note i q s) = ts_world s"
  "ts_main (set_note i q s) = ts_main s" "ts_relayed (set_note i q s) = ts_relayed s"
  "ts_runs (set_note i q s) = ts_runs s" "ts_arrived (set_note i q s) = ts_arrived s"
  "ts_notes (set_note i q s) = (ts_notes s)[i := q]"
  by (simp_all add: set_note_def)

lemma finish_run_fields [simp]:
  "ts_calls (finish_run w run s) = ts_calls s" "ts_cell (finish_run w run s) = Some (run_after run)"
  "\<not> ts_locked (finish_run w run s)" "ts_main (finish_run w run s) = ts_main s"
  "ts_relayed (finish_run w run s) = ts_relayed s" "ts_runs (finish_run w run s) = run # ts_runs s"
  "ts_arrived (finish_run w run s) = ts_arrived s" "ts_notes (finish_run w run s) = ts_notes s"
  by (simp_all add: finish_run_def)

lemma inside_set_note:
  assumes "i < length (ts_notes s)" "ts_notes s ! i = p" "ts_notes t = ts_notes s" "ts_main t = ts_main s"
  shows "inside_hook (set_note i q t) + note_state p = inside_hook s + note_state q"
  using sum_list_map_update [of i "ts_notes s" note_state q] assms
  by (auto simp: inside_hook_def ac_simps)

lemma note_state_simps [simp]:
  "note_state (Arrived n) = {#}" "note_state (Looked n) = {#}" "note_state (InHook n c) = {#c#}"
  "note_state (Passed n) = {#}" "note_state (Settled r) = {#}"
  by (simp_all add: note_state_def)

lemma main_state_simps [simp]:
  "main_state Awaiting = {#}" "main_state (Answered r) = {#}" "main_state (Untracked r) = {#}"
  "main_state (InPostHook m c) = {#c#}" "main_state (Returned e) = {#}"
  by (simp_all add: main_state_def)

lemma note_state_looked_up [simp]: "note_state (looked_up s n) = {#}"
  by (simp add: looked_up_def Let_def split: option.splits)

lemma inside_set_main:
  "ts_notes t = ts_notes s \<Longrightarrow> inside_hook (t\<lparr>ts_main := q\<rparr>) + main_state (ts_main s) = inside_hook s + main_state q"
  by (simp add: inside_hook_def ac_simps)

lemma inside_member:
  "i < length (ts_notes s) \<Longrightarrow> ts_notes s ! i = InHook n c \<Longrightarrow> c \<in># inside_hook s"
  "ts_main s = InPostHook r c \<Longrightarrow> c \<in># inside_hook s"
  by (auto simp: inside_hook_def intro!: bexI [of _ "ts_notes s ! i"] dest: nth_mem)

text \<open>A hook that ends: its task was the only one inside, it read the current state, and the chain grows.\<close>

lemma mutex_finish:
  assumes "mutex_inv env post s" "run_before run \<in># inside_hook s" "genuine_run env run"
    and "inside_hook t + {#run_before run#} = inside_hook s" "ts_cell t = Some (run_after run)" "\<not> ts_locked t"
    "ts_runs t = run # ts_runs s"
  shows "mutex_inv env post t"
proof -
  from assms(1,2) obtain c0 c where c: "post = Some c0" "ts_cell s = Some c" "inside_hook s = {#c#}"
    "hooks_chained env c0 (ts_runs s) c" by (auto simp: mutex_inv_def split: option.splits if_splits)
  then have "run_before run = c" using assms(2) by simp
  then show ?thesis using assms(3-) c by (simp add: mutex_inv_def)
qed

lemma genuine_runs:
  "event_hook env c n w = (w', c', answer) \<Longrightarrow> genuine_run env (EventRun c n c' answer)"
  "response_hook env c r w = (w', c', result) \<Longrightarrow> genuine_run env (ResponseRun c r c' result)"
  by (auto simp: genuine_run_def)

lemma mutex_take:
  assumes "mutex_inv env post s" "\<not> ts_locked s" "ts_cell s = Some c"
    and "inside_hook t = inside_hook s + {#c#}" "ts_cell t = ts_cell s" "ts_locked t" "ts_runs t = ts_runs s"
  shows "mutex_inv env post t"
  using assms by (auto simp: mutex_inv_def split: option.splits)

lemma mutex_idle:
  assumes "mutex_inv env post s" "inside_hook t = inside_hook s" "ts_cell t = ts_cell s" "ts_locked t = ts_locked s"
    "ts_runs t = ts_runs s"
  shows "mutex_inv env post t"
  using assms by (auto simp: mutex_inv_def split: option.splits)

text \<open>What an enabled action says about the state it starts from and the state it leads to.\<close>

lemma step_Lookup:
  "stream_step env h (Lookup i) s = Some s' \<longleftrightarrow>
     (\<exists>n. i < length (ts_notes s) \<and> ts_notes s ! i = Arrived n \<and> s' = set_note i (looked_up s n) s)"
  by (cases "ts_notes s ! i") (auto simp: note_at_def)

lemma step_Acquire:
  "stream_step env h (Acquire i) s = Some s' \<longleftrightarrow>
     (\<exists>n c. i < length (ts_notes s) \<and> ts_notes s ! i = Looked n \<and> ts_cell s = Some c \<and> \<not> ts_locked s \<and>
        s' = set_note i (InHook n c) (s\<lparr>ts_locked := True\<rparr>))"
  by (cases "ts_notes s ! i"; cases "ts_cell s"; cases "ts_locked s") (auto simp: note_at_def)

lemma step_RunEvent:
  "stream_step env h (RunEvent i) s = Some s' \<longleftrightarrow>
     (\<exists>n c w c' answer. i < length (ts_notes s) \<and> ts_notes s ! i = InHook n c \<and>
        event_hook env c n (ts_world s) = (w, c', answer) \<and>
        s' = set_note i (case answer of Ok (Some n) \<Rightarrow> Passed n | _ \<Rightarrow> Settled None)
          (finish_run w (EventRun c n c' answer) s))"
  by (cases "ts_notes s ! i") (auto simp: note_at_def split: prod.splits)

lemma step_Relay:
  "stream_step env h (Relay i) s = Some s' \<longleftrightarrow>
     (\<exists>n. i < length (ts_notes s) \<and> ts_notes s ! i = Passed n \<and>
        s' = set_note i (Settled (Some n)) (s\<lparr>ts_relayed := n # ts_relayed s\<rparr>))"
  by (cases "ts_notes s ! i") (auto simp: note_at_def)

lemma step_AcquireFinal:
  "stream_step env h AcquireFinal s = Some s' \<longleftrightarrow>
     (\<exists>e. ts_main s = Untracked (Err e) \<and> s' = s\<lparr>ts_main := Returned (Err (backend_forward_error e))\<rparr>) \<or>
     (\<exists>r. ts_main s = Untracked (Ok r) \<and> ts_cell s = None \<and> s' = s\<lparr>ts_main := Returned (Ok r)\<rparr>) \<or>
     (\<exists>r c. ts_main s = Untracked (Ok r) \<and> ts_cell s = Some c \<and> \<not> ts_locked s \<and>
        s' = s\<lparr>ts_main := InPostHook r c, ts_locked := True\<rparr>)"
  by (cases "ts_main s"; cases "ts_cell s"; cases "ts_locked s") (auto split: sum.splits)

lemma step_RunFinal:
  "stream_step env h RunFinal s = Some s' \<longleftrightarrow>
     (\<exists>r c w c' answer. ts_main s = InPostHook r c \<and> response_hook env c r (ts_world s) = (w, c', answer) \<and>
        s' = (finish_run w (ResponseRun c r c' answer) s)\<lparr>ts_main := Returned answer\<rparr>)"
  by (cases "ts_main s") (auto split: prod.splits)

lemma step_Respond:
  "stream_step env h (Respond r) s = Some s' \<longleftrightarrow> ts_main s = Awaiting \<and> s' = s\<lparr>ts_main := Answered r\<rparr>"
  by (cases "ts_main s") auto

lemma step_Untrack:
  "stream_step env h Untrack s = Some s' \<longleftrightarrow>
     (\<exists>r. ts_main s = Answered r \<and> s' = s\<lparr>ts_main := Untracked r,
        ts_calls := stop_tracking_tool_call (handle_progress_token h) (ts_calls s)\<rparr>)"
  by (cases "ts_main s") auto

lemma step_Elsewhere: "stream_step env h (Elsewhere w) s = Some s' \<longleftrightarrow> s' = s\<lparr>ts_world := w\<rparr>"
  by auto

lemmas step_iff = step_Elsewhere step_Lookup step_Acquire step_RunEvent step_Relay step_AcquireFinal step_RunFinal
  step_Respond step_Untrack

lemma mutex_RunEvent:
  assumes "stream_step env h (RunEvent i) s = Some s'" "mutex_inv env post s"
  shows "mutex_inv env post s'"
proof -
  from assms(1) obtain n c w c' answer where n: "i < length (ts_notes s)" "ts_notes s ! i = InHook n c"
      "event_hook env c n (ts_world s) = (w, c', answer)"
    and s': "s' = set_note i (case answer of Ok (Some n) \<Rightarrow> Passed n | _ \<Rightarrow> Settled None)
      (finish_run w (EventRun c n c' answer) s)"
    by (auto simp: step_iff simp del: stream_step.simps)
  have "note_state (case answer of Ok (Some n) \<Rightarrow> Passed n | _ \<Rightarrow> Settled None) = {#}"
    by (simp split: sum.splits option.splits)
  with inside_set_note [OF n(1,2), of "finish_run w (EventRun c n c' answer) s"] s'
  have "inside_hook s' + {#c#} = inside_hook s" by simp
  with n s' show ?thesis
    by (intro mutex_finish [OF assms(2), of "EventRun c n c' answer"]) (simp_all add: inside_member genuine_runs)
qed

lemma mutex_AcquireFinal:
  assumes "stream_step env h AcquireFinal s = Some s'" "mutex_inv env post s"
  shows "mutex_inv env post s'"
  using assms(1) [unfolded step_AcquireFinal]
proof (elim disjE exE conjE)
  fix e
  assume "ts_main s = Untracked (Err e)" "s' = s\<lparr>ts_main := Returned (Err (backend_forward_error e))\<rparr>"
  then show ?thesis by (intro mutex_idle [OF assms(2)]) (simp_all add: inside_hook_def)
next
  fix r
  assume "ts_main s = Untracked (Ok r)" "s' = s\<lparr>ts_main := Returned (Ok r)\<rparr>"
  then show ?thesis by (intro mutex_idle [OF assms(2)]) (simp_all add: inside_hook_def)
next
  fix r c
  assume "ts_main s = Untracked (Ok r)" "ts_cell s = Some c" "\<not> ts_locked s"
    "s' = s\<lparr>ts_main := InPostHook r c, ts_locked := True\<rparr>"
  then show ?thesis by (intro mutex_take [OF assms(2)]) (simp_all add: inside_hook_def)
qed

lemma mutex_step:
  assumes "stream_step env h act s = Some s'" "mutex_inv env post s"
  shows "mutex_inv env post s'"
proof (cases act)
  case (Acquire i)
  with assms(1) obtain n c where n: "i < length (ts_notes s)" "ts_notes s ! i = Looked n" "ts_cell s = Some c"
      "\<not> ts_locked s" "s' = set_note i (InHook n c) (s\<lparr>ts_locked := True\<rparr>)"
    by (auto simp: step_iff simp del: stream_step.simps)
  have "inside_hook s' = inside_hook s + {#c#}"
    using inside_set_note [OF n(1,2), of "s\<lparr>ts_locked := True\<rparr>" "InHook n c"] n(5) by simp
  then show ?thesis using n by (intro mutex_take [OF assms(2)]) simp_all
next
  case (RunEvent i)
  then show ?thesis using assms mutex_RunEvent by blast
next
  case AcquireFinal
  then show ?thesis using assms mutex_AcquireFinal by blast
next
  case RunFinal
  with assms(1) obtain r c w c' answer where r: "ts_main s = InPostHook r c"
      "response_hook env c r (ts_world s) = (w, c', answer)"
      "s' = (finish_run w (ResponseRun c r c' answer) s)\<lparr>ts_main := Returned answer\<rparr>"
    by (auto simp: step_iff simp del: stream_step.simps)
  with inside_set_main [of "finish_run w (ResponseRun c r c' answer) s" s "Returned answer"]
  have "inside_hook s' + {#c#} = inside_hook s" by simp
  with r show ?thesis
    by (intro mutex_finish [OF assms(2), of "ResponseRun c r c' answer"]) (simp_all add: inside_member genuine_runs)
next
  case (Lookup i)
  with assms(1) obtain n where n: "i < length (ts_notes s)" "ts_notes s ! i = Arrived n"
      "s' = set_note i (looked_up s n) s"
    by (auto simp: step_iff simp del: stream_step.simps)
  then show ?thesis using inside_set_note [OF n(1,2), of s "looked_up s n"]
    by (intro mutex_idle [OF assms(2)]) simp_all
next
  case (Relay i)
  with assms(1) obtain n where n: "i < length (ts_notes s)" "ts_notes s ! i = Passed n"
      "s' = set_note i (Settled (Some n)) (s\<lparr>ts_relayed := n # ts_relayed s\<rparr>)"
    by (auto simp: step_iff simp del: stream_step.simps)
  then show ?thesis
    using inside_set_note [OF n(1,2), of "s\<lparr>ts_relayed := n # ts_relayed s\<rparr>" "Settled (Some n)"]
    by (intro mutex_idle [OF assms(2)]) simp_all
qed (use assms(1) in \<open>auto intro!: mutex_idle [OF assms(2)] simp: inside_hook_def split: main_phase.splits\<close>)

lemma mutex_reachable:
  "stream_reachable env h (started_stream calls post w) s \<Longrightarrow> mutex_inv env post s"
proof (induction rule: stream_reachable.induct)
  case started
  then show ?case by (simp add: mutex_inv_def started_stream_def inside_hook_def split: option.splits)
next
  case (moved s act s')
  then show ?case by (blast intro: mutex_step)
qed

section \<open>What reaches the client\<close>

text \<open>A notification under the client's token, and one that the post hook, if there is one, let through.\<close>

definition renamed :: "unit in_flight_calls \<Rightarrow> ('m, 't, 'w) tool_stream \<Rightarrow> progress_notification \<Rightarrow> bool" where
  "renamed calls s n \<longleftrightarrow> (\<exists>raw \<in> set (ts_arrived s). \<exists>call. calls (progress_token raw) = Some call \<and>
     n = raw\<lparr>progress_token := downstream_progress_token call\<rparr>)"

definition cleared ::
  "unit in_flight_calls \<Rightarrow> ('m, 't) call_state option \<Rightarrow> ('m, 't, 'w) tool_stream \<Rightarrow> progress_notification \<Rightarrow> bool" where
  "cleared calls post s n \<longleftrightarrow>
     (if post = None then renamed calls s n
      else \<exists>c m c'. renamed calls s m \<and> EventRun c m c' (Ok (Some n)) \<in> set (ts_runs s))"

definition hooked_calls :: "unit in_flight_calls \<Rightarrow> ('m, 't) call_state option \<Rightarrow> bool" where
  "hooked_calls calls post \<longleftrightarrow> (\<forall>t c. calls t = Some c \<longrightarrow> (post_state c = None \<longleftrightarrow> post = None))"

fun note_ok ::
  "unit in_flight_calls \<Rightarrow> ('m, 't) call_state option \<Rightarrow> ('m, 't, 'w) tool_stream \<Rightarrow> ('m, 't) note_phase \<Rightarrow> bool" where
  "note_ok calls post s (Arrived n) \<longleftrightarrow> n \<in> set (ts_arrived s)"
| "note_ok calls post s (Looked n) \<longleftrightarrow> renamed calls s n \<and> post \<noteq> None"
| "note_ok calls post s (InHook n c) \<longleftrightarrow> renamed calls s n \<and> post \<noteq> None"
| "note_ok calls post s (Passed n) \<longleftrightarrow> cleared calls post s n"
| "note_ok calls post s (Settled r) \<longleftrightarrow> (\<forall>n. r = Some n \<longrightarrow> cleared calls post s n)"

definition note_relayed :: "('m, 't) note_phase \<Rightarrow> progress_notification multiset" where
  "note_relayed p = (case p of Settled (Some n) \<Rightarrow> {#n#} | _ \<Rightarrow> {#})"

definition relay_inv ::
  "unit in_flight_calls \<Rightarrow> ('m, 't) call_state option \<Rightarrow> ('m, 't, 'w) tool_stream \<Rightarrow> bool" where
  "relay_inv calls post s \<longleftrightarrow> ts_calls s \<subseteq>\<^sub>m calls \<and> (ts_cell s = None \<longleftrightarrow> post = None) \<and>
     (\<forall>p \<in> set (ts_notes s). note_ok calls post s p) \<and> length (ts_notes s) = length (ts_arrived s) \<and>
     mset (ts_relayed s) = sum_list (map note_relayed (ts_notes s))"

lemma cleared_mono:
  assumes "set (ts_arrived s) \<subseteq> set (ts_arrived t)" "set (ts_runs s) \<subseteq> set (ts_runs t)"
  shows "renamed calls s n \<Longrightarrow> renamed calls t n" "cleared calls post s n \<Longrightarrow> cleared calls post t n"
  using assms by (auto simp: renamed_def cleared_def split: if_splits) blast+

lemma note_ok_mono:
  assumes "set (ts_arrived s) \<subseteq> set (ts_arrived t)" "set (ts_runs s) \<subseteq> set (ts_runs t)" "note_ok calls post s p"
  shows "note_ok calls post t p"
  using assms(3) assms(1) cleared_mono [OF assms(1,2)] by (cases p) auto

lemma note_relayed_simps [simp]:
  "note_relayed (Arrived n) = {#}" "note_relayed (Looked n) = {#}" "note_relayed (InHook n c) = {#}"
  "note_relayed (Passed n) = {#}" "note_relayed (Settled None) = {#}" "note_relayed (Settled (Some n)) = {#n#}"
  by (simp_all add: note_relayed_def)

text \<open>An action that moves one notification task on.\<close>

lemma relay_inv_note:
  assumes "relay_inv calls post s" "i < length (ts_notes s)" "ts_notes s ! i = p"
    and "ts_calls t = ts_calls s" "ts_cell t = None \<longleftrightarrow> ts_cell s = None" "ts_notes t = ts_notes s"
      "ts_arrived t = ts_arrived s" "set (ts_runs s) \<subseteq> set (ts_runs t)"
    and "note_ok calls post (set_note i q t) q" "mset (ts_relayed t) + note_relayed p = mset (ts_relayed s) + note_relayed q"
  shows "relay_inv calls post (set_note i q t)"
proof -
  have old: "\<forall>p \<in> set (ts_notes s). note_ok calls post s p" using assms(1) by (simp add: relay_inv_def)
  have "note_ok calls post (set_note i q t) p'" if "p' \<in> set (ts_notes s)" for p'
    by (rule note_ok_mono [of s]) (simp_all add: assms(7,8) bspec [OF old that])
  then have "\<forall>p' \<in> set ((ts_notes s)[i := q]). note_ok calls post (set_note i q t) p'"
    using assms(9) set_update_subset_insert [of "ts_notes s" i q] by auto
  moreover have "mset (ts_relayed t) + note_relayed p = sum_list (map note_relayed ((ts_notes s)[i := q])) + note_relayed p"
    unfolding assms(10) using sum_list_map_update [OF assms(2), of note_relayed q] assms(1,3) by (simp add: relay_inv_def)
  then have "mset (ts_relayed t) = sum_list (map note_relayed ((ts_notes s)[i := q]))" by (rule add_right_imp_eq)
  ultimately show ?thesis using assms(1,4-7) by (simp add: relay_inv_def)
qed

lemma relay_inv_idle:
  assumes "relay_inv calls post s" "ts_calls t \<subseteq>\<^sub>m ts_calls s" "ts_cell t = None \<longleftrightarrow> ts_cell s = None"
    "ts_notes t = ts_notes s" "ts_arrived t = ts_arrived s" "set (ts_runs s) \<subseteq> set (ts_runs t)" "ts_relayed t = ts_relayed s"
  shows "relay_inv calls post t"
proof -
  have old: "\<forall>p \<in> set (ts_notes s). note_ok calls post s p" using assms(1) by (simp add: relay_inv_def)
  have "note_ok calls post t p" if "p \<in> set (ts_notes s)" for p
    by (rule note_ok_mono [of s]) (simp_all add: assms(5,6) bspec [OF old that])
  moreover have "ts_calls t \<subseteq>\<^sub>m calls" using assms(1,2) map_le_trans by (auto simp: relay_inv_def)
  ultimately show ?thesis using assms by (simp add: relay_inv_def)
qed

lemma looked_up_ok:
  assumes "relay_inv calls post s" "hooked_calls calls post"
    and "n \<in> set (ts_arrived s)"
  shows "note_ok calls post s (looked_up s n)"
proof (cases "ts_calls s (progress_token n)")
  case None
  then show ?thesis by (simp add: looked_up_def progress_call_def)
next
  case (Some c)
  then have c: "calls (progress_token n) = Some c" using assms(1) by (auto simp: relay_inv_def map_le_def dom_def)
  have "renamed calls s (n\<lparr>progress_token := downstream_progress_token c\<rparr>)"
    unfolding renamed_def using assms(3) c by (intro bexI [of _ n] exI [of _ c]) auto
  then show ?thesis using assms(2) c Some
    by (simp add: looked_up_def progress_call_def Let_def cleared_def hooked_calls_def)
qed

lemma relayed_looked_up [simp]: "note_relayed (looked_up s n) = {#}"
  by (simp add: looked_up_def Let_def split: option.splits)

lemma stop_tracking_le: "stop_tracking_tool_call t calls \<subseteq>\<^sub>m calls"
  by (simp add: stop_tracking_tool_call_def map_le_def)

lemma relay_inv_at:
  "relay_inv calls post s \<Longrightarrow> i < length (ts_notes s) \<Longrightarrow> ts_notes s ! i = p \<Longrightarrow> note_ok calls post s p"
  by (metis nth_mem relay_inv_def)

lemma relay_inv_move:
  assumes "relay_inv calls post s" "i < length (ts_notes s)" "ts_notes s ! i = p" "note_ok calls post s q"
    and "ts_calls t = ts_calls s" "ts_cell t = ts_cell s" "ts_notes t = ts_notes s" "ts_arrived t = ts_arrived s"
      "ts_runs t = ts_runs s" "mset (ts_relayed t) + note_relayed p = mset (ts_relayed s) + note_relayed q"
  shows "relay_inv calls post (set_note i q t)"
proof -
  have "note_ok calls post (set_note i q t) q" by (rule note_ok_mono [of s]) (simp_all add: assms)
  then show ?thesis using assms(5-10) by (intro relay_inv_note [OF assms(1-3)]) simp_all
qed

lemma relay_RunEvent:
  assumes "stream_step env h (RunEvent i) s = Some s'" "relay_inv calls post s"
  shows "relay_inv calls post s'"
proof -
  from assms(1) obtain n c w c' answer where n: "i < length (ts_notes s)" "ts_notes s ! i = InHook n c"
    and s': "s' = set_note i (case answer of Ok (Some n) \<Rightarrow> Passed n | _ \<Rightarrow> Settled None)
      (finish_run w (EventRun c n c' answer) s)" unfolding step_RunEvent by blast
  let ?q = "case answer of Ok (Some n) \<Rightarrow> Passed n | _ \<Rightarrow> Settled None"
  have "renamed calls s' n" "post \<noteq> None" using relay_inv_at [OF assms(2) n] unfolding s' by (auto simp: renamed_def)
  then have "note_ok calls post s' ?q"
    unfolding s' by (auto simp: cleared_def split: sum.splits option.splits)
  moreover have "note_relayed ?q = {#}" by (simp split: sum.splits option.splits)
  moreover have "ts_cell s \<noteq> None" using assms(2) \<open>post \<noteq> None\<close> by (simp add: relay_inv_def)
  ultimately show ?thesis unfolding s' by (intro relay_inv_note [OF assms(2) n]) auto
qed

lemma relay_step:
  assumes "stream_step env h act s = Some s'" "relay_inv calls post s" "mutex_inv env post s"
    and tracked: "hooked_calls calls post"
  shows "relay_inv calls post s'"
proof (cases act)
  case (Arrive n)
  have old: "\<forall>p \<in> set (ts_notes s). note_ok calls post s p" using assms(2) by (simp add: relay_inv_def)
  let ?t = "s\<lparr>ts_notes := ts_notes s @ [Arrived n], ts_arrived := n # ts_arrived s\<rparr>"
  have "note_ok calls post ?t p" if "p \<in> set (ts_notes s)" for p
    by (rule note_ok_mono [of s]) (auto simp: bspec [OF old that])
  then show ?thesis using assms(1,2) Arrive by (auto simp: relay_inv_def)
next
  case (Lookup i)
  from assms(1) [unfolded Lookup step_Lookup] obtain n where n: "i < length (ts_notes s)"
    "ts_notes s ! i = Arrived n" "s' = set_note i (looked_up s n) s" by blast
  have "note_ok calls post s (looked_up s n)"
    using relay_inv_at [OF assms(2) n(1,2)] looked_up_ok [OF assms(2) tracked] by simp
  then show ?thesis unfolding n(3) by (intro relay_inv_move [OF assms(2) n(1,2)]) simp_all
next
  case (Acquire i)
  from assms(1) [unfolded Acquire step_Acquire] obtain n c where n: "i < length (ts_notes s)"
    "ts_notes s ! i = Looked n" "s' = set_note i (InHook n c) (s\<lparr>ts_locked := True\<rparr>)" by blast
  then show ?thesis using relay_inv_at [OF assms(2) n(1,2)]
    unfolding n(3) by (intro relay_inv_move [OF assms(2) n(1,2)]) simp_all
next
  case (Relay i)
  from assms(1) [unfolded Relay step_Relay] obtain n where n: "i < length (ts_notes s)"
    "ts_notes s ! i = Passed n" "s' = set_note i (Settled (Some n)) (s\<lparr>ts_relayed := n # ts_relayed s\<rparr>)" by blast
  then show ?thesis using relay_inv_at [OF assms(2) n(1,2)]
    unfolding n(3) by (intro relay_inv_move [OF assms(2) n(1,2)]) simp_all
next
  case (RunEvent i)
  then show ?thesis using assms(1,2) relay_RunEvent by blast
next
  case RunFinal
  from assms(1) [unfolded RunFinal step_RunFinal] obtain r c w c' answer where r: "ts_main s = InPostHook r c"
    "s' = (finish_run w (ResponseRun c r c' answer) s)\<lparr>ts_main := Returned answer\<rparr>" by blast
  have "ts_cell s \<noteq> None"
    using assms(3) inside_member(2) [OF r(1)] by (auto simp: mutex_inv_def split: option.splits)
  then show ?thesis unfolding r(2) by (intro relay_inv_idle [OF assms(2)]) auto
qed (use assms(1) in \<open>auto simp: step_iff stop_tracking_le intro!: relay_inv_idle [OF assms(2)] simp del: stream_step.simps\<close>)

lemma relay_reachable:
  assumes "stream_reachable env h (started_stream calls post w) s"
    and "hooked_calls calls post"
  shows "relay_inv calls post s"
  using assms(1)
proof (induction rule: stream_reachable.induct)
  case started
  then show ?case by (simp add: relay_inv_def started_stream_def)
next
  case (moved s act s')
  then show ?case using relay_step [OF moved(2,3) mutex_reachable [OF moved(1)]] assms(2) by blast
qed

lemma start_tool_call_post:
  assumes "start_tool_call send request token () (map_option (\<lambda>_. 0) post) fresh_calls w0 = (w1, calls, Ok handle)"
    "calls t = Some c"
  shows "t = handle_progress_token handle" "token = Some (downstream_progress_token c)"
  using assms by (auto simp: start_tool_call_def fresh_calls_def split: prod.splits sum.splits option.splits if_splits)

lemma start_tool_call_hooked:
  assumes "start_tool_call send request token () (map_option (\<lambda>_. 0) post) fresh_calls w0 = (w1, calls, Ok handle)"
  shows "hooked_calls calls post"
  using assms by (auto simp: start_tool_call_def fresh_calls_def hooked_calls_def
      split: prod.splits sum.splits option.splits if_splits)

lemma relayed_count: "size (sum_list (map note_relayed ps)) \<le> length ps"
  by (induction ps) (auto simp: note_relayed_def split: note_phase.splits option.splits)

section \<open>The tasks come to an end\<close>

fun note_work :: "('m, 't) note_phase \<Rightarrow> nat" where
  "note_work (Arrived n) = 4" | "note_work (Looked n) = 3" | "note_work (InHook n c) = 2"
| "note_work (Passed n) = 1" | "note_work (Settled r) = 0"

fun main_work :: "('m, 't) main_phase \<Rightarrow> nat" where
  "main_work Awaiting = 4" | "main_work (Answered r) = 3" | "main_work (Untracked r) = 2"
| "main_work (InPostHook r c) = 1" | "main_work (Returned r) = 0"

definition stream_work :: "('m, 't, 'w) tool_stream \<Rightarrow> nat" where
  "stream_work s = sum_list (map note_work (ts_notes s)) + main_work (ts_main s)"

text \<open>The actions of the gateway's own tasks: not the backend's messages and not other requests.\<close>

fun task_action :: "'w stream_action \<Rightarrow> bool" where
  "task_action (Arrive n) \<longleftrightarrow> False" | "task_action (Respond r) \<longleftrightarrow> False" | "task_action (Elsewhere w) \<longleftrightarrow> False"
| "task_action act \<longleftrightarrow> True"

definition stream_finished :: "('m, 't, 'w) tool_stream \<Rightarrow> bool" where
  "stream_finished s \<longleftrightarrow> stream_work s = 0"

lemma work_set_note:
  assumes "i < length (ts_notes s)" "ts_notes t = ts_notes s" "ts_main t = ts_main s" "note_work q < note_work (ts_notes s ! i)"
  shows "stream_work (set_note i q t) < stream_work s"
  using sum_list_map_update [OF assms(1), of note_work q] assms by (simp add: stream_work_def)

lemma task_action_works:
  assumes "stream_step env h act s = Some s'" "task_action act"
  shows "stream_work s' < stream_work s"
proof -
  have l: "note_work (looked_up s n) < 4" for n by (simp add: looked_up_def Let_def split: option.splits)
  have e: "note_work (case answer of Ok (Some n) \<Rightarrow> Passed n | _ \<Rightarrow> Settled None) < 2"
    for answer :: "(progress_notification option, error_data) result"
    by (simp split: sum.splits option.splits)
  show ?thesis
  proof (cases act)
    case (RunEvent i)
    from assms(1) [unfolded RunEvent step_RunEvent] show ?thesis
      using e by (auto intro!: work_set_note)
  qed (use assms in \<open>auto simp: step_iff stream_work_def l intro!: work_set_note [unfolded stream_work_def]
    simp del: stream_step.simps\<close>)
qed

text \<open>Somebody can always go on: the holder of the mutex, or else whoever waits for it.\<close>

lemma unlocked_outside:
  assumes "mutex_inv env post s" "\<And>i n c. i < length (ts_notes s) \<Longrightarrow> ts_notes s ! i \<noteq> InHook n c"
    and "\<And>r c. ts_main s \<noteq> InPostHook r c"
  shows "\<not> ts_locked s"
proof -
  have "note_state p = {#}" if "p \<in> set (ts_notes s)" for p
  proof -
    obtain k where "k < length (ts_notes s)" "p = ts_notes s ! k" using \<open>p \<in> set (ts_notes s)\<close> by (metis in_set_conv_nth)
    with assms(2) show ?thesis by (simp add: note_state_def split: note_phase.split)
  qed
  then have "sum_list (map note_state (ts_notes s)) = {#}" by (simp cong: map_cong)
  then have "inside_hook s = {#}" using assms(3) by (cases "ts_main s") (auto simp: inside_hook_def)
  then show ?thesis using assms(1) by (auto simp: mutex_inv_def split: option.splits if_splits)
qed

text \<open>With the mutex free, every notification task that is not settled can go on, and so can the handler.\<close>

lemma note_enabled:
  assumes "relay_inv calls post s" "\<not> ts_locked s" "i < length (ts_notes s)" "note_work (ts_notes s ! i) \<noteq> 0"
  shows "\<exists>act. task_action act \<and> stream_step env h act s \<noteq> None"
proof (cases "ts_notes s ! i")
  case (Looked n)
  then obtain c where "ts_cell s = Some c" using relay_inv_at [OF assms(1,3) Looked] assms(1) by (auto simp: relay_inv_def)
  with assms(2,3) Looked show ?thesis by (intro exI [of _ "Acquire i"]) (simp add: note_at_def)
next
  case (Arrived n)
  with assms(3) show ?thesis by (intro exI [of _ "Lookup i"]) (simp add: note_at_def)
next
  case (Passed n)
  with assms(3) show ?thesis by (intro exI [of _ "Relay i"]) (simp add: note_at_def)
next
  case (InHook n c)
  with assms(3) show ?thesis by (intro exI [of _ "RunEvent i"]) (simp add: note_at_def case_prod_beta)
qed (use assms(4) in simp)

lemma main_enabled:
  assumes "\<not> ts_locked s" "ts_main s \<noteq> Awaiting" "main_work (ts_main s) \<noteq> 0"
  shows "\<exists>act. task_action act \<and> stream_step env h act s \<noteq> None"
proof (cases "ts_main s")
  case (InPostHook r c)
  then show ?thesis by (intro exI [of _ RunFinal]) (auto simp: case_prod_beta)
qed (use assms in \<open>cases "ts_cell s"; auto intro: exI [of _ Untrack] exI [of _ AcquireFinal] split: sum.splits\<close>)+

lemma task_enabled:
  assumes "mutex_inv env post s" "relay_inv calls post s" "ts_main s \<noteq> Awaiting" "\<not> stream_finished s"
  shows "\<exists>act. task_action act \<and> stream_step env h act s \<noteq> None"
proof -
  consider i n c where "i < length (ts_notes s)" "ts_notes s ! i = InHook n c"
    | r c where "ts_main s = InPostHook r c" | "\<not> ts_locked s"
    using unlocked_outside [OF assms(1)] by blast
  then show ?thesis
  proof cases
    case (1 i n c)
    then show ?thesis by (intro exI [of _ "RunEvent i"]) (simp add: note_at_def case_prod_beta)
  next
    case (2 r c)
    then show ?thesis by (intro exI [of _ RunFinal]) (auto simp: case_prod_beta)
  next
    case 3
    show ?thesis
    proof (cases "main_work (ts_main s) = 0")
      case True
      then obtain i where "i < length (ts_notes s)" "note_work (ts_notes s ! i) \<noteq> 0"
        using assms(4) by (auto simp: stream_finished_def stream_work_def in_set_conv_nth)
      then show ?thesis by (rule note_enabled [OF assms(2) 3])
    next
      case False
      then show ?thesis by (rule main_enabled [OF 3 assms(3)])
    qed
  qed
qed

lemma stream_steps_bounded:
  assumes "stream_steps env h acts s = Some s'" "list_all task_action acts"
  shows "length acts + stream_work s' \<le> stream_work s"
  using assms
proof (induction acts arbitrary: s)
  case (Cons act acts)
  then obtain s1 where s1: "stream_step env h act s = Some s1" "stream_steps env h acts s1 = Some s'"
    by (auto simp: bind_eq_Some_conv)
  with Cons have "length acts + stream_work s' \<le> stream_work s1" by simp
  with task_action_works [OF s1(1)] Cons.prems(2) show ?case by simp
qed simp

lemma main_not_awaiting:
  assumes "stream_step env h act s = Some s'" "task_action act" "ts_main s \<noteq> Awaiting"
  shows "ts_main s' \<noteq> Awaiting"
  using assms by (cases act) (auto simp: step_iff simp del: stream_step.simps)

lemma steps_not_awaiting:
  assumes "stream_steps env h acts s = Some s'" "list_all task_action acts" "ts_main s \<noteq> Awaiting"
  shows "ts_main s' \<noteq> Awaiting"
  using assms
proof (induction acts arbitrary: s)
  case (Cons act acts)
  then obtain s1 where s1: "stream_step env h act s = Some s1" "stream_steps env h acts s1 = Some s'"
    by (auto simp: bind_eq_Some_conv)
  then have "ts_main s1 \<noteq> Awaiting" using Cons.prems main_not_awaiting [OF s1(1)] by simp
  with Cons s1(2) show ?case by simp
qed simp

lemma stream_finishes:
  assumes "stream_reachable env h (started_stream calls post w) s" "ts_main s \<noteq> Awaiting"
    and "hooked_calls calls post"
  shows "\<exists>acts s'. list_all task_action acts \<and> stream_steps env h acts s = Some s' \<and> stream_finished s'"
  using assms(1,2)
proof (induction "stream_work s" arbitrary: s rule: less_induct)
  case less
  show ?case
  proof (cases "stream_finished s")
    case True
    then show ?thesis by (intro exI [of _ "[]"]) simp
  next
    case False
    from task_enabled [OF mutex_reachable [OF less(2)] relay_reachable [OF less(2) assms(3)] less(3) False, of h]
    obtain act s1 where act: "task_action act" "stream_step env h act s = Some s1" by blast
    with less obtain acts s' where "list_all task_action acts" "stream_steps env h acts s1 = Some s'" "stream_finished s'"
      using task_action_works main_not_awaiting stream_reachable.moved by meson
    with act show ?thesis by (intro exI [of _ "act # acts"]) simp
  qed
qed

section \<open>Properties\<close>

text \<open>
  Property C13 (the hooks of a call are serialised): however the response and the notifications of a tool call
  interleave with each other and with other requests, at most one of their post hooks is running, on the
  current state of the call; every hook that ran read exactly the state that the hook before it left, so that no
  update of the plugins' context table is lost, and all ran on the runtime and the correlation id of the call.
\<close>

theorem hooks_serialized:
  assumes "stream_reachable env h (started_stream calls (Some c0) w) s"
  shows "\<exists>c. ts_cell s = Some c \<and> inside_hook s \<subseteq># {#c#} \<and>
    chained (genuine_run env) run_before run_after c0 (ts_runs s) c \<and>
    list_all (\<lambda>run. call_identity (run_before run) = call_identity c0) (ts_runs s)"
proof -
  from mutex_reachable [OF assms] obtain c where c: "ts_cell s = Some c"
    "inside_hook s = (if ts_locked s then {#c#} else {#})" "hooks_chained env c0 (ts_runs s) c"
    by (auto simp: mutex_inv_def split: option.splits)
  then show ?thesis using hook_runs.runs_genuine [OF c(3)] by (auto simp: list_all_iff)
qed

text \<open>
  Property C14 (relayed notifications are cleared): a client that gave a token gets, at most once per notification that arrived for
  its call, that notification under its own token when the call has no post hook, and otherwise exactly what a run of
  the post hook on it returned; a denied or rejected notification and one under another token never reach it.
\<close>

theorem relayed_cleared:
  assumes "start_tool_call send request token () (map_option (\<lambda>_. 0) post) fresh_calls w0 = (w1, calls, Ok h)"
    and "stream_reachable env h (started_stream calls post w) s" and "n \<in> set (ts_relayed s)"
  shows "length (ts_relayed s) \<le> length (ts_arrived s) \<and>
    (\<exists>raw t. token = Some t \<and> raw \<in> set (ts_arrived s) \<and> progress_token raw = handle_progress_token h \<and>
      (case post of
         None \<Rightarrow> n = raw\<lparr>progress_token := t\<rparr>
       | Some c0 \<Rightarrow> \<exists>c c'. EventRun c (raw\<lparr>progress_token := t\<rparr>) c' (Ok (Some n)) \<in> set (ts_runs s)))"
proof
  have inv: "relay_inv calls post s"
    using relay_reachable [OF assms(2) start_tool_call_hooked [OF assms(1)]] .
  then show "length (ts_relayed s) \<le> length (ts_arrived s)"
    using relayed_count [of "ts_notes s"] by (simp add: relay_inv_def flip: size_mset)
  have "n \<in># sum_list (map note_relayed (ts_notes s))" using inv assms(3) by (simp add: relay_inv_def flip: set_mset_mset)
  then obtain p where p: "p \<in> set (ts_notes s)" "n \<in># note_relayed p" by auto
  then have "p = Settled (Some n)" by (auto simp: note_relayed_def split: note_phase.splits option.splits)
  then have "cleared calls post s n" using inv p(1) by (auto simp: relay_inv_def)
  moreover have "\<exists>raw t. token = Some t \<and> raw \<in> set (ts_arrived s) \<and> progress_token raw = handle_progress_token h \<and>
      m = raw\<lparr>progress_token := t\<rparr>" if "renamed calls s m" for m
    using that start_tool_call_post [OF assms(1)] unfolding renamed_def by metis
  ultimately show "\<exists>raw t. token = Some t \<and> raw \<in> set (ts_arrived s) \<and> progress_token raw = handle_progress_token h \<and>
      (case post of
         None \<Rightarrow> n = raw\<lparr>progress_token := t\<rparr>
       | Some c0 \<Rightarrow> \<exists>c c'. EventRun c (raw\<lparr>progress_token := t\<rparr>) c' (Ok (Some n)) \<in> set (ts_runs s))"
    by (cases post) (auto simp: cleared_def, metis)
qed

text \<open>
  Property C15 (the tasks come to an end): once the backend has answered, the tasks of a tool call cannot block each
  other. However they are scheduled, after boundedly many steps of theirs no task is left: the handler has returned
  and every notification that arrived is settled; as long as one is left, one of them can go on.
\<close>

theorem stream_drains:
  assumes "start_tool_call send request token () (map_option (\<lambda>_. 0) post) fresh_calls w0 = (w1, calls, Ok h)"
    and "stream_reachable env h (started_stream calls post w) s" and "ts_main s \<noteq> Awaiting"
  shows "(\<exists>acts s'. list_all task_action acts \<and> stream_steps env h acts s = Some s' \<and> stream_finished s') \<and>
    (\<forall>acts s'. list_all task_action acts \<longrightarrow> stream_steps env h acts s = Some s' \<longrightarrow>
       length acts \<le> stream_work s \<and>
       (stream_finished s' \<or> (\<exists>act. task_action act \<and> stream_step env h act s' \<noteq> None)))"
proof (intro conjI allI impI)
  note hooked = start_tool_call_hooked [OF assms(1)]
  show "\<exists>acts s'. list_all task_action acts \<and> stream_steps env h acts s = Some s' \<and> stream_finished s'"
    by (rule stream_finishes [OF assms(2,3) hooked])
  fix acts s'
  assume acts: "list_all task_action acts" "stream_steps env h acts s = Some s'"
  show "length acts \<le> stream_work s" using stream_steps_bounded [OF acts(2,1)] by simp
  have reach: "stream_reachable env h (started_stream calls post w) s'"
    by (rule stream_steps_reachable [OF assms(2) acts(2)])
  have "ts_main s' \<noteq> Awaiting" by (rule steps_not_awaiting [OF acts(2,1) assms(3)])
  then show "stream_finished s' \<or> (\<exists>act. task_action act \<and> stream_step env h act s' \<noteq> None)"
    using task_enabled [OF mutex_reachable [OF reach] relay_reachable [OF reach hooked]] by blast
qed

text \<open>
  Witnesses: a call with a post hook and two notifications. The second waits for the mutex while the response
  arrives, is looked up before the token is untracked and hooked after the final response.
\<close>

definition sample_hooked :: "(nat, nat) call_state" where
  "sample_hooked = \<lparr>cs_runtime = \<lparr>manager = 0, runtime_hooks = \<lambda>_. \<lparr>pre_hook = True, post_hook = True\<rparr>\<rparr>,
     cs_context = 5, cs_name = ''up'', cs_id = ''gateway-tool-call-1''\<rparr>"

definition sample_handle :: request_handle where
  "sample_handle = \<lparr>handle_progress_token = ''p'', handle_request_id = 1\<rparr>"

definition sample_calls :: "unit in_flight_calls" where
  "sample_calls = [''p'' \<mapsto> \<lparr>downstream_progress_token = ''mine'', post_state = Some 0, downstream_peer = ()\<rparr>]"

definition sample_note :: "nat \<Rightarrow> progress_notification" where
  "sample_note k = \<lparr>progress_token = ''p'', progress_value = JNumber (PosInt k)\<rparr>"

definition sample_begin :: "(nat, nat, nat) tool_stream" where
  "sample_begin = started_stream sample_calls (Some sample_hooked) \<lparr>correlation_id = 2, outside = 0\<rparr>"

definition sample_schedule :: "nat stream_action list" where
  "sample_schedule = [Arrive (sample_note 1), Lookup 0, Acquire 0, Arrive (sample_note 2), Lookup 1,
     Respond (Ok sample_result), Untrack, RunEvent 0, AcquireFinal, RunFinal, Relay 0]"

lemma sample_start:
  "start_tool_call (g_send_tool sample_gateway ()) sample_call (Some ''mine'') () (map_option (\<lambda>_. 0) (Some sample_hooked))
     fresh_calls 0 = (1, sample_calls, Ok sample_handle)"
  by (simp add: start_tool_call_def sample_gateway_def sample_handle_def sample_calls_def fresh_calls_def)

lemma sample_stream:
  "\<exists>s. stream_reachable sample_gateway sample_handle sample_begin s \<and> ts_main s \<noteq> Awaiting \<and>
     \<not> stream_finished s \<and> length (ts_runs s) = 2 \<and> ts_relayed s = [(sample_note 1)\<lparr>progress_token := ''mine''\<rparr>]"
proof -
  have "\<exists>s. stream_steps sample_gateway sample_handle sample_schedule sample_begin = Some s \<and> ts_main s \<noteq> Awaiting \<and>
     \<not> stream_finished s \<and> length (ts_runs s) = 2 \<and> ts_relayed s = [(sample_note 1)\<lparr>progress_token := ''mine''\<rparr>]"
    by (simp add: sample_schedule_def sample_begin_def started_stream_def note_at_def set_note_def looked_up_def
        progress_call_def sample_calls_def sample_note_def event_hook_def after_stream_event_def call_invoke_def
        event_to_payload_def runtime_invoke_def sample_gateway_def sample_plugins_def call_apply_def
        modified_message_payload_def finish_run_def response_hook_def call_after_def tool_to_payload_def
        stream_finished_def stream_work_def Let_def)
  then show ?thesis using stream_steps_reachable [OF stream_reachable.started] by blast
qed

theorem hooks_serialized_witness:
  "\<exists>s. stream_reachable sample_gateway sample_handle (started_stream sample_calls (Some sample_hooked)
       \<lparr>correlation_id = 2, outside = 0\<rparr>) s \<and> length (ts_runs s) = 2 \<and>
     (\<exists>c. ts_cell s = Some c \<and> inside_hook s \<subseteq># {#c#} \<and>
        chained (genuine_run sample_gateway) run_before run_after sample_hooked (ts_runs s) c \<and>
        list_all (\<lambda>run. call_identity (run_before run) = call_identity sample_hooked) (ts_runs s))"
  using sample_stream hooks_serialized unfolding sample_begin_def by blast

theorem relayed_cleared_witness:
  "\<exists>s. stream_reachable sample_gateway sample_handle (started_stream sample_calls (Some sample_hooked)
       \<lparr>correlation_id = 2, outside = 0\<rparr>) s \<and>
     (\<exists>n \<in> set (ts_relayed s). length (ts_relayed s) \<le> length (ts_arrived s) \<and>
       (\<exists>raw t. Some ''mine'' = Some t \<and> raw \<in> set (ts_arrived s) \<and>
          progress_token raw = handle_progress_token sample_handle \<and>
          (case Some sample_hooked of None \<Rightarrow> n = raw\<lparr>progress_token := t\<rparr>
           | Some c0 \<Rightarrow> \<exists>c c'. EventRun c (raw\<lparr>progress_token := t\<rparr>) c' (Ok (Some n)) \<in> set (ts_runs s))))"
proof -
  obtain s where s: "stream_reachable sample_gateway sample_handle (started_stream sample_calls (Some sample_hooked)
       \<lparr>correlation_id = 2, outside = 0\<rparr>) s" "ts_relayed s = [(sample_note 1)\<lparr>progress_token := ''mine''\<rparr>]"
    using sample_stream unfolding sample_begin_def by blast
  then have n: "(sample_note 1)\<lparr>progress_token := ''mine''\<rparr> \<in> set (ts_relayed s)" by simp
  show ?thesis by (intro exI [of _ s] conjI s(1) bexI [OF _ n] relayed_cleared [OF sample_start s(1) n, THEN conjunct1]
        relayed_cleared [OF sample_start s(1) n, THEN conjunct2])
qed

theorem stream_drains_witness:
  "\<exists>s. stream_reachable sample_gateway sample_handle (started_stream sample_calls (Some sample_hooked)
       \<lparr>correlation_id = 2, outside = 0\<rparr>) s \<and> \<not> stream_finished s \<and>
     (\<exists>acts s'. list_all task_action acts \<and> stream_steps sample_gateway sample_handle acts s = Some s' \<and> stream_finished s')"
  using sample_stream stream_drains [OF sample_start] unfolding sample_begin_def by meson

end
