(* ===== verification/Spec2Isabelle.thy ===== *)
theory Spec2Isabelle
  imports Listeners Revocation SecretsResponses SecretsTypes RuntimeLifetime AdminTools ToolStream
begin

text \<open>
  \<^bold>\<open>Verification of the ContextForge data plane.\<close> The data plane is a gateway for the Model Context
  Protocol. A client posts MCP messages to \<open>/contextforge-rs/servers/<virtual host>/mcp\<close>; the gateway
  checks the header budget, the token, the user's configuration and the virtual host, routes the
  message to one backend of that virtual host, runs plugin hooks around the call and returns the answer.
  All paths below are under \<open>src/crates\<close>; \<open>lib\<close> is \<open>contextforge-data-plane-lib/src\<close>, \<open>cpex\<close> is
  \<open>contextforge-data-plane-cpex/src\<close>, \<open>secrets\<close> is \<open>plugins/cpex-secrets-detection/src\<close>, \<open>obs\<close> is
  \<open>contextforge-data-plane-observability/src\<close>.

  \<^bold>\<open>The parts and the theories that model them.\<close>

  \<^item> \<open>Prelude\<close>, \<open>Json\<close>: results (\<open>Ok\<close>, \<open>Err\<close>), state-passing computations, Rust strings as byte lists
    (\<open>split\<close>, \<open>trim\<close>, \<open>strip_prefix\<close>, UTF-8), fixed-width integers, JSON values and their equality.
  \<^item> \<open>HeaderInteger\<close>, \<open>StandardHeaders\<close> (\<open>lib/mcp_standard_headers.rs\<close>): the header classes, the
    annotations of a tool's input schema, the check of \<open>Mcp-Param-*\<close> headers against the arguments.
  \<^item> \<open>HeaderLimits\<close> (\<open>lib/layers/mcp_header_limits.rs\<close>): the budget for MCP headers, saturating.
  \<^item> \<open>Apis\<close> (\<open>contextforge-data-plane-apis/src\<close>): users, virtual hosts, routes, backends, global configuration.
  \<^item> \<open>ConfigStore\<close> (\<open>lib/config_stores\<close>): the cached Redis store; its calls are split into the phases
    between which other calls run, and interleaved by an inductive step relation.
  \<^item> \<open>Authorization\<close> (\<open>lib/authorization\<close>): key sets, their cache, token validation, the principals.
  \<^item> \<open>Middleware\<close> (\<open>lib/layers\<close>, \<open>lib/errors.rs\<close>, the layers in \<open>lib/lib.rs\<close>): each layer as a
    function on services, the stack of the MCP route.
  \<^item> \<open>HeaderForwarding\<close> (\<open>lib/gateway/mcp_service/initialization.rs\<close>, \<open>obs/propagation.rs\<close>): the headers that
    a backend gets.
  \<^item> \<open>Cmf\<close>, \<open>HookResponses\<close> (\<open>cpex/cmf.rs\<close>, \<open>hooks.rs\<close>, \<open>error.rs\<close>, \<open>factory.rs\<close>, \<open>runtime.rs\<close>, \<open>tools\<close>, \<open>prompts\<close>,
    \<open>resources\<close>): the plugin runtime and the conversions between MCP and plugin messages.
  \<^item> \<open>PluginRegistry\<close> (\<open>cpex/registry\<close>, \<open>cpex/config.rs\<close>): loading, reloading and watching the plugin
    configuration, with the watcher as an inductive machine.
  \<^item> \<open>BackendClient\<close> (\<open>lib/gateway/backend_client.rs\<close>): the client and what it says of itself, progress tracking as a
    machine over the lock phases, relaying, cancellation.
  \<^item> \<open>Routing\<close> (\<open>lib/gateway\<close>): every handler of the MCP service, over a world that records, for the
    statements, what is done to backends. Notifications are handled one after the other there, and those that
    arrive once the call is no longer tracked are dropped.
  \<^item> \<open>ToolStream\<close> (\<open>lib/gateway/mcp_service/tools.rs\<close>, \<open>lib/gateway/backend_client.rs\<close>, \<open>cpex/tools\<close>): the handler of one tool
    call and the tasks of its notifications, interleaved at the points where they await, over the progress table and the
    mutex around the hook state; the account of \<open>Routing\<close> is shown to be one of these interleavings.
  \<^item> \<open>SecretsConfig\<close>, \<open>SecretsScanner\<close>, \<open>SecretsPlugin\<close> (\<open>secrets\<close>): the secrets detection plugin.
  \<^item> \<open>AppConfig\<close> (\<open>lib/common\<close>, \<open>obs/config.rs\<close>), \<open>Observability\<close> (\<open>obs/logging.rs\<close>), \<open>Startup\<close>
    (\<open>contextforge-data-plane/src/main.rs\<close>, \<open>lib/lib.rs\<close>, \<open>lib/transports\<close>, the global configuration store),
    \<open>AdminTools\<close> (\<open>lib/tools.rs\<close>, \<open>contextforge-data-plane-apis/src/main.rs\<close>): from the command line to the listeners,
    and the development tools. The boxed errors of the start-up are a sum of the errors that can occur.
  \<^item> \<open>Listeners\<close> (\<open>lib/transports\<close>, the end of \<open>run_gateway\<close> in \<open>lib/lib.rs\<close>): binding, the TLS accept loop with its spawned
    tasks and the joined handlers, as a machine over the events of the network and the operator.
  \<^item> \<open>RuntimeLifetime\<close> (\<open>cpex/runtime.rs\<close>, \<open>cpex/registry\<close>): the references to a plugin runtime and its \<open>Drop\<close>.
  \<^item> \<open>DataPlane\<close>: the running gateway, composed of the layers, the token service, the user store and the MCP
    service; \<open>Revocation\<close>: its life after a virtual host was withdrawn from a user.
  \<^item> \<open>SecretsGuard\<close>, \<open>SecretsResponses\<close>: the secrets plugin in the path of tool calls, their results and resource
    reads; \<open>SecretsTypes\<close>: what the scanner keeps of the types of its input.

  \<^bold>\<open>How the code is modelled.\<close> Structs are records, enums datatypes, maps association lists where their
  order or duplicates matter and functions otherwise; errors are values of a sum type; a panic is
  a value of its own. Asynchronous code is sequential where it holds no shared state across a
  suspension point, and a step relation where it does (store, progress table, tasks of a tool call, watcher, listeners, runtimes). Definitions are
  executable; loops are structural recursion or carry a termination proof, so no fuel is used anywhere.

  \<^bold>\<open>Parameters.\<close> Code outside the repository is an argument: Redis and its codec, the LRU cache, JWT
  decoding, the HTTP client, \<open>rmcp\<close> (the MCP transport, client connections, serialisation), the CPEX plugin
  manager and message accessors, the CEL interpreter, regular expressions, PEM and TLS material, axum's router and
  server, socket calls, the OpenTelemetry SDK. What the code relies on is stated as named predicates: \<open>cache_laws\<close>, \<open>redis_laws\<close>,
  \<open>codec_laws\<close>, \<open>jwks_cache_laws\<close>, \<open>cmf_access_laws\<close>, \<open>regex_laws\<close>, \<open>mint_laws\<close>, \<open>serves_keys\<close>, \<open>runs_secrets\<close>, \<open>reads_keep\<close>;
  each is shown to hold for a concrete instance where it is used.

  \<^bold>\<open>Interfaces.\<close> Locales state what one part promises another, and each is interpreted on the model: a map-like
  store (\<open>config_store\<close>), a layer as a decision about a request and the composition of two
  (\<open>gate_layer\<close>, \<open>gate_layers\<close>), a principal extractor (\<open>principal_extractor\<close>), a response that goes through
  plugins (\<open>cmf_response\<close>), an MCP operation confined to the routes of a virtual host (\<open>mcp_operation\<close>),
  runs that each start where the one before ended (\<open>serial_runs\<close>).

  \<^bold>\<open>What is shown.\<close>

  \<^item> End to end: in every reachable state, an effect on a backend is backed by a verified token, the
    principal it names, the configuration of that user and a route of the virtual host in the path
    (\<open>DataPlane\<close>); requests of different tenants never mix (\<open>Routing\<close>); a virtual host withdrawn from a user is
    no longer served to that user once the cache has expired (\<open>Revocation\<close>). The listeners bring the gateway only
    into such states, and they end exactly when they should (\<open>Listeners\<close>).
  \<^item> The layer stack refines the admission predicate, refuses with documented statuses and before it
    touches anything (\<open>Middleware\<close>); the path of a virtual host is parsed exactly.
  \<^item> A tool call does one connect, one call with the arguments that the hooks left, one close (\<open>Routing\<close>);
    headers and arguments agree (\<open>StandardHeaders\<close>); configured headers never override protected ones
    (\<open>HeaderForwarding\<close>); progress reaches the caller that asked for it (\<open>BackendClient\<close>),
    its hooks and the final one run one at a time and lose no update, only what they let pass is relayed, and the tasks of a call
    come to an end (\<open>ToolStream\<close>).
  \<^item> Plugins fail closed and converge after repair (\<open>PluginRegistry\<close>) and are not shut down under a call that
    uses them (\<open>RuntimeLifetime\<close>); their edits are applied exactly or
    refused (\<open>HookResponses\<close>); the secrets plugin finds, redacts and blocks exactly as configured
    (\<open>SecretsScanner\<close>, \<open>SecretsPlugin\<close>), keeps texts valid and values in shape (\<open>SecretsTypes\<close>), and what it blocks or
    redacts reaches neither a backend (\<open>SecretsGuard\<close>) nor a client (\<open>SecretsResponses\<close>).
  \<^item> The store never serves a configuration older than its expiry allows, in every interleaving
    (\<open>ConfigStore\<close>); only signing keys of the RSA and EC families verify tokens (\<open>Authorization\<close>).
  \<^item> Start-up opens exactly the configured listeners, never weakens the configured transport security, and
    serves with plugins only once they are loaded (\<open>AppConfig\<close>, \<open>Observability\<close>, \<open>Startup\<close>).

  \<^bold>\<open>Not modelled.\<close> The inside of TLS, HTTP, tracing and metrics libraries, log messages, argument parsing by
  \<open>clap\<close>, the session manager of \<open>rmcp\<close> and the test plugins themselves, whose code is in another repository: they are
  calls into libraries without logic of this repository. The application is modelled without the feature
  \<open>with_tools\<close>; the handlers of that feature are modelled on their own.
\<close>

end
